theory Spec2Isabelle
  imports Complex_Main "HOL-Library.Word"
begin

section \<open>Microfacet BSDF helpers of Framework/Source/ShadingUtils/BSDFs.h\<close>

text \<open>
  The shading code computes on \<^verbatim>\<open>float\<close>. Two readings of it are given.

  The first reads every \<^verbatim>\<open>float\<close> as a real number: rounding, overflow, infinities
  and NaN are outside of it, \<^verbatim>\<open>log\<close> is \<^term>\<open>ln\<close>, \<^verbatim>\<open>M_PIf\<close> is \<^term>\<open>pi\<close> and
  \<^verbatim>\<open>M_1_PIf\<close> its reciprocal. A quotient with a zero divisor has the value HOL
  gives it (zero), where the machine gives an infinity or NaN; a square root of a negative
  number is HOL's, where the machine gives NaN. This reading serves for the order of the
  tests and early returns and for the algebra of the densities.

  The second reading, in the second half of the definitions, is IEEE 754 binary32 with
  rounding to nearest, ties to even, gradual underflow, overflow to an infinity, signed
  zeros and NaN; every function of the first reading that a property of ranges, signs or
  equalities depends on is transcribed a second time over it, with the suffix \<open>_f32\<close>.
  This reading serves for the ranges, the signs and the equality of computed values.
\<close>

subsection \<open>Vectors and the shading language's intrinsics\<close>

datatype vec2 = v2 (vec2_x: real) (vec2_y: real)

datatype vec3 = v3 (vec3_x: real) (vec3_y: real) (vec3_z: real)

definition dot2 :: "vec2 \<Rightarrow> vec2 \<Rightarrow> real" where
  "dot2 a b = vec2_x a * vec2_x b + vec2_y a * vec2_y b"

definition dot3 :: "vec3 \<Rightarrow> vec3 \<Rightarrow> real" where
  "dot3 a b = vec3_x a * vec3_x b + vec3_y a * vec3_y b + vec3_z a * vec3_z b"

definition mul2 :: "vec2 \<Rightarrow> vec2 \<Rightarrow> vec2" where
  "mul2 a b = v2 (vec2_x a * vec2_x b) (vec2_y a * vec2_y b)"

definition div2 :: "vec2 \<Rightarrow> vec2 \<Rightarrow> vec2" where
  "div2 a b = v2 (vec2_x a / vec2_x b) (vec2_y a / vec2_y b)"

definition scale2 :: "vec2 \<Rightarrow> real \<Rightarrow> vec2" where
  "scale2 a s = v2 (vec2_x a * s) (vec2_y a * s)"


definition neg3 :: "vec3 \<Rightarrow> vec3" where
  "neg3 a = v3 (- vec3_x a) (- vec3_y a) (- vec3_z a)"

definition sub3 :: "vec3 \<Rightarrow> vec3 \<Rightarrow> vec3" where
  "sub3 a b = v3 (vec3_x a - vec3_x b) (vec3_y a - vec3_y b) (vec3_z a - vec3_z b)"

definition scale3 :: "real \<Rightarrow> vec3 \<Rightarrow> vec3" where
  "scale3 s a = v3 (s * vec3_x a) (s * vec3_y a) (s * vec3_z a)"

definition saturate :: "real \<Rightarrow> real" where
  "saturate v = min 1 (max 0 v)"

definition M_PIf :: real where
  "M_PIf = pi"

definition M_1_PIf :: real where
  "M_1_PIf = 1 / pi"

subsection \<open>Fresnel\<close>

definition dielectricFresnelSchlick :: "real \<Rightarrow> real \<Rightarrow> real" where
  "dielectricFresnelSchlick VdH IoR =
     (let R0 = (1 - IoR) / (1 + IoR);
          R0 = R0 * R0;
          OneMinusCos = 1 - VdH;
          OneMinusCos2 = OneMinusCos * OneMinusCos
      in R0 + (1 - R0) * OneMinusCos * OneMinusCos2 * OneMinusCos2)"


subsection \<open>Normal distribution functions\<close>

text \<open>
  The two C++ overloads of \<^verbatim>\<open>evalBeckmannDistribution\<close> and of
  \<^verbatim>\<open>evalGGXDistribution\<close> are told apart by a suffix: \<open>_iso\<close> for the form taking
  \<open>N\<close>, \<open>H\<close> and a scalar roughness, \<open>_aniso\<close> for the form taking \<open>H\<close> in the local frame
  and a roughness pair. The local \<^verbatim>\<open>exponent\<close> of each Beckmann form is a constant of
  its own, since a property below is about it.
\<close>

definition beckmannExponent_iso :: "vec3 \<Rightarrow> vec3 \<Rightarrow> real \<Rightarrow> real" where
  "beckmannExponent_iso N H roughness =
     (let a2 = roughness * roughness;
          NoH = dot3 N H;
          NoH2 = NoH * NoH
      in max 0 ((1 - NoH2) / (a2 * NoH2)))"

definition evalBeckmannDistribution_iso :: "vec3 \<Rightarrow> vec3 \<Rightarrow> real \<Rightarrow> real" where
  "evalBeckmannDistribution_iso N H roughness =
     (let a2 = roughness * roughness;
          NoH = dot3 N H;
          NoH2 = NoH * NoH;
          exponent = beckmannExponent_iso N H roughness
      in exp (- exponent) / (M_PIf * a2 * NoH2 * NoH2))"

definition beckmannExponent_aniso :: "vec3 \<Rightarrow> vec2 \<Rightarrow> real" where
  "beckmannExponent_aniso H rgns =
     (let NoH2 = vec3_z H * vec3_z H;
          Hproj = v2 (vec3_x H) (vec3_y H)
      in dot2 (div2 Hproj (mul2 rgns rgns)) Hproj / NoH2)"

definition evalBeckmannDistribution_aniso :: "vec3 \<Rightarrow> vec2 \<Rightarrow> real" where
  "evalBeckmannDistribution_aniso H rgns =
     (let NoH2 = vec3_z H * vec3_z H;
          exponent = beckmannExponent_aniso H rgns
      in exp (- exponent) / (M_PIf * vec2_x rgns * vec2_y rgns * NoH2 * NoH2))"

definition evalGGXDistribution_iso :: "vec3 \<Rightarrow> vec3 \<Rightarrow> real \<Rightarrow> real" where
  "evalGGXDistribution_iso N H roughness =
     (let a2 = roughness * roughness;
          NoH = saturate (dot3 N H);
          D_denom = (NoH * a2 - NoH) * NoH + 1;
          D_denom = M_PIf * D_denom * D_denom
      in a2 / D_denom)"

definition evalGGXDistribution_aniso :: "vec3 \<Rightarrow> vec2 \<Rightarrow> real" where
  "evalGGXDistribution_aniso H rgns =
     (let anisoU = (if vec2_y rgns < vec2_x rgns then vec2_y rgns / vec2_x rgns else 1);
          anisoV = (if vec2_x rgns < vec2_y rgns then vec2_x rgns / vec2_y rgns else 1);
          r = min (vec2_x rgns) (vec2_y rgns);
          NoH2 = vec3_z H * vec3_z H;
          Hproj = v2 (vec3_x H) (vec3_y H);
          exponent = dot2 (div2 Hproj (v2 (anisoU * anisoU) (anisoV * anisoV))) Hproj;
          root = NoH2 * r * r + exponent
      in r * r / (M_PIf * anisoU * anisoV * root * root))"

subsection \<open>Shadowing and masking\<close>

definition effectiveVisibleRoughness :: "vec3 \<Rightarrow> vec2 \<Rightarrow> real" where
  "effectiveVisibleRoughness dir rghns =
     (let recipSinThSq = 1 / (1 - vec3_z dir * vec3_z dir);
          dirPlane = v2 (vec3_x dir) (vec3_y dir);
          cosSinPhiSq = scale2 (mul2 dirPlane dirPlane) recipSinThSq;
          res = mul2 (mul2 rghns rghns) cosSinPhiSq
      in sqrt (vec2_x res + vec2_y res))"


subsection \<open>Importance sampling\<close>

text \<open>
  The three reference parameters \<^verbatim>\<open>m\<close>, \<^verbatim>\<open>wi\<close> and \<^verbatim>\<open>pdf\<close> are a record
  that the sampling functions take as the caller left it and give back beside the
  returned weight. \<^verbatim>\<open>m.x = e\<close> writes one component and keeps the other two.
\<close>

record sample_out =
  out_m :: vec3
  out_wi :: vec3
  out_pdf :: real

definition set_x :: "vec3 \<Rightarrow> real \<Rightarrow> vec3" where
  "set_x a e = v3 e (vec3_y a) (vec3_z a)"

definition set_y :: "vec3 \<Rightarrow> real \<Rightarrow> vec3" where
  "set_y a e = v3 (vec3_x a) e (vec3_z a)"

definition set_z :: "vec3 \<Rightarrow> real \<Rightarrow> vec3" where
  "set_z a e = v3 (vec3_x a) (vec3_y a) e"

definition sampleBeckmannDistribution ::
  "vec3 \<Rightarrow> vec2 \<Rightarrow> vec2 \<Rightarrow> sample_out \<Rightarrow> real \<times> sample_out" where
  "sampleBeckmannDistribution wo roughness rSample out0 =
     (let alphaSqr = vec2_x roughness * vec2_x roughness;
          temp = 2 * M_PIf * vec2_y rSample;
          sinPhiM = sin temp;
          cosPhiM = cos temp;
          tanThetaMSqr = alphaSqr * - ln (1 - vec2_x rSample);
          cosThetaM = 1 / sqrt (1 + tanThetaMSqr);
          out1 = out0\<lparr>out_pdf := (1 - vec2_x rSample)
                   / (M_PIf * vec2_x roughness * vec2_y roughness
                      * cosThetaM * cosThetaM * cosThetaM)\<rparr>;
          out2 = (if out_pdf out1 < 1 / 10 ^ 20 then out1\<lparr>out_pdf := 0\<rparr> else out1);
          sinThetaM = sqrt (max 0 (1 - cosThetaM * cosThetaM));
          out3 = out2\<lparr>out_m := set_x (out_m out2) (sinThetaM * cosPhiM)\<rparr>;
          out4 = out3\<lparr>out_m := set_y (out_m out3) (sinThetaM * sinPhiM)\<rparr>;
          out5 = out4\<lparr>out_m := set_z (out_m out4) cosThetaM\<rparr>;
          out6 = out5\<lparr>out_wi := sub3 (neg3 wo)
                   (scale3 (2 * dot3 (neg3 wo) (out_m out5)) (out_m out5))\<rparr>
      in if vec3_z (out_wi out6) \<le> 0 \<or> out_pdf out6 \<le> 0 then (0, out6)
         else
           (let weight = evalBeckmannDistribution_aniso (out_m out6) roughness
                           * dot3 wo (out_m out6) / (out_pdf out6 * vec3_z wo);
                out7 = out6\<lparr>out_pdf := out_pdf out6
                         / (4 * dot3 (out_wi out6) (out_m out6))\<rparr>
            in (weight, out7)))"

definition sampleGGXDistribution ::
  "vec3 \<Rightarrow> vec2 \<Rightarrow> vec2 \<Rightarrow> sample_out \<Rightarrow> real \<times> sample_out" where
  "sampleGGXDistribution wo roughness rSample out0 =
     (let alphaSqr = vec2_x roughness * vec2_x roughness;
          temp = 2 * M_PIf * vec2_y rSample;
          sinPhiM = sin temp;
          cosPhiM = cos temp;
          tanThetaMSqr = alphaSqr * vec2_x rSample / (1 - vec2_x rSample);
          cosThetaM = 1 / sqrt (1 + tanThetaMSqr);
          temp = 1 + tanThetaMSqr / alphaSqr;
          out1 = out0\<lparr>out_pdf := M_1_PIf
                   / (vec2_x roughness * vec2_y roughness
                      * cosThetaM * cosThetaM * cosThetaM * temp * temp)\<rparr>;
          out2 = (if out_pdf out1 < 1 / 10 ^ 20 then out1\<lparr>out_pdf := 0\<rparr> else out1);
          sinThetaM = sqrt (max 0 (1 - cosThetaM * cosThetaM));
          out3 = out2\<lparr>out_m := set_x (out_m out2) (sinThetaM * cosPhiM)\<rparr>;
          out4 = out3\<lparr>out_m := set_y (out_m out3) (sinThetaM * sinPhiM)\<rparr>;
          out5 = out4\<lparr>out_m := set_z (out_m out4) cosThetaM\<rparr>;
          out6 = out5\<lparr>out_wi := sub3 (neg3 wo)
                   (scale3 (2 * dot3 (neg3 wo) (out_m out5)) (out_m out5))\<rparr>
      in if vec3_z (out_wi out6) \<le> 0 \<or> out_pdf out6 \<le> 0 then (0, out6)
         else
           (let weight = evalGGXDistribution_aniso (out_m out6) roughness
                           * dot3 wo (out_m out6) / (out_pdf out6 * vec3_z wo);
                out7 = out6\<lparr>out_pdf := out_pdf out6
                         / (4 * dot3 (out_wi out6) (out_m out6))\<rparr>
            in (weight, out7)))"

subsection \<open>Named parts of the functions above\<close>

text \<open>
  The properties below speak of quantities that the source computes in the middle of a
  function body. Each is named here by the expression the source assigns; the lemmas
  of the next section show that the functions above compute exactly these.
\<close>

definition effectiveVisibleRoughness_divisor :: "vec3 \<Rightarrow> real" where
  \<comment> \<open>the divisor of \<^verbatim>\<open>recipSinThSq\<close>\<close>
  "effectiveVisibleRoughness_divisor dir = 1 - vec3_z dir * vec3_z dir"

definition beckmannCosThetaM :: "vec2 \<Rightarrow> vec2 \<Rightarrow> real" where
  \<comment> \<open>\<^verbatim>\<open>cosThetaM\<close> of \<^verbatim>\<open>sampleBeckmannDistribution\<close>\<close>
  "beckmannCosThetaM roughness rSample =
     1 / sqrt (1 + vec2_x roughness * vec2_x roughness * - ln (1 - vec2_x rSample))"

definition ggxCosThetaM :: "vec2 \<Rightarrow> vec2 \<Rightarrow> real" where
  \<comment> \<open>\<^verbatim>\<open>cosThetaM\<close> of \<^verbatim>\<open>sampleGGXDistribution\<close>\<close>
  "ggxCosThetaM roughness rSample =
     1 / sqrt (1 + vec2_x roughness * vec2_x roughness * vec2_x rSample
                     / (1 - vec2_x rSample))"

definition beckmannPdfH :: "vec2 \<Rightarrow> vec2 \<Rightarrow> real" where
  \<comment> \<open>the density over half-vectors that \<^verbatim>\<open>sampleBeckmannDistribution\<close> first
      assigns to \<^verbatim>\<open>pdf\<close>\<close>
  "beckmannPdfH roughness rSample =
     (let cosThetaM = beckmannCosThetaM roughness rSample
      in (1 - vec2_x rSample)
         / (M_PIf * vec2_x roughness * vec2_y roughness
            * cosThetaM * cosThetaM * cosThetaM))"

definition ggxPdfH :: "vec2 \<Rightarrow> vec2 \<Rightarrow> real" where
  \<comment> \<open>the density over half-vectors that \<^verbatim>\<open>sampleGGXDistribution\<close> first assigns
      to \<^verbatim>\<open>pdf\<close>\<close>
  "ggxPdfH roughness rSample =
     (let alphaSqr = vec2_x roughness * vec2_x roughness;
          tanThetaMSqr = alphaSqr * vec2_x rSample / (1 - vec2_x rSample);
          cosThetaM = ggxCosThetaM roughness rSample;
          temp = 1 + tanThetaMSqr / alphaSqr
      in M_1_PIf
         / (vec2_x roughness * vec2_y roughness
            * cosThetaM * cosThetaM * cosThetaM * temp * temp))"

definition sanityCheckPdf :: "real \<Rightarrow> real" where
  \<comment> \<open>\<^verbatim>\<open>if (pdf < 1e-20f) pdf = 0.f;\<close>\<close>
  "sanityCheckPdf p = (if p < 1 / 10 ^ 20 then 0 else p)"

definition microfacetNormal :: "real \<Rightarrow> vec2 \<Rightarrow> vec3" where
  \<comment> \<open>the three components written to \<^verbatim>\<open>m\<close>, from \<^verbatim>\<open>cosThetaM\<close> and the sample\<close>
  "microfacetNormal cosThetaM rSample =
     (let temp = 2 * M_PIf * vec2_y rSample;
          sinThetaM = sqrt (max 0 (1 - cosThetaM * cosThetaM))
      in v3 (sinThetaM * cos temp) (sinThetaM * sin temp) cosThetaM)"

definition reflectAbout :: "vec3 \<Rightarrow> vec3 \<Rightarrow> vec3" where
  \<comment> \<open>\<^verbatim>\<open>-wo - 2.f * dot(-wo, m) * m\<close>\<close>
  "reflectAbout wo m = sub3 (neg3 wo) (scale3 (2 * dot3 (neg3 wo) m) m)"

section \<open>The binary32 reading\<close>

subsection \<open>Rounding to nearest, ties to even\<close>

text \<open>
  \<open>rnd32 x\<close> is the binary32 number nearest to the real \<open>x\<close>, before the test for
  overflow: the exponent is bounded below by \<open>-126\<close> (so that small numbers round on the
  subnormal grid of spacing \<open>2^(-149)\<close>) and not above. \<open>binade x\<close> is the exponent of the
  binade of \<open>x > 0\<close>, the spacing of the grid there is \<open>2^(binade x - 23)\<close>, and
  \<open>round_even\<close> rounds the quotient to the nearest integer, a tie to the even one.
\<close>

definition round_even :: "real \<Rightarrow> int" where
  "round_even y =
     (let f = \<lfloor>y\<rfloor>
      in if y - of_int f < 1 / 2 then f
         else if 1 / 2 < y - of_int f then f + 1
         else if even f then f else f + 1)"

definition binade :: "real \<Rightarrow> int" where
  "binade x = max \<lfloor>log 2 x\<rfloor> (- 126)"

definition rmag :: "real \<Rightarrow> real" where
  "rmag x = (let u = 2 powi (binade x - 23) in of_int (round_even (x / u)) * u)"

definition rnd32 :: "real \<Rightarrow> real" where
  "rnd32 x = (if x = 0 then 0 else if x < 0 then - rmag (- x) else rmag x)"

subsection \<open>Binary32 values and the arithmetic on them\<close>

text \<open>
  A binary32 value is a finite number (\<open>Fin x\<close>, with \<open>Fin 0\<close> the positive zero), the
  negative zero, an infinity or NaN. An argument \<open>Fin x\<close> need not be on the binary32 grid;
  every result of an operation is, being rounded. \<open>mk neg x\<close> is the result of an operation whose exact
  value is \<open>x\<close>: \<open>x\<close> is rounded, a rounded magnitude of \<open>2^128\<close> or more overflows to the
  infinity of its sign, and a zero result takes the sign \<open>neg\<close> that IEEE 754 gives it.
  \<open>FLT_MAX\<close> is the largest finite binary32 number. Every operation of the source is one
  rounding: no product and sum are contracted into a fused multiply-add. The comparisons
  are false on NaN; \<^verbatim>\<open>max(x, y)\<close> is \<^verbatim>\<open>x < y ? y : x\<close> and
  \<^verbatim>\<open>min(x, y)\<close> is \<^verbatim>\<open>y < x ? y : x\<close>, so that \<^verbatim>\<open>max(0.f, NaN)\<close> is \<open>0\<close>.
  \<^verbatim>\<open>sqrt\<close>, \<^verbatim>\<open>exp\<close>, \<^verbatim>\<open>log\<close>, \<^verbatim>\<open>sin\<close> and \<^verbatim>\<open>cos\<close> are read as
  correctly rounded. \<^verbatim>\<open>M_PIf\<close> and \<^verbatim>\<open>M_1_PIf\<close> are the binary32 numbers nearest
  to \<open>pi\<close> and \<open>1 / pi\<close>, and the threshold \<^verbatim>\<open>1e-20f\<close> is \<open>1547425 / 2^87\<close>.
\<close>

datatype f32 = Fin real | NZero | PInf | NInf | NaN

fun sign_bit :: "f32 \<Rightarrow> bool" where
  "sign_bit (Fin x) = (x < 0)"
| "sign_bit NZero = True"
| "sign_bit PInf = False"
| "sign_bit NInf = True"
| "sign_bit NaN = False"

fun valof :: "f32 \<Rightarrow> real" where
  "valof (Fin x) = x"
| "valof NZero = 0"
| "valof PInf = 0"
| "valof NInf = 0"
| "valof NaN = 0"

fun is_finite :: "f32 \<Rightarrow> bool" where
  "is_finite (Fin x) = True"
| "is_finite NZero = True"
| "is_finite PInf = False"
| "is_finite NInf = False"
| "is_finite NaN = False"

definition is_inf :: "f32 \<Rightarrow> bool" where
  "is_inf a = (a = PInf \<or> a = NInf)"

definition is_zero :: "f32 \<Rightarrow> bool" where
  "is_zero a = (is_finite a \<and> valof a = 0)"

definition inf_of :: "bool \<Rightarrow> f32" where
  "inf_of neg = (if neg then NInf else PInf)"

definition zero_of :: "bool \<Rightarrow> f32" where
  "zero_of neg = (if neg then NZero else Fin 0)"

definition FLT_MAX :: real where
  "FLT_MAX = (2 ^ 24 - 1) * 2 ^ 104"

definition mk :: "bool \<Rightarrow> real \<Rightarrow> f32" where
  "mk neg x =
     (let y = rnd32 x
      in if 2 ^ 128 \<le> \<bar>y\<bar> then inf_of (y < 0)
         else if y = 0 then zero_of neg
         else Fin y)"

definition fneg :: "f32 \<Rightarrow> f32" where
  "fneg a =
     (case a of
        Fin x \<Rightarrow> if x = 0 then NZero else Fin (- x)
      | NZero \<Rightarrow> Fin 0
      | PInf \<Rightarrow> NInf
      | NInf \<Rightarrow> PInf
      | NaN \<Rightarrow> NaN)"

definition fabs :: "f32 \<Rightarrow> f32" where
  "fabs a =
     (case a of
        Fin x \<Rightarrow> Fin \<bar>x\<bar>
      | NZero \<Rightarrow> Fin 0
      | PInf \<Rightarrow> PInf
      | NInf \<Rightarrow> PInf
      | NaN \<Rightarrow> NaN)"

definition fmul :: "f32 \<Rightarrow> f32 \<Rightarrow> f32" where
  "fmul a b =
     (if a = NaN \<or> b = NaN then NaN
      else if is_inf a \<or> is_inf b then
        (if is_zero a \<or> is_zero b then NaN else inf_of (sign_bit a \<noteq> sign_bit b))
      else mk (sign_bit a \<noteq> sign_bit b) (valof a * valof b))"

definition fdiv :: "f32 \<Rightarrow> f32 \<Rightarrow> f32" where
  "fdiv a b =
     (if a = NaN \<or> b = NaN then NaN
      else if is_inf a then
        (if is_inf b then NaN else inf_of (sign_bit a \<noteq> sign_bit b))
      else if is_inf b then zero_of (sign_bit a \<noteq> sign_bit b)
      else if is_zero b then
        (if is_zero a then NaN else inf_of (sign_bit a \<noteq> sign_bit b))
      else mk (sign_bit a \<noteq> sign_bit b) (valof a / valof b))"

definition fadd :: "f32 \<Rightarrow> f32 \<Rightarrow> f32" where
  "fadd a b =
     (if a = NaN \<or> b = NaN then NaN
      else if is_inf a then (if is_inf b \<and> a \<noteq> b then NaN else a)
      else if is_inf b then b
      else mk (sign_bit a \<and> sign_bit b) (valof a + valof b))"

definition fsub :: "f32 \<Rightarrow> f32 \<Rightarrow> f32" where
  "fsub a b = fadd a (fneg b)"

definition fsqrt :: "f32 \<Rightarrow> f32" where
  "fsqrt a =
     (case a of
        Fin x \<Rightarrow> if x < 0 then NaN else mk False (sqrt x)
      | NZero \<Rightarrow> NZero
      | PInf \<Rightarrow> PInf
      | NInf \<Rightarrow> NaN
      | NaN \<Rightarrow> NaN)"

definition fexp :: "f32 \<Rightarrow> f32" where
  "fexp a =
     (case a of
        Fin x \<Rightarrow> mk False (exp x)
      | NZero \<Rightarrow> Fin 1
      | PInf \<Rightarrow> PInf
      | NInf \<Rightarrow> Fin 0
      | NaN \<Rightarrow> NaN)"

definition flog :: "f32 \<Rightarrow> f32" where
  "flog a =
     (case a of
        Fin x \<Rightarrow> if x < 0 then NaN else if x = 0 then NInf else mk False (ln x)
      | NZero \<Rightarrow> NInf
      | PInf \<Rightarrow> PInf
      | NInf \<Rightarrow> NaN
      | NaN \<Rightarrow> NaN)"

definition fsin :: "f32 \<Rightarrow> f32" where
  "fsin a =
     (case a of
        Fin x \<Rightarrow> mk False (sin x)
      | NZero \<Rightarrow> NZero
      | PInf \<Rightarrow> NaN
      | NInf \<Rightarrow> NaN
      | NaN \<Rightarrow> NaN)"

definition fcos :: "f32 \<Rightarrow> f32" where
  "fcos a =
     (case a of
        Fin x \<Rightarrow> mk False (cos x)
      | NZero \<Rightarrow> Fin 1
      | PInf \<Rightarrow> NaN
      | NInf \<Rightarrow> NaN
      | NaN \<Rightarrow> NaN)"

definition flt :: "f32 \<Rightarrow> f32 \<Rightarrow> bool" where
  "flt a b =
     (a \<noteq> NaN \<and> b \<noteq> NaN
      \<and> (a = NInf \<and> b \<noteq> NInf \<or> b = PInf \<and> a \<noteq> PInf
         \<or> is_finite a \<and> is_finite b \<and> valof a < valof b))"

definition fle :: "f32 \<Rightarrow> f32 \<Rightarrow> bool" where
  "fle a b =
     (a \<noteq> NaN \<and> b \<noteq> NaN
      \<and> (a = NInf \<or> b = PInf \<or> is_finite a \<and> is_finite b \<and> valof a \<le> valof b))"

definition fmax :: "f32 \<Rightarrow> f32 \<Rightarrow> f32" where
  "fmax x y = (if flt x y then y else x)"

definition fmin :: "f32 \<Rightarrow> f32 \<Rightarrow> f32" where
  "fmin x y = (if flt y x then y else x)"

definition saturate_f32 :: "f32 \<Rightarrow> f32" where
  "saturate_f32 v = fmin (fmax v (Fin 0)) (Fin 1)"

definition M_PIf_f32 :: f32 where
  "M_PIf_f32 = Fin (13176795 / 4194304)"

definition M_1_PIf_f32 :: f32 where
  "M_1_PIf_f32 = Fin (10680707 / 33554432)"

datatype fvec2 = fv2 (fvec2_x: f32) (fvec2_y: f32)

datatype fvec3 = fv3 (fvec3_x: f32) (fvec3_y: f32) (fvec3_z: f32)

definition fdot2 :: "fvec2 \<Rightarrow> fvec2 \<Rightarrow> f32" where
  "fdot2 a b = fadd (fmul (fvec2_x a) (fvec2_x b)) (fmul (fvec2_y a) (fvec2_y b))"

definition fdot3 :: "fvec3 \<Rightarrow> fvec3 \<Rightarrow> f32" where
  "fdot3 a b =
     fadd (fadd (fmul (fvec3_x a) (fvec3_x b)) (fmul (fvec3_y a) (fvec3_y b)))
          (fmul (fvec3_z a) (fvec3_z b))"

definition fmul2 :: "fvec2 \<Rightarrow> fvec2 \<Rightarrow> fvec2" where
  "fmul2 a b = fv2 (fmul (fvec2_x a) (fvec2_x b)) (fmul (fvec2_y a) (fvec2_y b))"

definition fdiv2 :: "fvec2 \<Rightarrow> fvec2 \<Rightarrow> fvec2" where
  "fdiv2 a b = fv2 (fdiv (fvec2_x a) (fvec2_x b)) (fdiv (fvec2_y a) (fvec2_y b))"

subsection \<open>The functions of BSDFs.h over binary32\<close>

text \<open>
  The transcriptions below follow the source line by line, as those of the first reading
  do, with one binary32 operation for each operation of the source, in the source's order
  of evaluation (\<^verbatim>\<open>a * b * c\<close> is \<^verbatim>\<open>(a * b) * c\<close>).
\<close>

definition dielectricFresnelSchlick_f32 :: "f32 \<Rightarrow> f32 \<Rightarrow> f32" where
  "dielectricFresnelSchlick_f32 VdH IoR =
     (let R0 = fdiv (fsub (Fin 1) IoR) (fadd (Fin 1) IoR);
          R0 = fmul R0 R0;
          OneMinusCos = fsub (Fin 1) VdH;
          OneMinusCos2 = fmul OneMinusCos OneMinusCos
      in fadd R0 (fmul (fmul (fmul (fsub (Fin 1) R0) OneMinusCos) OneMinusCos2) OneMinusCos2))"

definition dielectricFresnel_f32 :: "f32 \<Rightarrow> f32 \<Rightarrow> f32" where
  "dielectricFresnel_f32 NdE IoR =
     (let realIoR = (if fle (Fin 0) NdE then fdiv (Fin 1) IoR else IoR);
          NdL2 = fsub (Fin 1) (fmul (fmul realIoR realIoR) (fsub (Fin 1) (fmul NdE NdE)))
      in if fle NdL2 (Fin 0) then Fin 1
         else
           (let NdL = fsqrt NdL2;
                NdE = fabs NdE;
                Rp = fdiv (fsub (fmul IoR NdL) NdE) (fadd (fmul IoR NdL) NdE);
                Rs = fdiv (fsub NdE (fmul IoR NdL)) (fadd NdE (fmul IoR NdL))
            in fmul (fadd (fmul Rp Rp) (fmul Rs Rs)) (Fin (1 / 2))))"

definition beckmannExponent_iso_f32 :: "fvec3 \<Rightarrow> fvec3 \<Rightarrow> f32 \<Rightarrow> f32" where
  "beckmannExponent_iso_f32 N H roughness =
     (let a2 = fmul roughness roughness;
          NoH = fdot3 N H;
          NoH2 = fmul NoH NoH
      in fmax (Fin 0) (fdiv (fsub (Fin 1) NoH2) (fmul a2 NoH2)))"

definition evalBeckmannDistribution_iso_f32 :: "fvec3 \<Rightarrow> fvec3 \<Rightarrow> f32 \<Rightarrow> f32" where
  "evalBeckmannDistribution_iso_f32 N H roughness =
     (let a2 = fmul roughness roughness;
          NoH = fdot3 N H;
          NoH2 = fmul NoH NoH;
          exponent = beckmannExponent_iso_f32 N H roughness
      in fdiv (fexp (fneg exponent)) (fmul (fmul (fmul M_PIf_f32 a2) NoH2) NoH2))"

definition beckmannExponent_aniso_f32 :: "fvec3 \<Rightarrow> fvec2 \<Rightarrow> f32" where
  "beckmannExponent_aniso_f32 H rgns =
     (let NoH2 = fmul (fvec3_z H) (fvec3_z H);
          Hproj = fv2 (fvec3_x H) (fvec3_y H)
      in fdiv (fdot2 (fdiv2 Hproj (fmul2 rgns rgns)) Hproj) NoH2)"

definition evalGGXDistribution_iso_f32 :: "fvec3 \<Rightarrow> fvec3 \<Rightarrow> f32 \<Rightarrow> f32" where
  "evalGGXDistribution_iso_f32 N H roughness =
     (let a2 = fmul roughness roughness;
          NoH = saturate_f32 (fdot3 N H);
          D_denom = fadd (fmul (fsub (fmul NoH a2) NoH) NoH) (Fin 1);
          D_denom = fmul (fmul M_PIf_f32 D_denom) D_denom
      in fdiv a2 D_denom)"

definition evalGGXDistribution_aniso_f32 :: "fvec3 \<Rightarrow> fvec2 \<Rightarrow> f32" where
  "evalGGXDistribution_aniso_f32 H rgns =
     (let anisoU = (if flt (fvec2_y rgns) (fvec2_x rgns)
                    then fdiv (fvec2_y rgns) (fvec2_x rgns) else Fin 1);
          anisoV = (if flt (fvec2_x rgns) (fvec2_y rgns)
                    then fdiv (fvec2_x rgns) (fvec2_y rgns) else Fin 1);
          r = fmin (fvec2_x rgns) (fvec2_y rgns);
          NoH2 = fmul (fvec3_z H) (fvec3_z H);
          Hproj = fv2 (fvec3_x H) (fvec3_y H);
          exponent = fdot2 (fdiv2 Hproj (fv2 (fmul anisoU anisoU) (fmul anisoV anisoV))) Hproj;
          root = fadd (fmul (fmul NoH2 r) r) exponent
      in fdiv (fmul r r) (fmul (fmul (fmul (fmul M_PIf_f32 anisoU) anisoV) root) root))"

definition evalBeckmannDistribution_aniso_f32 :: "fvec3 \<Rightarrow> fvec2 \<Rightarrow> f32" where
  "evalBeckmannDistribution_aniso_f32 H rgns =
     (let NoH2 = fmul (fvec3_z H) (fvec3_z H);
          exponent = beckmannExponent_aniso_f32 H rgns
      in fdiv (fexp (fneg exponent))
              (fmul (fmul (fmul (fmul M_PIf_f32 (fvec2_x rgns)) (fvec2_y rgns)) NoH2) NoH2))"

definition fneg3 :: "fvec3 \<Rightarrow> fvec3" where
  "fneg3 a = fv3 (fneg (fvec3_x a)) (fneg (fvec3_y a)) (fneg (fvec3_z a))"

definition fsub3 :: "fvec3 \<Rightarrow> fvec3 \<Rightarrow> fvec3" where
  "fsub3 a b =
     fv3 (fsub (fvec3_x a) (fvec3_x b)) (fsub (fvec3_y a) (fvec3_y b))
         (fsub (fvec3_z a) (fvec3_z b))"

definition fscale3 :: "f32 \<Rightarrow> fvec3 \<Rightarrow> fvec3" where
  "fscale3 s a = fv3 (fmul s (fvec3_x a)) (fmul s (fvec3_y a)) (fmul s (fvec3_z a))"

record fsample_out =
  fout_m :: fvec3
  fout_wi :: fvec3
  fout_pdf :: f32

definition fset_x :: "fvec3 \<Rightarrow> f32 \<Rightarrow> fvec3" where
  "fset_x a e = fv3 e (fvec3_y a) (fvec3_z a)"

definition fset_y :: "fvec3 \<Rightarrow> f32 \<Rightarrow> fvec3" where
  "fset_y a e = fv3 (fvec3_x a) e (fvec3_z a)"

definition fset_z :: "fvec3 \<Rightarrow> f32 \<Rightarrow> fvec3" where
  "fset_z a e = fv3 (fvec3_x a) (fvec3_y a) e"

definition pdf_threshold_f32 :: f32 where
  "pdf_threshold_f32 = Fin (1547425 / 2 ^ 87)"

definition sampleBeckmannDistribution_f32 ::
  "fvec3 \<Rightarrow> fvec2 \<Rightarrow> fvec2 \<Rightarrow> fsample_out \<Rightarrow> f32 \<times> fsample_out" where
  "sampleBeckmannDistribution_f32 wo roughness rSample out0 =
     (let alphaSqr = fmul (fvec2_x roughness) (fvec2_x roughness);
          temp = fmul (fmul (Fin 2) M_PIf_f32) (fvec2_y rSample);
          sinPhiM = fsin temp;
          cosPhiM = fcos temp;
          tanThetaMSqr = fmul alphaSqr (fneg (flog (fsub (Fin 1) (fvec2_x rSample))));
          cosThetaM = fdiv (Fin 1) (fsqrt (fadd (Fin 1) tanThetaMSqr));
          out1 = out0\<lparr>fout_pdf := fdiv (fsub (Fin 1) (fvec2_x rSample))
                   (fmul (fmul (fmul (fmul (fmul M_PIf_f32 (fvec2_x roughness))
                      (fvec2_y roughness)) cosThetaM) cosThetaM) cosThetaM)\<rparr>;
          out2 = (if flt (fout_pdf out1) pdf_threshold_f32
                  then out1\<lparr>fout_pdf := Fin 0\<rparr> else out1);
          sinThetaM = fsqrt (fmax (Fin 0) (fsub (Fin 1) (fmul cosThetaM cosThetaM)));
          out3 = out2\<lparr>fout_m := fset_x (fout_m out2) (fmul sinThetaM cosPhiM)\<rparr>;
          out4 = out3\<lparr>fout_m := fset_y (fout_m out3) (fmul sinThetaM sinPhiM)\<rparr>;
          out5 = out4\<lparr>fout_m := fset_z (fout_m out4) cosThetaM\<rparr>;
          out6 = out5\<lparr>fout_wi := fsub3 (fneg3 wo)
                   (fscale3 (fmul (Fin 2) (fdot3 (fneg3 wo) (fout_m out5))) (fout_m out5))\<rparr>
      in if fle (fvec3_z (fout_wi out6)) (Fin 0) \<or> fle (fout_pdf out6) (Fin 0)
         then (Fin 0, out6)
         else
           (let weight = fdiv (fmul (evalBeckmannDistribution_aniso_f32 (fout_m out6) roughness)
                                    (fdot3 wo (fout_m out6)))
                              (fmul (fout_pdf out6) (fvec3_z wo));
                out7 = out6\<lparr>fout_pdf := fdiv (fout_pdf out6)
                         (fmul (Fin 4) (fdot3 (fout_wi out6) (fout_m out6)))\<rparr>
            in (weight, out7)))"

definition sampleGGXDistribution_f32 ::
  "fvec3 \<Rightarrow> fvec2 \<Rightarrow> fvec2 \<Rightarrow> fsample_out \<Rightarrow> f32 \<times> fsample_out" where
  "sampleGGXDistribution_f32 wo roughness rSample out0 =
     (let alphaSqr = fmul (fvec2_x roughness) (fvec2_x roughness);
          temp = fmul (fmul (Fin 2) M_PIf_f32) (fvec2_y rSample);
          sinPhiM = fsin temp;
          cosPhiM = fcos temp;
          tanThetaMSqr = fdiv (fmul alphaSqr (fvec2_x rSample)) (fsub (Fin 1) (fvec2_x rSample));
          cosThetaM = fdiv (Fin 1) (fsqrt (fadd (Fin 1) tanThetaMSqr));
          temp = fadd (Fin 1) (fdiv tanThetaMSqr alphaSqr);
          out1 = out0\<lparr>fout_pdf := fdiv M_1_PIf_f32
                   (fmul (fmul (fmul (fmul (fmul (fmul (fvec2_x roughness) (fvec2_y roughness))
                      cosThetaM) cosThetaM) cosThetaM) temp) temp)\<rparr>;
          out2 = (if flt (fout_pdf out1) pdf_threshold_f32
                  then out1\<lparr>fout_pdf := Fin 0\<rparr> else out1);
          sinThetaM = fsqrt (fmax (Fin 0) (fsub (Fin 1) (fmul cosThetaM cosThetaM)));
          out3 = out2\<lparr>fout_m := fset_x (fout_m out2) (fmul sinThetaM cosPhiM)\<rparr>;
          out4 = out3\<lparr>fout_m := fset_y (fout_m out3) (fmul sinThetaM sinPhiM)\<rparr>;
          out5 = out4\<lparr>fout_m := fset_z (fout_m out4) cosThetaM\<rparr>;
          out6 = out5\<lparr>fout_wi := fsub3 (fneg3 wo)
                   (fscale3 (fmul (Fin 2) (fdot3 (fneg3 wo) (fout_m out5))) (fout_m out5))\<rparr>
      in if fle (fvec3_z (fout_wi out6)) (Fin 0) \<or> fle (fout_pdf out6) (Fin 0)
         then (Fin 0, out6)
         else
           (let weight = fdiv (fmul (evalGGXDistribution_aniso_f32 (fout_m out6) roughness)
                                    (fdot3 wo (fout_m out6)))
                              (fmul (fout_pdf out6) (fvec3_z wo));
                out7 = out6\<lparr>fout_pdf := fdiv (fout_pdf out6)
                         (fmul (Fin 4) (fdot3 (fout_wi out6) (fout_m out6)))\<rparr>
            in (weight, out7)))"

definition beckmannCosThetaM_f32 :: "fvec2 \<Rightarrow> fvec2 \<Rightarrow> f32" where
  "beckmannCosThetaM_f32 roughness rSample =
     fdiv (Fin 1) (fsqrt (fadd (Fin 1)
       (fmul (fmul (fvec2_x roughness) (fvec2_x roughness))
             (fneg (flog (fsub (Fin 1) (fvec2_x rSample)))))))"

definition ggxCosThetaM_f32 :: "fvec2 \<Rightarrow> fvec2 \<Rightarrow> f32" where
  "ggxCosThetaM_f32 roughness rSample =
     fdiv (Fin 1) (fsqrt (fadd (Fin 1)
       (fdiv (fmul (fmul (fvec2_x roughness) (fvec2_x roughness)) (fvec2_x rSample))
             (fsub (Fin 1) (fvec2_x rSample)))))"

definition microfacetNormal_f32 :: "f32 \<Rightarrow> fvec2 \<Rightarrow> fvec3" where
  "microfacetNormal_f32 cosThetaM rSample =
     (let temp = fmul (fmul (Fin 2) M_PIf_f32) (fvec2_y rSample);
          sinThetaM = fsqrt (fmax (Fin 0) (fsub (Fin 1) (fmul cosThetaM cosThetaM)))
      in fv3 (fmul sinThetaM (fcos temp)) (fmul sinThetaM (fsin temp)) cosThetaM)"

definition beckmannPdfH_f32 :: "fvec2 \<Rightarrow> fvec2 \<Rightarrow> f32" where
  "beckmannPdfH_f32 roughness rSample =
     (let cosThetaM = beckmannCosThetaM_f32 roughness rSample
      in fdiv (fsub (Fin 1) (fvec2_x rSample))
           (fmul (fmul (fmul (fmul (fmul M_PIf_f32 (fvec2_x roughness))
              (fvec2_y roughness)) cosThetaM) cosThetaM) cosThetaM))"

definition ggxPdfH_f32 :: "fvec2 \<Rightarrow> fvec2 \<Rightarrow> f32" where
  "ggxPdfH_f32 roughness rSample =
     (let alphaSqr = fmul (fvec2_x roughness) (fvec2_x roughness);
          tanThetaMSqr = fdiv (fmul alphaSqr (fvec2_x rSample)) (fsub (Fin 1) (fvec2_x rSample));
          cosThetaM = ggxCosThetaM_f32 roughness rSample;
          temp = fadd (Fin 1) (fdiv tanThetaMSqr alphaSqr)
      in fdiv M_1_PIf_f32
           (fmul (fmul (fmul (fmul (fmul (fmul (fvec2_x roughness) (fvec2_y roughness))
              cosThetaM) cosThetaM) cosThetaM) temp) temp))"

definition sanityCheckPdf_f32 :: "f32 \<Rightarrow> f32" where
  "sanityCheckPdf_f32 p = (if flt p pdf_threshold_f32 then Fin 0 else p)"

definition reflectAbout_f32 :: "fvec3 \<Rightarrow> fvec3 \<Rightarrow> fvec3" where
  "reflectAbout_f32 wo m = fsub3 (fneg3 wo) (fscale3 (fmul (Fin 2) (fdot3 (fneg3 wo) m)) m)"

section \<open>The functions compute their named parts\<close>

lemma sampleBeckmannDistribution_parts:
  "sampleBeckmannDistribution wo roughness rSample out0 =
     (let p = sanityCheckPdf (beckmannPdfH roughness rSample);
          m = microfacetNormal (beckmannCosThetaM roughness rSample) rSample;
          wi = reflectAbout wo m
      in if vec3_z wi \<le> 0 \<or> p \<le> 0
         then (0, \<lparr>out_m = m, out_wi = wi, out_pdf = p\<rparr>)
         else (evalBeckmannDistribution_aniso m roughness * dot3 wo m / (p * vec3_z wo),
               \<lparr>out_m = m, out_wi = wi, out_pdf = p / (4 * dot3 wi m)\<rparr>))"
proof (cases out0)
  case (fields m0 wi0 pdf0)
  have unfolded: ?thesis
    if "((1 - vec2_x rSample) / (M_PIf * vec2_x roughness * vec2_y roughness
            * beckmannCosThetaM roughness rSample * beckmannCosThetaM roughness rSample
            * beckmannCosThetaM roughness rSample) < 1 / 10 ^ 20) = b" for b
    using that
    unfolding sampleBeckmannDistribution_def sanityCheckPdf_def beckmannPdfH_def
      microfacetNormal_def reflectAbout_def Let_def set_x_def set_y_def set_z_def fields
      beckmannCosThetaM_def [symmetric]
    by (cases b) (simp_all only: if_True if_False sample_out.simps vec3.sel simp_thms)
  show ?thesis by (rule unfolded) (rule refl)
qed

lemma sampleGGXDistribution_parts:
  "sampleGGXDistribution wo roughness rSample out0 =
     (let p = sanityCheckPdf (ggxPdfH roughness rSample);
          m = microfacetNormal (ggxCosThetaM roughness rSample) rSample;
          wi = reflectAbout wo m
      in if vec3_z wi \<le> 0 \<or> p \<le> 0
         then (0, \<lparr>out_m = m, out_wi = wi, out_pdf = p\<rparr>)
         else (evalGGXDistribution_aniso m roughness * dot3 wo m / (p * vec3_z wo),
               \<lparr>out_m = m, out_wi = wi, out_pdf = p / (4 * dot3 wi m)\<rparr>))"
proof (cases out0)
  case (fields m0 wi0 pdf0)
  have unfolded: ?thesis
    if "(M_1_PIf / (vec2_x roughness * vec2_y roughness
            * ggxCosThetaM roughness rSample * ggxCosThetaM roughness rSample
            * ggxCosThetaM roughness rSample
            * (1 + vec2_x roughness * vec2_x roughness * vec2_x rSample / (1 - vec2_x rSample)
                   / (vec2_x roughness * vec2_x roughness))
            * (1 + vec2_x roughness * vec2_x roughness * vec2_x rSample / (1 - vec2_x rSample)
                   / (vec2_x roughness * vec2_x roughness))) < 1 / 10 ^ 20) = b" for b
    using that
    unfolding sampleGGXDistribution_def sanityCheckPdf_def ggxPdfH_def
      microfacetNormal_def reflectAbout_def Let_def set_x_def set_y_def set_z_def fields
      ggxCosThetaM_def [symmetric]
    by (cases b) (simp_all only: if_True if_False sample_out.simps vec3.sel simp_thms)
  show ?thesis by (rule unfolded) (rule refl)
qed

section \<open>Facts about the named parts\<close>










lemma sanityCheckPdf_keeps: "1 / 10 ^ 20 \<le> p \<Longrightarrow> sanityCheckPdf p = p"
  by (simp add: sanityCheckPdf_def)

lemma microfacetNormal_z: "vec3_z (microfacetNormal c s) = c"
  by (simp add: microfacetNormal_def Let_def)

lemma microfacetNormal_unit:
  assumes "0 \<le> c" and "c \<le> 1"
  shows "dot3 (microfacetNormal c s) (microfacetNormal c s) = 1"
proof -
  define t where "t = 2 * M_PIf * vec2_y s"
  define sn where "sn = sqrt (max 0 (1 - c * c))"
  have "c * c \<le> 1" using assms by (simp add: mult_le_one)
  then have sq: "sn * sn = 1 - c * c" by (simp add: sn_def max_def)
  have "dot3 (microfacetNormal c s) (microfacetNormal c s)
      = (sn * sn) * (cos t * cos t + sin t * sin t) + c * c"
    unfolding microfacetNormal_def Let_def dot3_def vec3.sel t_def [symmetric] sn_def [symmetric]
    by (simp only: distrib_left mult.assoc mult.left_commute [of "cos t" sn] mult.left_commute [of "sin t" sn])
  also have "cos t * cos t + sin t * sin t = 1"
    using sin_cos_squared_add2 [of t] by (simp add: power2_eq_square)
  finally show ?thesis using sq by simp
qed

lemma cosThetaM_range:
  assumes "0 \<le> tanThetaMSqr"
  shows "0 < 1 / sqrt (1 + tanThetaMSqr)" and "1 / sqrt (1 + tanThetaMSqr) \<le> 1"
proof -
  have "1 \<le> sqrt (1 + tanThetaMSqr)" using assms by simp
  then show "0 < 1 / sqrt (1 + tanThetaMSqr)" and "1 / sqrt (1 + tanThetaMSqr) \<le> 1"
    by simp_all
qed

lemma beckmannCosThetaM_range:
  assumes "0 \<le> vec2_x s" and "vec2_x s < 1"
  shows "0 < beckmannCosThetaM r s" and "beckmannCosThetaM r s \<le> 1"
proof -
  have "ln (1 - vec2_x s) \<le> 0" using assms by simp
  then have "0 \<le> vec2_x r * vec2_x r * - ln (1 - vec2_x s)"
    by (simp add: mult_nonneg_nonpos)
  then show "0 < beckmannCosThetaM r s" and "beckmannCosThetaM r s \<le> 1"
    unfolding beckmannCosThetaM_def by (rule cosThetaM_range)+
qed

lemma ggxCosThetaM_range:
  assumes "0 \<le> vec2_x s" and "vec2_x s < 1"
  shows "0 < ggxCosThetaM r s" and "ggxCosThetaM r s \<le> 1"
proof -
  have "0 \<le> vec2_x r * vec2_x r * vec2_x s / (1 - vec2_x s)"
    using assms by simp
  then show "0 < ggxCosThetaM r s" and "ggxCosThetaM r s \<le> 1"
    unfolding ggxCosThetaM_def by (rule cosThetaM_range)+
qed

lemma beckmannExponent_aniso_nonneg: "0 \<le> beckmannExponent_aniso H rgns"
  by (simp add: beckmannExponent_aniso_def Let_def dot2_def div2_def mul2_def)

subsection \<open>Values at concrete samples\<close>















lemma cosThetaM_square:
  assumes "0 \<le> tanThetaMSqr"
  shows "1 / sqrt (1 + tanThetaMSqr) * (1 / sqrt (1 + tanThetaMSqr)) = 1 / (1 + tanThetaMSqr)"
  using assms by simp

lemma microfacetNormal_phi0:
  "microfacetNormal c (v2 u 0) = v3 (sqrt (max 0 (1 - c * c))) 0 c"
  by (simp add: microfacetNormal_def)

lemma reflectAbout_from_above:
  "reflectAbout (v3 0 0 1) (v3 a 0 c) = v3 (2 * c * a) 0 (2 * c * c - 1)"
  by (simp add: reflectAbout_def neg3_def sub3_def scale3_def dot3_def)

lemma pdf_over_cube_keeps:
  assumes "0 < c" and "c \<le> 1" and "1 \<le> k"
  shows "sanityCheckPdf (k / (pi * (c * c * c))) = k / (pi * (c * c * c))"
    and "0 < k / (pi * (c * c * c))"
proof -
  have cc: "c * c \<le> 1" using assms by (simp add: mult_le_one)
  have "c * (c * c) \<le> 1" using assms cc by (intro mult_le_one) simp_all
  then have ccc: "c * c * c \<le> 1" by (simp only: mult.assoc)
  have pos: "0 < pi * (c * c * c)" using assms by simp
  have "pi * (c * c * c) \<le> 4 * 1"
    using ccc pi_less_4 assms(1) by (intro mult_mono) simp_all
  then have "k / (4 * 1) \<le> k / (pi * (c * c * c))"
    using pos assms(3) by (intro divide_left_mono) simp_all
  moreover have "1 / 10 ^ 20 \<le> k / (4 * 1)" using assms(3) by simp
  ultimately have "1 / 10 ^ 20 \<le> k / (pi * (c * c * c))" by (rule order_trans [rotated])
  then show "sanityCheckPdf (k / (pi * (c * c * c))) = k / (pi * (c * c * c))"
    by (rule sanityCheckPdf_keeps)
  show "0 < k / (pi * (c * c * c))" using pos assms(3) by simp
qed

lemma sampled_from_above:
  fixes c u :: real
  assumes c: "0 < c" "c \<le> 1"
  shows "vec3_z (reflectAbout (v3 0 0 1) (microfacetNormal c (v2 u 0))) = 2 * (c * c) - 1"
    and "dot3 (reflectAbout (v3 0 0 1) (microfacetNormal c (v2 u 0)))
              (microfacetNormal c (v2 u 0)) = c"
    and "dot3 (v3 0 0 1) (microfacetNormal c (v2 u 0)) = c"
proof -
  define sn where "sn = sqrt (max 0 (1 - c * c))"
  have "c * c \<le> 1" using c by (simp add: mult_le_one)
  then have sq: "sn * sn = 1 - c * c" by (simp add: sn_def max_def)
  have m: "microfacetNormal c (v2 u 0) = v3 sn 0 c"
    by (simp add: microfacetNormal_phi0 sn_def)
  show "vec3_z (reflectAbout (v3 0 0 1) (microfacetNormal c (v2 u 0))) = 2 * (c * c) - 1"
    by (simp add: m reflectAbout_from_above)
  have "dot3 (reflectAbout (v3 0 0 1) (v3 sn 0 c)) (v3 sn 0 c)
      = 2 * c * (sn * sn) + (2 * c * c - 1) * c"
    by (simp add: reflectAbout_from_above dot3_def)
  also have "\<dots> = c" unfolding sq by (simp add: algebra_simps)
  finally show "dot3 (reflectAbout (v3 0 0 1) (microfacetNormal c (v2 u 0)))
              (microfacetNormal c (v2 u 0)) = c"
    by (simp only: m)
  show "dot3 (v3 0 0 1) (microfacetNormal c (v2 u 0)) = c" by (simp add: m dot3_def)
qed

lemma beckmann_scenario_cos:
  "beckmannCosThetaM (v2 (1 / 2) (1 / 2)) (v2 (1 / 2) 0)
     * beckmannCosThetaM (v2 (1 / 2) (1 / 2)) (v2 (1 / 2) 0) = 4 / (4 + ln 2)"
proof -
  have l: "ln (1 - 1 / 2 :: real) = - ln 2"
    using ln_inverse [of "2::real"] by (simp add: inverse_eq_divide)
  have t: "(1 / 2) * (1 / 2) * - ln (1 - 1 / 2 :: real) = ln 2 / 4"
    unfolding l by simp
  have pos: "(0::real) \<le> ln 2 / 4" by simp
  have "beckmannCosThetaM (v2 (1 / 2) (1 / 2)) (v2 (1 / 2) 0)
     * beckmannCosThetaM (v2 (1 / 2) (1 / 2)) (v2 (1 / 2) 0) = 1 / (1 + ln 2 / 4)"
    unfolding beckmannCosThetaM_def vec2.sel t by (rule cosThetaM_square [OF pos])
  also have "\<dots> = 4 / (4 + ln 2)" by (simp add: field_simps)
  finally show ?thesis .
qed

lemma ggx_scenario_cos:
  "ggxCosThetaM (v2 (1 / 2) (1 / 2)) (v2 (1 / 2) 0)
     * ggxCosThetaM (v2 (1 / 2) (1 / 2)) (v2 (1 / 2) 0) = 4 / 5"
proof -
  have t: "(1 / 2) * (1 / 2) * (1 / 2) / (1 - 1 / 2) = (1 / 4 :: real)" by simp
  have pos: "(0::real) \<le> 1 / 4" by simp
  have "ggxCosThetaM (v2 (1 / 2) (1 / 2)) (v2 (1 / 2) 0)
     * ggxCosThetaM (v2 (1 / 2) (1 / 2)) (v2 (1 / 2) 0) = 1 / (1 + 1 / 4)"
    unfolding ggxCosThetaM_def vec2.sel t by (rule cosThetaM_square [OF pos])
  then show ?thesis by simp
qed

lemma ln2_bounds: "0 < ln (2::real)" "ln (2::real) < 2"
proof -
  show "0 < ln (2::real)" by simp
  show "ln (2::real) < 2" by (rule ln_less_self) simp
qed

section \<open>Facts about the binary32 reading\<close>

subsection \<open>Rounding to the nearest integer and the binade\<close>

lemma round_even_near:
  assumes "\<bar>y - of_int n\<bar> < 1 / 2"
  shows "round_even y = n"
proof (cases "of_int n \<le> y")
  case True
  then have f: "\<lfloor>y\<rfloor> = n" using assms by (intro floor_unique) (simp_all add: abs_less_iff)
  show ?thesis using assms True by (simp add: round_even_def f Let_def abs_less_iff)
next
  case False
  then have f: "\<lfloor>y\<rfloor> = n - 1" using assms by (intro floor_unique) (simp_all add: abs_less_iff)
  show ?thesis using assms False by (simp add: round_even_def f Let_def abs_less_iff)
qed

lemma round_even_of_int [simp]: "round_even (of_int n) = n"
  by (rule round_even_near) simp

lemma round_even_cases:
  "round_even y = \<lfloor>y\<rfloor> \<and> y - of_int \<lfloor>y\<rfloor> \<le> 1 / 2
   \<or> round_even y = \<lfloor>y\<rfloor> + 1 \<and> 1 / 2 \<le> y - of_int \<lfloor>y\<rfloor>"
  by (simp add: round_even_def Let_def not_less)

lemma round_even_bounds:
  "of_int (round_even y) \<le> y + 1 / 2" "y - 1 / 2 \<le> of_int (round_even y)"
proof -
  have fl: "of_int \<lfloor>y\<rfloor> \<le> y" "y < of_int \<lfloor>y\<rfloor> + 1" by linarith+
  consider "round_even y = \<lfloor>y\<rfloor>" "y - of_int \<lfloor>y\<rfloor> \<le> 1 / 2"
    | "round_even y = \<lfloor>y\<rfloor> + 1" "1 / 2 \<le> y - of_int \<lfloor>y\<rfloor>"
    using round_even_cases [of y] by blast
  then have "of_int (round_even y) \<le> y + 1 / 2 \<and> y - 1 / 2 \<le> of_int (round_even y)"
  proof cases
    case 1
    have "of_int \<lfloor>y\<rfloor> \<le> y + 1 / 2 \<and> y - 1 / 2 \<le> of_int \<lfloor>y\<rfloor>"
      using fl 1(2) by linarith
    then show ?thesis by (simp only: 1(1))
  next
    case 2
    have "of_int (\<lfloor>y\<rfloor> + 1) \<le> y + 1 / 2 \<and> y - 1 / 2 \<le> of_int (\<lfloor>y\<rfloor> + 1)"
      using fl 2(2) by (simp only: of_int_add of_int_1) linarith
    then show ?thesis by (simp only: 2(1))
  qed
  then show "of_int (round_even y) \<le> y + 1 / 2" "y - 1 / 2 \<le> of_int (round_even y)"
    by blast+
qed

lemma round_even_ge: "of_int n \<le> y \<Longrightarrow> n \<le> round_even y"
proof -
  assume "of_int n \<le> y"
  then have "n \<le> \<lfloor>y\<rfloor>" by (simp add: le_floor_iff)
  moreover have "\<lfloor>y\<rfloor> \<le> round_even y" by (simp add: round_even_def Let_def)
  ultimately show ?thesis by simp
qed

lemma round_even_le: "y \<le> of_int n \<Longrightarrow> round_even y \<le> n"
proof (cases "y = of_int n")
  case True
  then show ?thesis by simp
next
  case False
  assume "y \<le> of_int n"
  then have "y < of_int n" using False by simp
  then have "\<lfloor>y\<rfloor> < n" by (simp add: floor_less_iff)
  moreover have "round_even y \<le> \<lfloor>y\<rfloor> + 1" by (simp add: round_even_def Let_def)
  ultimately show ?thesis by simp
qed

lemma round_even_mono:
  assumes "x \<le> y"
  shows "round_even x \<le> round_even y"
proof (cases "\<lfloor>x\<rfloor> = \<lfloor>y\<rfloor>")
  case True
  have "x - of_int \<lfloor>y\<rfloor> \<le> y - of_int \<lfloor>y\<rfloor>" using assms by simp
  then show ?thesis unfolding round_even_def Let_def True by auto
next
  case False
  then have "\<lfloor>x\<rfloor> < \<lfloor>y\<rfloor>" using floor_mono [OF assms] by simp
  then have "\<lfloor>x\<rfloor> + 1 \<le> \<lfloor>y\<rfloor>" by simp
  moreover have "round_even x \<le> \<lfloor>x\<rfloor> + 1" by (simp add: round_even_def Let_def)
  moreover have "\<lfloor>y\<rfloor> \<le> round_even y" by (simp add: round_even_def Let_def)
  ultimately show ?thesis by linarith
qed

lemma floor_log2_eqI:
  assumes "2 powi e \<le> x" and "x < 2 powi (e + 1)"
  shows "\<lfloor>log 2 x\<rfloor> = e"
proof -
  have pos: "0 < x" using assms(1) by (rule less_le_trans [rotated]) simp
  have lo: "2 powr real_of_int e \<le> x"
    using assms(1) by (simp add: powr_real_of_int')
  have "x < 2 powr real_of_int (e + 1)"
    using assms(2) by (subst powr_real_of_int') simp_all
  then have hi: "x < 2 powr (real_of_int e + 1)" by simp
  show ?thesis using pos lo hi by (subst floor_log_eq_powr_iff) simp_all
qed

lemma floor_log2_less:
  assumes "0 < x" and "x < 2 powi e"
  shows "\<lfloor>log 2 x\<rfloor> < e"
proof -
  have "x < 2 powr real_of_int e" using assms(2) by (simp add: powr_real_of_int')
  then have "log 2 x < real_of_int e" using assms(1) by (simp add: log_less_iff)
  then show ?thesis by (simp add: floor_less_iff)
qed

lemma binade_normal:
  assumes "2 powi e \<le> x" and "x < 2 powi (e + 1)" and "- 126 \<le> e"
  shows "binade x = e"
  using floor_log2_eqI [OF assms(1,2)] assms(3) by (simp add: binade_def)

lemma binade_subnormal:
  assumes "0 < x" and "x < 2 powi (- 126)"
  shows "binade x = - 126"
  using floor_log2_less [OF assms] by (simp add: binade_def)

lemma round_even_between:
  assumes "0 < u" and "(of_int n - 1 / 2) * u < x" and "x < (of_int n + 1 / 2) * u"
  shows "round_even (x / u) = n"
proof (rule round_even_near)
  have "of_int n - 1 / 2 < x / u" "x / u < of_int n + 1 / 2"
    using assms by (simp_all add: pos_less_divide_eq pos_divide_less_eq)
  then show "\<bar>x / u - of_int n\<bar> < 1 / 2" by linarith
qed

lemma rmag_normal:
  assumes "2 powi e \<le> x" and "x < 2 powi (e + 1)" and "- 126 \<le> e"
    and "(of_int n - 1 / 2) * 2 powi (e - 23) < x"
    and "x < (of_int n + 1 / 2) * 2 powi (e - 23)"
  shows "rmag x = of_int n * 2 powi (e - 23)"
proof -
  have "round_even (x / 2 powi (e - 23)) = n"
    using assms(4,5) by (intro round_even_between) simp_all
  then show ?thesis
    unfolding rmag_def binade_normal [OF assms(1-3)] Let_def by simp
qed

lemma rmag_subnormal:
  assumes "0 < x" and "x < 2 powi (- 126)"
    and "(of_int n - 1 / 2) * 2 powi (- 149) < x"
    and "x < (of_int n + 1 / 2) * 2 powi (- 149)"
  shows "rmag x = of_int n * 2 powi (- 149)"
proof -
  have "round_even (x / 2 powi (- 149)) = n"
    using assms(3,4) by (intro round_even_between) simp_all
  then show ?thesis
    unfolding rmag_def binade_subnormal [OF assms(1,2)] Let_def by simp
qed

subsection \<open>Rounding inside one binade\<close>

lemma rnd32_zero [simp]: "rnd32 0 = 0"
  by (simp add: rnd32_def)

lemma round_even_tie: "even n \<Longrightarrow> round_even (of_int n + 1 / 2) = n"
proof -
  assume "even n"
  moreover have "\<lfloor>real_of_int n + 1 / 2\<rfloor> = n" by (rule floor_unique) simp_all
  ultimately show ?thesis by (simp add: round_even_def Let_def)
qed

lemma rmag_binade:
  assumes "2 powi e \<le> x" and "x < 2 powi (e + 1)" and "- 126 \<le> e"
  shows "rmag x = of_int (round_even (x / 2 powi (e - 23))) * 2 powi (e - 23)"
  unfolding rmag_def binade_normal [OF assms] Let_def ..

lemma rnd32_pos: "0 < x \<Longrightarrow> rnd32 x = rmag x"
  by (simp add: rnd32_def)

lemma rnd32_neg: "0 < x \<Longrightarrow> rnd32 (- x) = - rmag x"
  by (simp add: rnd32_def)

lemma rnd32_normal:
  assumes "2 powi e \<le> x" and "x < 2 powi (e + 1)" and "- 126 \<le> e"
    and "(of_int n - 1 / 2) * 2 powi (e - 23) < x"
    and "x < (of_int n + 1 / 2) * 2 powi (e - 23)"
  shows "rnd32 x = of_int n * 2 powi (e - 23)" and "rnd32 (- x) = - (of_int n * 2 powi (e - 23))"
proof -
  have pos: "0 < x" using assms(1) by (rule less_le_trans [rotated]) simp
  show "rnd32 x = of_int n * 2 powi (e - 23)" "rnd32 (- x) = - (of_int n * 2 powi (e - 23))"
    using pos by (simp_all add: rnd32_def rmag_normal [OF assms])
qed

lemma rnd32_normal_tie:
  assumes "2 powi e \<le> x" and "x < 2 powi (e + 1)" and "- 126 \<le> e"
    and "x = (of_int n + 1 / 2) * 2 powi (e - 23)" and "even n"
  shows "rnd32 x = of_int n * 2 powi (e - 23)"
proof -
  have pos: "0 < x" using assms(1) by (rule less_le_trans [rotated]) simp
  have "x / 2 powi (e - 23) = of_int n + 1 / 2" using assms(4) by simp
  then show ?thesis
    using pos assms(5) by (simp add: rnd32_def rmag_binade [OF assms(1-3)] round_even_tie)
qed

lemma mk_Fin: "rnd32 x = y \<Longrightarrow> y \<noteq> 0 \<Longrightarrow> \<bar>y\<bar> < 2 ^ 128 \<Longrightarrow> mk neg x = Fin y"
  by (simp add: mk_def Let_def)

lemma mk_zero [simp]: "mk neg 0 = zero_of neg"
  by (simp add: mk_def)

lemma fmul_Fin: "fmul (Fin a) (Fin b) = mk ((a < 0) \<noteq> (b < 0)) (a * b)"
  by (simp add: fmul_def is_inf_def)

lemma fadd_Fin: "fadd (Fin a) (Fin b) = mk (a < 0 \<and> b < 0) (a + b)"
  by (simp add: fadd_def is_inf_def)

lemma fsub_Fin: "b \<noteq> 0 \<Longrightarrow> fsub (Fin a) (Fin b) = mk (a < 0 \<and> 0 < b) (a - b)"
  by (simp add: fsub_def fneg_def fadd_Fin)

lemma fdiv_Fin: "b \<noteq> 0 \<Longrightarrow> fdiv (Fin a) (Fin b) = mk ((a < 0) \<noteq> (b < 0)) (a / b)"
  by (simp add: fdiv_def is_inf_def is_zero_def)

lemma fsqrt_Fin: "0 \<le> x \<Longrightarrow> fsqrt (Fin x) = mk False (sqrt x)"
  by (simp add: fsqrt_def)

subsection \<open>Roundings at concrete values\<close>

lemma rnd32_1: "rnd32 1 = 1" "rnd32 (- 1) = - 1"
  using rnd32_normal [of 0 1 "2 ^ 23"] by simp_all

lemma rnd32_2: "rnd32 2 = 2"
  using rnd32_normal [of 1 2 "2 ^ 23"] by simp

lemma rnd32_half: "rnd32 (1 / 2) = 1 / 2"
  using rnd32_normal [of "- 1" "1 / 2" "2 ^ 23"] by simp

lemma rnd32_quarter: "rnd32 (1 / 4) = 1 / 4"
  using rnd32_normal [of "- 2" "1 / 4" "2 ^ 23"] by simp


lemma rnd32_cancel: "rnd32 (- (1 - 1 / 2 ^ 26)) = - 1"
  using rnd32_normal [of "- 1" "1 - 1 / 2 ^ 26" "2 ^ 24"] by simp

lemma rnd32_2p70: "rnd32 (2 ^ 70) = 2 ^ 70"
  using rnd32_normal [of 70 "2 ^ 70" "2 ^ 23"] by simp

lemma rnd32_2p140: "rnd32 (2 ^ 140) = 2 ^ 140"
  using rnd32_normal [of 140 "2 ^ 140" "2 ^ 23"] by simp

lemma rnd32_2p134: "rnd32 (2 ^ 134) = 2 ^ 134"
  using rnd32_normal [of 134 "2 ^ 134" "2 ^ 23"] by simp

lemma rnd32_pi: "rnd32 (13176795 / 4194304) = 13176795 / 4194304"
  using rnd32_normal [of 1 "13176795 / 4194304" 13176795] by simp

lemma rnd32_2pi: "rnd32 (13176795 / 2097152) = 13176795 / 2097152"
  using rnd32_normal [of 2 "13176795 / 2097152" 13176795] by simp




lemma sqrt2_bounds:
  "(11863283 - 1 / 2) / 8388608 < sqrt 2" "sqrt 2 < (11863283 + 1 / 2) / 8388608"
proof -
  show "(11863283 - 1 / 2) / 8388608 < sqrt 2"
    by (rule real_less_rsqrt) (simp add: power2_eq_square)
  show "sqrt 2 < (11863283 + 1 / 2) / 8388608"
    by (rule real_less_lsqrt) (simp_all add: power2_eq_square)
qed

lemma rnd32_sqrt2: "rnd32 (sqrt 2) = 11863283 / 8388608"
proof -
  have "2 powi 0 \<le> sqrt 2" "sqrt 2 < 2 powi (0 + 1)"
    using sqrt2_bounds by simp_all
  then show ?thesis using rnd32_normal(1) [of 0 "sqrt 2" 11863283] sqrt2_bounds by simp
qed

lemma rnd32_sqrt_half: "rnd32 (sqrt 2 / 2) = 11863283 / 16777216"
proof -
  have "2 powi (- 1) \<le> sqrt 2 / 2" "sqrt 2 / 2 < 2 powi (- 1 + 1)"
    using sqrt2_bounds by simp_all
  then show ?thesis using rnd32_normal(1) [of "- 1" "sqrt 2 / 2" 11863283] sqrt2_bounds by simp
qed

lemma rnd32_inv_sqrt2: "rnd32 (8388608 / 11863283) = 11863283 / 16777216"
  using rnd32_normal [of "- 1" "8388608 / 11863283" 11863283] by simp

lemma rnd32_cos_sq: "rnd32 (11863283 / 16777216 * (11863283 / 16777216)) = 16777215 / 33554432"
  using rnd32_normal [of "- 2" "11863283 / 16777216 * (11863283 / 16777216)" 16777215] by simp

lemma rnd32_one_minus_cos_sq: "rnd32 (1 - 16777215 / 33554432) = 1 / 2"
  using rnd32_normal_tie [of "- 1" "1 - 16777215 / 33554432" "2 ^ 23"] by simp

subsection \<open>The sampling functions compute their named parts\<close>

lemma sampleBeckmannDistribution_f32_parts:
  "sampleBeckmannDistribution_f32 wo roughness rSample out0 =
     (let p = sanityCheckPdf_f32 (beckmannPdfH_f32 roughness rSample);
          m = microfacetNormal_f32 (beckmannCosThetaM_f32 roughness rSample) rSample;
          wi = reflectAbout_f32 wo m
      in if fle (fvec3_z wi) (Fin 0) \<or> fle p (Fin 0)
         then (Fin 0, \<lparr>fout_m = m, fout_wi = wi, fout_pdf = p\<rparr>)
         else (fdiv (fmul (evalBeckmannDistribution_aniso_f32 m roughness) (fdot3 wo m))
                    (fmul p (fvec3_z wo)),
               \<lparr>fout_m = m, fout_wi = wi, fout_pdf = fdiv p (fmul (Fin 4) (fdot3 wi m))\<rparr>))"
proof (cases out0)
  case (fields m0 wi0 pdf0)
  have unfolded: ?thesis
    if "flt (fdiv (fsub (Fin 1) (fvec2_x rSample))
           (fmul (fmul (fmul (fmul (fmul M_PIf_f32 (fvec2_x roughness))
              (fvec2_y roughness)) (beckmannCosThetaM_f32 roughness rSample))
              (beckmannCosThetaM_f32 roughness rSample))
              (beckmannCosThetaM_f32 roughness rSample))) pdf_threshold_f32 = b" for b
    using that
    unfolding sampleBeckmannDistribution_f32_def sanityCheckPdf_f32_def beckmannPdfH_f32_def
      microfacetNormal_f32_def reflectAbout_f32_def Let_def fset_x_def fset_y_def fset_z_def
      fields beckmannCosThetaM_f32_def [symmetric]
    by (cases b) (simp_all only: if_True if_False fsample_out.simps fvec3.sel simp_thms)
  show ?thesis by (rule unfolded) (rule refl)
qed

lemma sampleGGXDistribution_f32_parts:
  "sampleGGXDistribution_f32 wo roughness rSample out0 =
     (let p = sanityCheckPdf_f32 (ggxPdfH_f32 roughness rSample);
          m = microfacetNormal_f32 (ggxCosThetaM_f32 roughness rSample) rSample;
          wi = reflectAbout_f32 wo m
      in if fle (fvec3_z wi) (Fin 0) \<or> fle p (Fin 0)
         then (Fin 0, \<lparr>fout_m = m, fout_wi = wi, fout_pdf = p\<rparr>)
         else (fdiv (fmul (evalGGXDistribution_aniso_f32 m roughness) (fdot3 wo m))
                    (fmul p (fvec3_z wo)),
               \<lparr>fout_m = m, fout_wi = wi, fout_pdf = fdiv p (fmul (Fin 4) (fdot3 wi m))\<rparr>))"
proof (cases out0)
  case (fields m0 wi0 pdf0)
  have unfolded: ?thesis
    if "flt (ggxPdfH_f32 roughness rSample) pdf_threshold_f32 = b" for b
    using that
    unfolding sampleGGXDistribution_f32_def sanityCheckPdf_f32_def ggxPdfH_f32_def
      microfacetNormal_f32_def reflectAbout_f32_def Let_def fset_x_def fset_y_def fset_z_def
      fields ggxCosThetaM_f32_def [symmetric]
    by (cases b) (simp_all only: if_True if_False fsample_out.simps fvec3.sel simp_thms)
  show ?thesis by (rule unfolded) (rule refl)
qed

subsection \<open>Operations at concrete values\<close>

lemma mk_1: "mk neg 1 = Fin 1" by (rule mk_Fin [OF rnd32_1(1)]) simp_all
lemma mk_m1: "mk neg (- 1) = Fin (- 1)" by (rule mk_Fin [OF rnd32_1(2)]) simp_all
lemma mk_2: "mk neg 2 = Fin 2" by (rule mk_Fin [OF rnd32_2]) simp_all
lemma mk_half: "mk neg (1 / 2) = Fin (1 / 2)" by (rule mk_Fin [OF rnd32_half]) simp_all
lemma mk_quarter: "mk neg (1 / 4) = Fin (1 / 4)" by (rule mk_Fin [OF rnd32_quarter]) simp_all
lemma mk_2p70: "mk neg (2 ^ 70) = Fin (2 ^ 70)" by (rule mk_Fin [OF rnd32_2p70]) simp_all
lemma mk_2p140: "mk neg (2 ^ 140) = PInf" using rnd32_2p140 by (simp add: mk_def inf_of_def)
lemma mk_2p134: "mk neg (2 ^ 134) = PInf" using rnd32_2p134 by (simp add: mk_def inf_of_def)
lemma mk_pi: "mk neg (13176795 / 4194304) = Fin (13176795 / 4194304)"
  by (rule mk_Fin [OF rnd32_pi]) simp_all
lemma mk_2pi: "mk neg (13176795 / 2097152) = Fin (13176795 / 2097152)"
  by (rule mk_Fin [OF rnd32_2pi]) simp_all
lemma mk_sqrt2: "mk neg (sqrt 2) = Fin (11863283 / 8388608)"
  by (rule mk_Fin [OF rnd32_sqrt2]) simp_all
lemma mk_sqrt_half: "mk neg (sqrt 2 / 2) = Fin (11863283 / 16777216)"
  by (rule mk_Fin [OF rnd32_sqrt_half]) simp_all
lemma mk_inv_sqrt2: "mk neg (8388608 / 11863283) = Fin (11863283 / 16777216)"
  by (rule mk_Fin [OF rnd32_inv_sqrt2]) simp_all
lemma mk_cos_sq:
  "mk neg (11863283 / 16777216 * (11863283 / 16777216)) = Fin (16777215 / 33554432)"
  by (rule mk_Fin [OF rnd32_cos_sq]) simp_all
lemma mk_one_minus_cos_sq: "mk neg (1 - 16777215 / 33554432) = Fin (1 / 2)"
  by (rule mk_Fin [OF rnd32_one_minus_cos_sq]) simp_all




lemma fresnel_overflow: "dielectricFresnel_f32 (Fin 1) (Fin (1 / 2 ^ 70)) = NaN"
proof -
  have c: "fle (Fin 0) (Fin 1)" by (simp add: fle_def)
  have i: "fdiv (Fin 1) (Fin (1 / 2 ^ 70)) = Fin (2 ^ 70)"
    using mk_2p70 by (simp add: fdiv_Fin)
  have sq: "fmul (Fin (2 ^ 70)) (Fin (2 ^ 70)) = PInf"
    using mk_2p140 by (simp add: fmul_Fin)
  have z: "fsub (Fin 1) (fmul (Fin 1) (Fin 1)) = Fin 0"
    by (simp add: fmul_Fin mk_1 fsub_Fin zero_of_def)
  have n: "fmul PInf (Fin 0) = NaN" by (simp add: fmul_def is_inf_def is_zero_def)
  have r: "fsub (Fin 1) NaN = NaN" by (simp add: fsub_def fneg_def fadd_def)
  have g: "\<not> fle NaN (Fin 0)" by (simp add: fle_def)
  have p: "fmul x NaN = NaN" "fmul NaN x = NaN" "fadd x NaN = NaN" "fadd NaN x = NaN"
    "fdiv NaN x = NaN" "fdiv x NaN = NaN" "fsub NaN x = NaN" "fsub x NaN = NaN"
    "fsqrt NaN = NaN" for x
    by (simp_all add: fmul_def fadd_def fdiv_def fsub_def fneg_def fsqrt_def)
  show ?thesis
    unfolding dielectricFresnel_f32_def Let_def
    by (simp only: c if_True i sq z n r g if_False p)
qed

lemma aniso_exponent_nan:
  "beckmannExponent_aniso_f32 (fv3 (Fin 0) (Fin 0) (Fin 1)) (fv2 (Fin 0) (Fin (1 / 2))) = NaN"
proof -
  have sq: "fmul2 (fv2 (Fin 0) (Fin (1 / 2))) (fv2 (Fin 0) (Fin (1 / 2)))
      = fv2 (Fin 0) (Fin (1 / 4))"
    by (simp add: fmul2_def fmul_Fin zero_of_def mk_quarter)
  have d: "fdiv2 (fv2 (Fin 0) (Fin 0)) (fv2 (Fin 0) (Fin (1 / 4))) = fv2 NaN (Fin 0)"
    by (simp add: fdiv2_def fdiv_Fin zero_of_def) (simp add: fdiv_def is_inf_def is_zero_def)
  have dt: "fdot2 (fv2 NaN (Fin 0)) (fv2 (Fin 0) (Fin 0)) = NaN"
    by (simp add: fdot2_def fmul_def fadd_def)
  have q: "fdiv NaN x = NaN" for x by (simp add: fdiv_def)
  show ?thesis
    unfolding beckmannExponent_aniso_f32_def Let_def fvec3.sel sq d dt q ..
qed

subsection \<open>The sampled normal at concrete samples\<close>

lemma mk_cosval: "mk neg (11863283 / 16777216) = Fin (11863283 / 16777216)"
proof -
  have "rnd32 (11863283 / 16777216) = 11863283 / 16777216"
    using rnd32_normal(1) [of "- 1" "11863283 / 16777216" 11863283] by simp
  then show ?thesis by (rule mk_Fin) simp_all
qed

lemma mk_cos_sq_val: "mk neg (16777215 / 33554432) = Fin (16777215 / 33554432)"
proof -
  have "rnd32 (16777215 / 33554432) = 16777215 / 33554432"
    using rnd32_normal(1) [of "- 2" "16777215 / 33554432" 16777215] by simp
  then show ?thesis by (rule mk_Fin) simp_all
qed

lemma mk_dot_val: "mk neg (16777215 / 16777216) = Fin (16777215 / 16777216)"
proof -
  have "rnd32 (16777215 / 16777216) = 16777215 / 16777216"
    using rnd32_normal(1) [of "- 1" "16777215 / 16777216" 16777215] by simp
  then show ?thesis by (rule mk_Fin) simp_all
qed

lemma sqrt_half: "sqrt (1 / 2) = sqrt 2 / 2"
proof -
  have "sqrt (1 / 2) = 1 / sqrt 2" by (simp add: real_sqrt_divide)
  also have "\<dots> = sqrt 2 / 2" by (simp add: field_simps)
  finally show ?thesis .
qed

lemma ggx_cos_overflow:
  "ggxCosThetaM_f32 (fv2 (Fin (2 ^ 67)) ry) (fv2 (Fin (1 / 2)) sy) = Fin 0"
proof -
  have a: "fmul (Fin (2 ^ 67)) (Fin (2 ^ 67)) = PInf"
    using mk_2p134 by (simp add: fmul_Fin)
  have b: "fmul PInf (Fin (1 / 2)) = PInf"
    by (simp add: fmul_def is_inf_def is_zero_def inf_of_def)
  have c: "fsub (Fin 1) (Fin (1 / 2)) = Fin (1 / 2)"
    using mk_half by (simp add: fsub_Fin)
  have d: "fdiv PInf (Fin (1 / 2)) = PInf"
    by (simp add: fdiv_def is_inf_def inf_of_def)
  have e: "fadd (Fin 1) PInf = PInf" by (simp add: fadd_def is_inf_def)
  have f: "fsqrt PInf = PInf" by (simp add: fsqrt_def)
  have g: "fdiv (Fin 1) PInf = Fin 0"
    by (simp add: fdiv_def is_inf_def zero_of_def)
  show ?thesis unfolding ggxCosThetaM_f32_def fvec2.sel a b c d e f g ..
qed

lemma ggx_cos_rounded:
  "ggxCosThetaM_f32 (fv2 (Fin 1) ry) (fv2 (Fin (1 / 2)) sy) = Fin (11863283 / 16777216)"
proof -
  have a: "fmul (Fin 1) (Fin 1) = Fin 1" by (simp add: fmul_Fin mk_1)
  have b: "fmul (Fin 1) (Fin (1 / 2)) = Fin (1 / 2)" by (simp add: fmul_Fin mk_half)
  have c: "fsub (Fin 1) (Fin (1 / 2)) = Fin (1 / 2)"
    using mk_half by (simp add: fsub_Fin)
  have d: "fdiv (Fin (1 / 2)) (Fin (1 / 2)) = Fin 1" by (simp add: fdiv_Fin mk_1)
  have e: "fadd (Fin 1) (Fin 1) = Fin 2" by (simp add: fadd_Fin mk_2)
  have f: "fsqrt (Fin 2) = Fin (11863283 / 8388608)" by (simp add: fsqrt_Fin mk_sqrt2)
  have g: "fdiv (Fin 1) (Fin (11863283 / 8388608)) = Fin (11863283 / 16777216)"
    using mk_inv_sqrt2 by (simp add: fdiv_Fin)
  show ?thesis unfolding ggxCosThetaM_f32_def fvec2.sel a b c d e f g ..
qed

lemma normal_rounded:
  "microfacetNormal_f32 (Fin (11863283 / 16777216)) (fv2 (Fin (1 / 2)) (Fin 0))
     = fv3 (Fin (11863283 / 16777216)) (Fin 0) (Fin (11863283 / 16777216))"
proof -
  have t: "fmul (fmul (Fin 2) M_PIf_f32) (Fin 0) = Fin 0"
    using mk_2pi by (simp add: M_PIf_f32_def fmul_Fin zero_of_def)
  have cs: "fcos (Fin 0) = Fin 1" "fsin (Fin 0) = Fin 0"
    by (simp_all add: fcos_def fsin_def mk_1 zero_of_def)
  have a: "fmul (Fin (11863283 / 16777216)) (Fin (11863283 / 16777216))
      = Fin (16777215 / 33554432)"
    using mk_cos_sq by (simp add: fmul_Fin)
  have b: "fsub (Fin 1) (Fin (16777215 / 33554432)) = Fin (1 / 2)"
    using mk_one_minus_cos_sq by (simp add: fsub_Fin)
  have c: "fmax (Fin 0) (Fin (1 / 2)) = Fin (1 / 2)" by (simp add: fmax_def flt_def)
  have d: "fsqrt (Fin (1 / 2)) = Fin (11863283 / 16777216)"
    by (simp add: fsqrt_Fin sqrt_half mk_sqrt_half)
  have e: "fmul (Fin (11863283 / 16777216)) (Fin 1) = Fin (11863283 / 16777216)"
    using mk_cosval by (simp add: fmul_Fin)
  have f: "fmul (Fin (11863283 / 16777216)) (Fin 0) = Fin 0"
    by (simp add: fmul_Fin zero_of_def)
  show ?thesis
    unfolding microfacetNormal_f32_def Let_def fvec2.sel t cs a b c d e f ..
qed

subsection \<open>Rounding is monotone and keeps the powers of two\<close>

lemma binade_upper:
  assumes "0 < x"
  shows "x < 2 powi (binade x + 1)"
proof -
  have "x < 2 powr (real_of_int \<lfloor>log 2 x\<rfloor> + 1)"
    using assms floor_log_eq_powr_iff [of x 2 "\<lfloor>log 2 x\<rfloor>"] by simp
  also have "\<dots> = 2 powr real_of_int (\<lfloor>log 2 x\<rfloor> + 1)" by simp
  also have "\<dots> = 2 powi (\<lfloor>log 2 x\<rfloor> + 1)" by (subst powr_real_of_int') simp_all
  also have "\<dots> \<le> 2 powi (binade x + 1)"
    by (intro power_int_increasing) (simp_all add: binade_def)
  finally show ?thesis .
qed

lemma binade_lower:
  assumes "2 powi (- 126) \<le> x"
  shows "2 powi (binade x) \<le> x"
proof -
  have pos: "0 < x" using assms by (rule less_le_trans [rotated]) simp
  have "2 powr real_of_int (- 126) \<le> x"
    using assms by (subst powr_real_of_int') simp_all
  then have "real_of_int (- 126) \<le> log 2 x" using pos by (simp add: le_log_iff)
  then have "- 126 \<le> \<lfloor>log 2 x\<rfloor>" by (simp add: le_floor_iff)
  then have b: "binade x = \<lfloor>log 2 x\<rfloor>" by (simp add: binade_def)
  have "2 powr real_of_int \<lfloor>log 2 x\<rfloor> \<le> x"
    using pos floor_log_eq_powr_iff [of x 2 "\<lfloor>log 2 x\<rfloor>"] by simp
  then show ?thesis unfolding b by (subst (asm) powr_real_of_int') simp_all
qed

lemma binade_ge: "- 126 \<le> binade x"
  by (simp add: binade_def)

lemma binade_mono:
  assumes "0 < x" and "x \<le> y"
  shows "binade x \<le> binade y"
proof -
  have "log 2 x \<le> log 2 y" using assms by simp
  then have "\<lfloor>log 2 x\<rfloor> \<le> \<lfloor>log 2 y\<rfloor>" by (rule floor_mono)
  then show ?thesis by (simp add: binade_def)
qed

lemma of_int_pow2: "0 \<le> k \<Longrightarrow> (2::real) powi k = of_int (2 ^ nat k)"
  by (simp add: power_int_def)

lemma rmag_le_pow2:
  assumes "0 \<le> x" and "x \<le> 2 powi k" and "binade x - 23 \<le> k"
  shows "rmag x \<le> 2 powi k"
proof -
  define u :: real where "u = 2 powi (binade x - 23)"
  have u: "0 < u" by (simp add: u_def)
  have "2 powi k = 2 powi (k - (binade x - 23)) * u"
    by (simp add: u_def flip: power_int_add)
  also have "\<dots> = of_int (2 ^ nat (k - (binade x - 23))) * u"
    using assms(3) by (subst of_int_pow2) simp_all
  finally have k: "2 powi k = of_int (2 ^ nat (k - (binade x - 23))) * u" .
  have "x / u \<le> of_int (2 ^ nat (k - (binade x - 23)))"
    using assms(2) u unfolding k by (simp add: pos_divide_le_eq)
  then have "round_even (x / u) \<le> 2 ^ nat (k - (binade x - 23))" by (rule round_even_le)
  then have "of_int (round_even (x / u)) \<le> (of_int (2 ^ nat (k - (binade x - 23))) :: real)"
    by (simp only: of_int_le_iff)
  then have "of_int (round_even (x / u)) * u \<le> of_int (2 ^ nat (k - (binade x - 23))) * u"
    using u by (simp only: mult_le_cancel_right_pos)
  then show ?thesis unfolding k by (simp add: rmag_def Let_def u_def)
qed

lemma rmag_ge_pow2:
  assumes "2 powi k \<le> x" and "binade x - 23 \<le> k"
  shows "2 powi k \<le> rmag x"
proof -
  define u :: real where "u = 2 powi (binade x - 23)"
  have u: "0 < u" by (simp add: u_def)
  have "2 powi k = 2 powi (k - (binade x - 23)) * u"
    by (simp add: u_def flip: power_int_add)
  also have "\<dots> = of_int (2 ^ nat (k - (binade x - 23))) * u"
    using assms(2) by (subst of_int_pow2) simp_all
  finally have k: "2 powi k = of_int (2 ^ nat (k - (binade x - 23))) * u" .
  have "of_int (2 ^ nat (k - (binade x - 23))) \<le> x / u"
    using assms(1) u unfolding k by (simp add: pos_le_divide_eq)
  then have "2 ^ nat (k - (binade x - 23)) \<le> round_even (x / u)" by (rule round_even_ge)
  then have "(of_int (2 ^ nat (k - (binade x - 23))) :: real) \<le> of_int (round_even (x / u))"
    by (simp only: of_int_le_iff)
  then have "of_int (2 ^ nat (k - (binade x - 23))) * u \<le> of_int (round_even (x / u)) * u"
    using u by (simp only: mult_le_cancel_right_pos)
  then show ?thesis unfolding k by (simp add: rmag_def Let_def u_def)
qed

lemma rmag_nonneg: "0 \<le> x \<Longrightarrow> 0 \<le> rmag x"
proof -
  assume "0 \<le> x"
  then have "of_int 0 \<le> x / 2 powi (binade x - 23)" by simp
  then have "0 \<le> round_even (x / 2 powi (binade x - 23))" by (rule round_even_ge)
  then show ?thesis by (simp add: rmag_def Let_def)
qed

lemma rmag_top:
  assumes "0 < x"
  shows "rmag x \<le> 2 powi (binade x + 1)"
  using assms binade_upper [OF assms] by (intro rmag_le_pow2) simp_all

lemma rmag_bot:
  assumes "2 powi (- 126) \<le> x"
  shows "2 powi (binade x) \<le> rmag x"
  using binade_lower [OF assms] by (intro rmag_ge_pow2) simp_all

lemma pow2_le_D: "(2::real) powi a \<le> 2 powi b \<Longrightarrow> a \<le> b"
proof (rule ccontr)
  assume le: "(2::real) powi a \<le> 2 powi b" and "\<not> a \<le> b"
  then have "b < a" by simp
  then have "(2::real) powi b < 2 powi a" by (intro power_int_strict_increasing) simp_all
  with le show False by simp
qed

lemma rmag_le_threshold:
  assumes "0 \<le> x" and "x \<le> 2 powi k" and "- 149 \<le> k"
  shows "rmag x \<le> 2 powi k"
proof (cases "2 powi (- 126) \<le> x")
  case True
  have "(2::real) powi (binade x) \<le> 2 powi k" using binade_lower [OF True] assms(2) by simp
  then have "binade x \<le> k" by (rule pow2_le_D)
  then show ?thesis using assms by (intro rmag_le_pow2) simp_all
next
  case False
  show ?thesis
  proof (cases "x = 0")
    case True
    have "round_even 0 = 0" using round_even_of_int [of 0] by simp
    then show ?thesis using True by (simp add: rmag_def)
  next
    case nz: False
    have "binade x = - 126" using False nz assms(1) by (intro binade_subnormal) simp_all
    then show ?thesis using assms by (intro rmag_le_pow2) simp_all
  qed
qed

lemma rmag_ge_threshold:
  assumes "2 powi k \<le> x" and "- 149 \<le> k"
  shows "2 powi k \<le> rmag x"
proof (cases "binade x - 23 \<le> k")
  case True
  then show ?thesis using assms by (intro rmag_ge_pow2) simp_all
next
  case False
  then have b: "k < binade x - 23" by simp
  have pos: "0 < x" using assms(1) by (rule less_le_trans [rotated]) simp
  have "- 126 < binade x" using b assms(2) by simp
  then have "binade x = \<lfloor>log 2 x\<rfloor>" by (simp add: binade_def max_def split: if_splits)
  then have "2 powr real_of_int (binade x) \<le> x"
    using pos floor_log_eq_powr_iff [of x 2 "\<lfloor>log 2 x\<rfloor>"] by simp
  then have "2 powi (binade x) \<le> x" by (subst (asm) powr_real_of_int') simp_all
  then have "2 powi (binade x) \<le> rmag x" by (intro rmag_ge_pow2) simp_all
  moreover have "(2::real) powi k \<le> 2 powi (binade x)"
    using b by (intro power_int_increasing) simp_all
  ultimately show ?thesis by simp
qed

lemma rmag_mono:
  assumes "0 < x" and "x \<le> y"
  shows "rmag x \<le> rmag y"
proof (cases "binade x = binade y")
  case True
  have "x / 2 powi (binade y - 23) \<le> y / 2 powi (binade y - 23)"
    using assms(2) by (simp add: divide_right_mono)
  then have "round_even (x / 2 powi (binade y - 23)) \<le> round_even (y / 2 powi (binade y - 23))"
    by (rule round_even_mono)
  then show ?thesis by (simp add: rmag_def Let_def True)
next
  case False
  then have lt: "binade x < binade y" using binade_mono [OF assms] by simp
  have pos: "0 < y" using assms by simp
  have "- 126 < binade y" using lt binade_ge [of x] by simp
  then have "binade y = \<lfloor>log 2 y\<rfloor>" by (simp add: binade_def max_def split: if_splits)
  then have "2 powr real_of_int (binade y) \<le> y"
    using pos floor_log_eq_powr_iff [of y 2 "\<lfloor>log 2 y\<rfloor>"] by simp
  then have "2 powi (binade y) \<le> y" by (subst (asm) powr_real_of_int') simp_all
  then have "2 powi (binade y) \<le> rmag y" by (intro rmag_ge_pow2) simp_all
  moreover have "rmag x \<le> 2 powi (binade x + 1)" using assms(1) by (rule rmag_top)
  moreover have "(2::real) powi (binade x + 1) \<le> 2 powi (binade y)"
    using lt by (intro power_int_increasing) simp_all
  ultimately show ?thesis by simp
qed

lemma rnd32_minus: "rnd32 (- x) = - rnd32 x"
  by (simp add: rnd32_def)

lemma rnd32_nonneg: "0 \<le> x \<Longrightarrow> 0 \<le> rnd32 x"
  by (simp add: rnd32_def rmag_nonneg)

lemma rnd32_nonpos: "x \<le> 0 \<Longrightarrow> rnd32 x \<le> 0"
  using rnd32_nonneg [of "- x"] by (simp add: rnd32_minus)

lemma rnd32_le_threshold:
  assumes "x \<le> 2 powi k" and "- 149 \<le> k"
  shows "rnd32 x \<le> 2 powi k"
proof (cases "0 < x")
  case True
  then show ?thesis using assms by (simp add: rnd32_def rmag_le_threshold)
next
  case False
  then have "rnd32 x \<le> 0" by (intro rnd32_nonpos) simp
  moreover have "(0::real) \<le> 2 powi k" by simp
  ultimately show ?thesis by (rule order_trans)
qed

lemma rnd32_ge_threshold:
  assumes "2 powi k \<le> x" and "- 149 \<le> k"
  shows "2 powi k \<le> rnd32 x"
proof -
  have "0 < x" using assms(1) by (rule less_le_trans [rotated]) simp
  then show ?thesis using assms by (simp add: rnd32_def rmag_ge_threshold)
qed

lemma rnd32_mono:
  assumes "x \<le> y"
  shows "rnd32 x \<le> rnd32 y"
proof -
  consider "0 < x" | "x \<le> 0" "0 \<le> y" | "y < 0" by linarith
  then show ?thesis
  proof cases
    case 1
    then show ?thesis using assms rmag_mono [of x y] by (simp add: rnd32_def)
  next
    case 2
    then have "rnd32 x \<le> 0" "0 \<le> rnd32 y" by (simp_all add: rnd32_nonpos rnd32_nonneg)
    then show ?thesis by simp
  next
    case 3
    then have "rmag (- y) \<le> rmag (- x)" using assms by (intro rmag_mono) simp_all
    then show ?thesis using 3 assms by (simp add: rnd32_def)
  qed
qed

lemma mk_finite:
  assumes "\<bar>rnd32 x\<bar> < 2 ^ 128"
  shows "is_finite (mk neg x)" and "valof (mk neg x) = rnd32 x"
  using assms by (simp_all add: mk_def Let_def zero_of_def)

lemma pow2_128: "(2::real) ^ 128 = 2 powi 128"
  by simp

lemma mk_within:
  assumes "2 powi k \<le> x" and "x \<le> 2 powi l" and "- 149 \<le> k" and "l \<le> 127"
  shows "is_finite (mk neg x)" and "2 powi k \<le> valof (mk neg x)"
    and "valof (mk neg x) \<le> 2 powi l"
proof -
  have kl: "k \<le> l" using assms(1,2) by (intro pow2_le_D) simp
  have lo: "2 powi k \<le> rnd32 x" using assms(1,3) by (rule rnd32_ge_threshold)
  have hi: "rnd32 x \<le> 2 powi l" using assms(2,3) kl by (intro rnd32_le_threshold) simp_all
  have "(2::real) powi l < 2 powi 128" using assms(4) by (intro power_int_strict_increasing) simp_all
  moreover have "(0::real) < 2 powi k" by simp
  ultimately have b: "\<bar>rnd32 x\<bar> < 2 ^ 128" using lo hi unfolding pow2_128 by linarith
  show "is_finite (mk neg x)" using b by (rule mk_finite)
  show "2 powi k \<le> valof (mk neg x)" "valof (mk neg x) \<le> 2 powi l"
    using lo hi by (simp_all only: mk_finite(2) [OF b])
qed

lemma mk_within0:
  assumes "0 \<le> x" and "x \<le> 2 powi l" and "- 149 \<le> l" and "l \<le> 127"
  shows "is_finite (mk neg x)" and "0 \<le> valof (mk neg x)" and "valof (mk neg x) \<le> 2 powi l"
proof -
  have lo: "0 \<le> rnd32 x" using assms(1) by (rule rnd32_nonneg)
  have hi: "rnd32 x \<le> 2 powi l" using assms(2,3) by (rule rnd32_le_threshold)
  have "(2::real) powi l < 2 powi 128" using assms(4) by (intro power_int_strict_increasing) simp_all
  then have b: "\<bar>rnd32 x\<bar> < 2 ^ 128" using lo hi unfolding pow2_128 by linarith
  show "is_finite (mk neg x)" using b by (rule mk_finite)
  show "0 \<le> valof (mk neg x)" "valof (mk neg x) \<le> 2 powi l"
    using lo hi by (simp_all only: mk_finite(2) [OF b])
qed

lemma is_finite_cases: "is_finite a \<Longrightarrow> a = Fin (valof a) \<or> a = NZero"
  by (cases a) simp_all

lemma fmul_finite:
  "is_finite a \<Longrightarrow> is_finite b \<Longrightarrow> fmul a b = mk (sign_bit a \<noteq> sign_bit b) (valof a * valof b)"
  by (cases a; cases b) (simp_all add: fmul_def is_inf_def)

lemma fadd_finite:
  "is_finite a \<Longrightarrow> is_finite b \<Longrightarrow> fadd a b = mk (sign_bit a \<and> sign_bit b) (valof a + valof b)"
  by (cases a; cases b) (simp_all add: fadd_def is_inf_def)

lemma fneg_finite: "is_finite a \<Longrightarrow> is_finite (fneg a) \<and> valof (fneg a) = - valof a"
  by (cases a) (simp_all add: fneg_def)

lemma fsub_finite:
  "is_finite a \<Longrightarrow> is_finite b \<Longrightarrow>
   fsub a b = mk (sign_bit a \<and> sign_bit (fneg b)) (valof a - valof b)"
  using fneg_finite [of b] by (simp add: fsub_def fadd_finite)

lemma fdiv_finite:
  "is_finite a \<Longrightarrow> is_finite b \<Longrightarrow> valof b \<noteq> 0 \<Longrightarrow>
   fdiv a b = mk (sign_bit a \<noteq> sign_bit b) (valof a / valof b)"
  by (cases a; cases b) (simp_all add: fdiv_def is_inf_def is_zero_def)

lemma fsqrt_finite:
  "is_finite a \<Longrightarrow> 0 < valof a \<Longrightarrow> fsqrt a = mk False (sqrt (valof a))"
  by (cases a) (simp_all add: fsqrt_def)

subsection \<open>Signs\<close>

lemma fle0_iff: "fle (Fin 0) x \<longleftrightarrow> x = PInf \<or> is_finite x \<and> 0 \<le> valof x"
  by (cases x) (simp_all add: fle_def)

lemma fle_finite: "is_finite a \<Longrightarrow> is_finite b \<Longrightarrow> fle a b = (valof a \<le> valof b)"
  by (cases a; cases b) (simp_all add: fle_def)

lemma rnd32_neg_imp: "rnd32 x < 0 \<Longrightarrow> x < 0"
  using rnd32_nonneg [of x] by (rule_tac ccontr) simp

lemma rnd32_pos_imp: "0 < rnd32 x \<Longrightarrow> 0 < x"
  using rnd32_nonpos [of x] by (rule_tac ccontr) simp

lemma mk_cases:
  obtains (inf) "mk neg x = inf_of (x < 0)" "x \<noteq> 0"
  | (zero) "mk neg x = zero_of neg"
  | (fin) y where "mk neg x = Fin y" "y \<noteq> 0" "y = rnd32 x"
proof (cases "2 ^ 128 \<le> \<bar>rnd32 x\<bar>")
  case True
  then have nz: "rnd32 x \<noteq> 0" by auto
  then have "x \<noteq> 0" by auto
  moreover have "(rnd32 x < 0) = (x < 0)"
    using nz rnd32_neg_imp [of x] rnd32_pos_imp [of x] by (cases "rnd32 x < 0") auto
  ultimately show ?thesis using True inf by (simp add: mk_def Let_def)
next
  case False
  then show ?thesis using zero fin by (cases "rnd32 x = 0") (simp_all add: mk_def Let_def)
qed

lemma fle0_mk: "0 \<le> x \<Longrightarrow> fle (Fin 0) (mk neg x)"
proof (cases neg x rule: mk_cases)
  case inf
  assume "0 \<le> x"
  then show ?thesis using inf by (simp add: inf_of_def fle_def)
next
  case zero
  then show ?thesis by (simp add: zero_of_def fle_def)
next
  case (fin y)
  assume "0 \<le> x"
  then have "0 \<le> y" using fin(3) by (simp add: rnd32_nonneg)
  then show ?thesis using fin(1) by (simp add: fle_def)
qed

lemma square_f32_cases:
  assumes "is_finite r" and "\<not> is_zero (fmul r r)"
  shows "fmul r r = PInf \<or> (\<exists>y. fmul r r = Fin y \<and> 0 < y)"
proof -
  have eq: "fmul r r = mk False (valof r * valof r)"
    using assms(1) by (simp add: fmul_finite)
  show ?thesis
  proof (cases False "valof r * valof r" rule: mk_cases)
    case inf
    then show ?thesis by (simp add: eq inf_of_def not_less)
  next
    case zero
    then show ?thesis using assms(2) by (simp add: eq zero_of_def is_zero_def)
  next
    case (fin y)
    have "0 \<le> y" using fin(3) by (simp add: rnd32_nonneg)
    then show ?thesis using fin by (simp add: eq)
  qed
qed

lemma aniso_term_nonneg:
  assumes h: "is_finite h" and r: "is_finite r" and nz: "\<not> is_zero (fmul r r)"
  shows "fle (Fin 0) (fmul (fdiv h (fmul r r)) h)"
proof -
  from square_f32_cases [OF r nz] show ?thesis
  proof (elim disjE exE conjE)
    assume A: "fmul r r = PInf"
    have "fdiv h PInf = zero_of (sign_bit h)"
      using h by (cases h) (simp_all add: fdiv_def is_inf_def)
    then have "is_finite (fdiv h PInf)" "valof (fdiv h PInf) = 0"
      by (simp_all add: zero_of_def)
    then have "fmul (fdiv h PInf) h = mk (sign_bit (fdiv h PInf) \<noteq> sign_bit h) 0"
      using h by (simp add: fmul_finite)
    then show ?thesis unfolding A by (simp add: zero_of_def fle_def)
  next
    fix y assume A: "fmul r r = Fin y" and y: "0 < y"
    have X: "fdiv h (Fin y) = mk (sign_bit h) (valof h / y)"
      using h y by (simp add: fdiv_finite)
    show ?thesis
    proof (cases "sign_bit h" "valof h / y" rule: mk_cases)
      case inf
      then have vh: "valof h \<noteq> 0" by auto
      then have hF: "h = Fin (valof h)" using is_finite_cases [OF h] by auto
      have sg: "(valof h / y < 0) = (valof h < 0)" using y by (simp add: divide_less_0_iff)
      have "fdiv h (Fin y) = inf_of (sign_bit h)"
        unfolding X inf(1) sg by (subst (2) hF) simp
      moreover have "\<not> is_zero h" using vh by (simp add: is_zero_def)
      ultimately have "fmul (fdiv h (Fin y)) h = PInf"
        using h by (cases h) (simp_all add: fmul_def inf_of_def is_inf_def is_zero_def)
      then show ?thesis unfolding A by (simp add: fle_def)
    next
      case zero
      then have "is_finite (fdiv h (Fin y))" "valof (fdiv h (Fin y)) = 0"
        by (simp_all add: X zero_of_def)
      then have "fmul (fdiv h (Fin y)) h = mk (sign_bit (fdiv h (Fin y)) \<noteq> sign_bit h) 0"
        using h by (simp add: fmul_finite)
      then show ?thesis unfolding A by (simp add: zero_of_def fle_def)
    next
      case (fin z)
      have "0 \<le> z * valof h"
      proof (cases "0 \<le> valof h")
        case True
        then have "0 \<le> z" unfolding fin(3) using y by (intro rnd32_nonneg) simp
        then show ?thesis using True by simp
      next
        case False
        then have "z \<le> 0" unfolding fin(3) using y
          by (intro rnd32_nonpos) (simp add: divide_le_0_iff)
        then show ?thesis using False by (simp add: mult_nonpos_nonpos)
      qed
      moreover have "fmul (fdiv h (Fin y)) h = mk (sign_bit (Fin z) \<noteq> sign_bit h) (z * valof h)"
        using h by (simp add: X fin(1) fmul_finite)
      ultimately show ?thesis unfolding A by (simp only: fle0_mk)
    qed
  qed
qed

lemma fadd_nonneg:
  assumes "fle (Fin 0) a" and "fle (Fin 0) b"
  shows "fle (Fin 0) (fadd a b)"
proof -
  consider "a = PInf" | "b = PInf" "a \<noteq> PInf" | "is_finite a" "is_finite b"
      "0 \<le> valof a" "0 \<le> valof b"
    using assms by (auto simp: fle0_iff)
  then show ?thesis
  proof cases
    case 1
    then show ?thesis using assms(2) by (cases b) (simp_all add: fadd_def is_inf_def fle_def)
  next
    case 2
    then show ?thesis using assms(1) by (cases a) (simp_all add: fadd_def is_inf_def fle_def)
  next
    case 3
    then show ?thesis by (simp add: fadd_finite fle0_mk)
  qed
qed

lemma fdiv_nonneg:
  assumes "fle (Fin 0) a" and "0 < y"
  shows "fle (Fin 0) (fdiv a (Fin y))"
proof -
  consider "a = PInf" | "is_finite a" "0 \<le> valof a" using assms(1) by (auto simp: fle0_iff)
  then show ?thesis
  proof cases
    case 1
    then show ?thesis using assms(2) by (simp add: fdiv_def is_inf_def inf_of_def fle_def)
  next
    case 2
    then show ?thesis using assms(2) by (simp add: fdiv_finite fle0_mk)
  qed
qed

lemma exp_factor_range:
  assumes "fle (Fin 0) e"
  shows "fle (Fin 0) (fexp (fneg e))" and "fle (fexp (fneg e)) (Fin 1)"
proof -
  have "fle (Fin 0) (fexp (fneg e)) \<and> fle (fexp (fneg e)) (Fin 1)"
  proof (cases e)
    case (Fin v)
    then have v: "0 \<le> v" using assms by (simp add: fle_def)
    show ?thesis
    proof (cases "v = 0")
      case True
      then show ?thesis using Fin by (simp add: fneg_def fexp_def fle_def)
    next
      case False
      have "0 \<le> exp (- v)" "exp (- v) \<le> 2 powi 0" using v by simp_all
      from mk_within0 [OF this, of False]
      have "is_finite (mk False (exp (- v)))" "0 \<le> valof (mk False (exp (- v)))"
        "valof (mk False (exp (- v))) \<le> 1" by simp_all
      then have "fle (Fin 0) (mk False (exp (- v)))" "fle (mk False (exp (- v))) (Fin 1)"
        by (simp_all add: fle_finite)
      then show ?thesis using Fin False by (simp add: fneg_def fexp_def)
    qed
  next
    case NZero
    have "mk False 1 = Fin 1" by (rule mk_1)
    then show ?thesis using NZero by (simp add: fneg_def fexp_def fle_def)
  next
    case PInf
    then show ?thesis by (simp add: fneg_def fexp_def fle_def)
  next
    case NInf
    then show ?thesis using assms by (simp add: fle_def)
  next
    case NaN
    then show ?thesis using assms by (simp add: fle_def)
  qed
  then show "fle (Fin 0) (fexp (fneg e))" and "fle (fexp (fneg e)) (Fin 1)" by simp_all
qed

lemma fmax_zero_nonneg: "fle (Fin 0) (fmax (Fin 0) y)"
  by (cases y) (simp_all add: fmax_def flt_def fle_def)

lemma beckmannExponent_iso_f32_nonneg:
  "fle (Fin 0) (beckmannExponent_iso_f32 N H roughness)"
  unfolding beckmannExponent_iso_f32_def Let_def by (rule fmax_zero_nonneg)

lemma beckmannExponent_aniso_f32_nonneg:
  assumes "is_finite (fvec3_x H)" and "is_finite (fvec3_y H)" and "is_finite (fvec3_z H)"
    and "is_finite (fvec2_x rgns)" and "is_finite (fvec2_y rgns)"
    and "\<not> is_zero (fmul (fvec2_x rgns) (fvec2_x rgns))"
    and "\<not> is_zero (fmul (fvec2_y rgns) (fvec2_y rgns))"
    and "\<not> is_zero (fmul (fvec3_z H) (fvec3_z H))"
    and "is_finite (fmul (fvec3_z H) (fvec3_z H))"
  shows "fle (Fin 0) (beckmannExponent_aniso_f32 H rgns)"
proof -
  have t1: "fle (Fin 0) (fmul (fdiv (fvec3_x H) (fmul (fvec2_x rgns) (fvec2_x rgns))) (fvec3_x H))"
    using assms(1,4,6) by (rule aniso_term_nonneg)
  have t2: "fle (Fin 0) (fmul (fdiv (fvec3_y H) (fmul (fvec2_y rgns) (fvec2_y rgns))) (fvec3_y H))"
    using assms(2,5,7) by (rule aniso_term_nonneg)
  from square_f32_cases [OF assms(3,8)] assms(9)
  obtain n where n: "fmul (fvec3_z H) (fvec3_z H) = Fin n" "0 < n" by auto
  show ?thesis
    unfolding beckmannExponent_aniso_f32_def Let_def fdot2_def fdiv2_def fmul2_def
      fvec2.sel n(1)
    by (intro fdiv_nonneg fadd_nonneg t1 t2 n(2))
qed

subsection \<open>Ranges of the sampled normal\<close>

lemma mk_abs_within:
  assumes "\<bar>x\<bar> \<le> 2 powi l" and "- 149 \<le> l" and "l \<le> 127"
  shows "is_finite (mk neg x)" and "\<bar>valof (mk neg x)\<bar> \<le> 2 powi l"
proof -
  have r: "\<bar>rnd32 x\<bar> \<le> 2 powi l"
  proof (cases "0 \<le> x")
    case True
    then have "0 \<le> rnd32 x" by (rule rnd32_nonneg)
    moreover have "rnd32 x \<le> 2 powi l" using assms(1,2) True by (intro rnd32_le_threshold) simp_all
    ultimately show ?thesis by simp
  next
    case False
    then have "0 \<le> rnd32 (- x)" by (intro rnd32_nonneg) simp
    moreover have "rnd32 (- x) \<le> 2 powi l"
      using assms(1,2) False by (intro rnd32_le_threshold) simp_all
    ultimately show ?thesis by (simp add: rnd32_minus)
  qed
  have "(2::real) powi l < 2 powi 128" using assms(3) by (intro power_int_strict_increasing) simp_all
  then have b: "\<bar>rnd32 x\<bar> < 2 ^ 128" using r unfolding pow2_128 by linarith
  show "is_finite (mk neg x)" using b by (rule mk_finite)
  show "\<bar>valof (mk neg x)\<bar> \<le> 2 powi l" using r by (simp only: mk_finite(2) [OF b])
qed

lemma cos_from_tan_f32:
  assumes T: "is_finite T" "0 \<le> valof T" "valof T \<le> 2 powi 124"
  shows "is_finite (fdiv (Fin 1) (fsqrt (fadd (Fin 1) T)))"
    and "2 powi (- 63) \<le> valof (fdiv (Fin 1) (fsqrt (fadd (Fin 1) T)))"
    and "valof (fdiv (Fin 1) (fsqrt (fadd (Fin 1) T))) \<le> 1"
proof -
  define S where "S = fadd (Fin 1) T"
  define Q where "Q = fsqrt S"
  have S_eq: "S = mk (sign_bit (Fin 1) \<and> sign_bit T) (1 + valof T)"
    unfolding S_def using T(1) by (simp add: fadd_finite)
  have "(2::real) powi 124 \<le> 2 powi 125 - 1" by simp
  then have "2 powi 0 \<le> 1 + valof T" "1 + valof T \<le> 2 powi 125" using T(2,3) by simp_all
  from mk_within [OF this, of "sign_bit (Fin 1) \<and> sign_bit T"]
  have S: "is_finite S" "1 \<le> valof S" "valof S \<le> 2 powi 125" by (simp_all add: S_eq)
  have Q_eq: "Q = mk False (sqrt (valof S))"
    unfolding Q_def using S(1,2) by (intro fsqrt_finite) simp_all
  have "sqrt (valof S) \<le> sqrt (2 powi 126)" using S(3) by (intro real_sqrt_le_mono) simp
  also have "sqrt (2 powi 126) = sqrt ((2 ^ 63) ^ 2)" by simp
  also have "\<dots> = 2 powi 63" by (subst real_sqrt_abs) simp
  finally have "sqrt (valof S) \<le> 2 powi 63" .
  moreover have "2 powi 0 \<le> sqrt (valof S)" using S(2) by simp
  ultimately have Q: "is_finite Q" "1 \<le> valof Q" "valof Q \<le> 2 powi 63"
    using mk_within [of 0 "sqrt (valof S)" 63 False] by (simp_all add: Q_eq)
  have C_eq: "fdiv (Fin 1) Q = mk (sign_bit (Fin 1) \<noteq> sign_bit Q) (1 / valof Q)"
    using Q(1,2) fdiv_finite [of "Fin 1" Q] by simp
  have "1 / valof Q \<le> 2 powi 0" using Q(2) by simp
  moreover have "2 powi (- 63) \<le> 1 / valof Q"
  proof -
    have "1 / 2 powi 63 \<le> 1 / valof Q" using Q(2,3) by (intro divide_left_mono) simp_all
    then show ?thesis by (simp add: power_int_minus field_simps)
  qed
  ultimately have "is_finite (fdiv (Fin 1) Q)" "2 powi (- 63) \<le> valof (fdiv (Fin 1) Q)"
    "valof (fdiv (Fin 1) Q) \<le> 1"
    using mk_within [of "- 63" "1 / valof Q" 0 "sign_bit (Fin 1) \<noteq> sign_bit Q"]
    by (simp_all add: C_eq)
  then show "is_finite (fdiv (Fin 1) (fsqrt (fadd (Fin 1) T)))"
    and "2 powi (- 63) \<le> valof (fdiv (Fin 1) (fsqrt (fadd (Fin 1) T)))"
    and "valof (fdiv (Fin 1) (fsqrt (fadd (Fin 1) T))) \<le> 1"
    unfolding Q_def S_def by simp_all
qed

lemma alphaSqr_f32_range:
  assumes "is_finite r" and "\<bar>valof r\<bar> \<le> 2 ^ 50"
  shows "is_finite (fmul r r)" and "0 \<le> valof (fmul r r)" and "valof (fmul r r) \<le> 2 powi 100"
proof -
  have eq: "fmul r r = mk False (valof r * valof r)" using assms(1) by (simp add: fmul_finite)
  have "valof r * valof r = \<bar>valof r\<bar> * \<bar>valof r\<bar>" by simp
  also have "\<dots> \<le> 2 ^ 50 * 2 ^ 50" using assms(2) by (intro mult_mono) simp_all
  finally have "valof r * valof r \<le> 2 powi 100" by simp
  moreover have "0 \<le> valof r * valof r" by simp
  ultimately show "is_finite (fmul r r)" and "0 \<le> valof (fmul r r)"
    and "valof (fmul r r) \<le> 2 powi 100"
    using mk_within0 [of "valof r * valof r" 100 False] by (simp_all add: eq)
qed

lemma one_minus_sample_f32_range:
  assumes "is_finite u" and "0 \<le> valof u" and "valof u \<le> 1 - 1 / 2 ^ 24"
  shows "is_finite (fsub (Fin 1) u)" and "2 powi (- 24) \<le> valof (fsub (Fin 1) u)"
    and "valof (fsub (Fin 1) u) \<le> 1"
proof -
  have eq: "fsub (Fin 1) u = mk (sign_bit (Fin 1) \<and> sign_bit (fneg u)) (1 - valof u)"
    using assms(1) by (simp add: fsub_finite)
  have "2 powi (- 24) \<le> 1 - valof u" using assms(3) by (simp add: power_int_minus field_simps)
  moreover have "1 - valof u \<le> 2 powi 0" using assms(2) by simp
  ultimately show "is_finite (fsub (Fin 1) u)" and "2 powi (- 24) \<le> valof (fsub (Fin 1) u)"
    and "valof (fsub (Fin 1) u) \<le> 1"
    using mk_within [of "- 24" "1 - valof u" 0 "sign_bit (Fin 1) \<and> sign_bit (fneg u)"]
    by (simp_all add: eq)
qed

lemma ggxCosThetaM_f32_range:
  assumes r: "is_finite (fvec2_x roughness)" "\<bar>valof (fvec2_x roughness)\<bar> \<le> 2 ^ 50"
    and u: "is_finite (fvec2_x rSample)" "0 \<le> valof (fvec2_x rSample)"
      "valof (fvec2_x rSample) \<le> 1 - 1 / 2 ^ 24"
  shows "is_finite (ggxCosThetaM_f32 roughness rSample)"
    and "2 powi (- 63) \<le> valof (ggxCosThetaM_f32 roughness rSample)"
    and "valof (ggxCosThetaM_f32 roughness rSample) \<le> 1"
proof -
  define A where "A = fmul (fvec2_x roughness) (fvec2_x roughness)"
  define AU where "AU = fmul A (fvec2_x rSample)"
  define D where "D = fsub (Fin 1) (fvec2_x rSample)"
  define T where "T = fdiv AU D"
  note A = alphaSqr_f32_range [OF r, folded A_def]
  note D = one_minus_sample_f32_range [OF u, folded D_def]
  have AU_eq: "AU = mk (sign_bit A \<noteq> sign_bit (fvec2_x rSample)) (valof A * valof (fvec2_x rSample))"
    unfolding AU_def using A(1) u(1) by (rule fmul_finite)
  have "valof A * valof (fvec2_x rSample) \<le> 2 powi 100 * 1"
    using A(2,3) u(2,3) by (intro mult_mono) simp_all
  moreover have "0 \<le> valof A * valof (fvec2_x rSample)" using A(2) u(2) by simp
  ultimately have AU: "is_finite AU" "0 \<le> valof AU" "valof AU \<le> 2 powi 100"
    using mk_within0 [of "valof A * valof (fvec2_x rSample)" 100
        "sign_bit A \<noteq> sign_bit (fvec2_x rSample)"]
    by (simp_all add: AU_eq)
  have Dpos: "0 < valof D" using D(2) by (simp add: power_int_minus) 
  have T_eq: "T = mk (sign_bit AU \<noteq> sign_bit D) (valof AU / valof D)"
    unfolding T_def using AU(1) D(1) Dpos by (intro fdiv_finite) simp_all
  have "valof AU / valof D \<le> 2 powi 100 / 2 powi (- 24)"
    using AU(2,3) D(2) Dpos by (intro frac_le) simp_all
  also have "\<dots> = 2 powi 124" by (simp add: power_int_minus)
  finally have "valof AU / valof D \<le> 2 powi 124" .
  moreover have "0 \<le> valof AU / valof D" using AU(2) Dpos by simp
  ultimately have T: "is_finite T" "0 \<le> valof T" "valof T \<le> 2 powi 124"
    using mk_within0 [of "valof AU / valof D" 124 "sign_bit AU \<noteq> sign_bit D"]
    by (simp_all add: T_eq)
  have eq: "ggxCosThetaM_f32 roughness rSample = fdiv (Fin 1) (fsqrt (fadd (Fin 1) T))"
    unfolding ggxCosThetaM_f32_def T_def AU_def A_def D_def ..
  show "is_finite (ggxCosThetaM_f32 roughness rSample)"
    and "2 powi (- 63) \<le> valof (ggxCosThetaM_f32 roughness rSample)"
    and "valof (ggxCosThetaM_f32 roughness rSample) \<le> 1"
    unfolding eq by (rule cos_from_tan_f32 [OF T])+
qed

lemma ln_ge_minus_24:
  assumes "2 powi (- 24) \<le> (d::real)"
  shows "- 32 \<le> ln d"
proof -
  have d: "0 < d" using assms by (simp add: power_int_minus) 
  have "ln (2::real) < 2" using ln_less_self [of "2::real"] by simp
  have "ln ((2::real) powi (- 24)) \<le> ln d" using assms d by (subst ln_le_cancel_iff) simp_all
  moreover have "ln ((2::real) powi (- 24)) = - 24 * ln 2"
  proof -
    have "ln (inverse 2 ^ 24) = real 24 * ln (inverse (2::real))" by (rule ln_realpow)
    moreover have "ln (inverse (2::real)) = - ln 2" by (rule ln_inverse)
    moreover have "(2::real) powi (- 24) = inverse 2 ^ 24" by (simp add: power_int_minus inverse_eq_divide power_divide)
    ultimately show ?thesis by (simp only: of_nat_numeral mult_minus_right mult_minus_left)
  qed
  ultimately have "- 24 * ln 2 \<le> ln d" by (simp only:)
  moreover have "ln (2::real) \<le> 1" using ln_le_minus_one [of "2::real"] by simp
  ultimately show ?thesis by linarith
qed

lemma beckmannCosThetaM_f32_range:
  assumes r: "is_finite (fvec2_x roughness)" "\<bar>valof (fvec2_x roughness)\<bar> \<le> 2 ^ 50"
    and u: "is_finite (fvec2_x rSample)" "0 \<le> valof (fvec2_x rSample)"
      "valof (fvec2_x rSample) \<le> 1 - 1 / 2 ^ 24"
  shows "is_finite (beckmannCosThetaM_f32 roughness rSample)"
    and "2 powi (- 63) \<le> valof (beckmannCosThetaM_f32 roughness rSample)"
    and "valof (beckmannCosThetaM_f32 roughness rSample) \<le> 1"
proof -
  define A where "A = fmul (fvec2_x roughness) (fvec2_x roughness)"
  define D where "D = fsub (Fin 1) (fvec2_x rSample)"
  define L where "L = fneg (flog D)"
  define T where "T = fmul A L"
  note A = alphaSqr_f32_range [OF r, folded A_def]
  note D = one_minus_sample_f32_range [OF u, folded D_def]
  have Dpos: "0 < valof D" using D(2) by (simp add: power_int_minus)
  then have DF: "D = Fin (valof D)" using is_finite_cases [OF D(1)] by auto
  have "flog D = flog (Fin (valof D))" by (subst DF) (rule refl)
  also have "\<dots> = mk False (ln (valof D))" using Dpos by (simp add: flog_def)
  finally have log_eq: "flog D = mk False (ln (valof D))" .
  have lo: "- 32 \<le> ln (valof D)" using D(2) by (rule ln_ge_minus_24)
  have hi: "ln (valof D) \<le> 0" using D(3) Dpos by simp
  have "\<bar>ln (valof D)\<bar> \<le> 2 powi 5" using lo hi by simp
  from mk_abs_within [OF this, of False]
  have lg: "is_finite (flog D)" "\<bar>valof (flog D)\<bar> \<le> 2 powi 5" by (simp_all add: log_eq)
  have "rnd32 (ln (valof D)) \<le> 0" using hi by (rule rnd32_nonpos)
  moreover have "\<bar>rnd32 (ln (valof D))\<bar> < 2 ^ 128"
  proof -
    have "0 \<le> rnd32 (- ln (valof D))" using hi by (intro rnd32_nonneg) simp
    moreover have "rnd32 (- ln (valof D)) \<le> 2 powi 5"
      using lo by (intro rnd32_le_threshold) simp_all
    ultimately show ?thesis by (simp add: rnd32_minus)
  qed
  ultimately have "valof (flog D) \<le> 0" unfolding log_eq by (simp only: mk_finite(2))
  then have L: "is_finite L" "0 \<le> valof L" "valof L \<le> 2 powi 5"
    unfolding L_def using fneg_finite [OF lg(1)] lg(2) by simp_all
  have T_eq: "T = mk (sign_bit A \<noteq> sign_bit L) (valof A * valof L)"
    unfolding T_def using A(1) L(1) by (rule fmul_finite)
  have "valof A * valof L \<le> 2 powi 100 * 2 powi 5"
    using A(2,3) L(2,3) by (intro mult_mono) simp_all
  then have "valof A * valof L \<le> 2 powi 124" by simp
  moreover have "0 \<le> valof A * valof L" using A(2) L(2) by simp
  ultimately have T: "is_finite T" "0 \<le> valof T" "valof T \<le> 2 powi 124"
    using mk_within0 [of "valof A * valof L" 124 "sign_bit A \<noteq> sign_bit L"]
    by (simp_all add: T_eq)
  have eq: "beckmannCosThetaM_f32 roughness rSample = fdiv (Fin 1) (fsqrt (fadd (Fin 1) T))"
    unfolding beckmannCosThetaM_f32_def T_def L_def A_def D_def ..
  show "is_finite (beckmannCosThetaM_f32 roughness rSample)"
    and "2 powi (- 63) \<le> valof (beckmannCosThetaM_f32 roughness rSample)"
    and "valof (beckmannCosThetaM_f32 roughness rSample) \<le> 1"
    unfolding eq by (rule cos_from_tan_f32 [OF T])+
qed

lemma sinThetaM_f32_range:
  assumes c: "is_finite c" "0 \<le> valof c" "valof c \<le> 1"
  shows "is_finite (fsqrt (fmax (Fin 0) (fsub (Fin 1) (fmul c c))))"
    and "\<bar>valof (fsqrt (fmax (Fin 0) (fsub (Fin 1) (fmul c c))))\<bar> \<le> 1"
proof -
  define CC where "CC = fmul c c"
  define W where "W = fsub (Fin 1) CC"
  define M where "M = fmax (Fin 0) W"
  have CC_eq: "CC = mk False (valof c * valof c)" unfolding CC_def using c(1) by (simp add: fmul_finite)
  have "valof c * valof c \<le> 1 * 1" using c(2,3) by (intro mult_mono) simp_all
  moreover have "0 \<le> valof c * valof c" by simp
  ultimately have CC: "is_finite CC" "0 \<le> valof CC" "valof CC \<le> 1"
    using mk_within0 [of "valof c * valof c" 0 False] by (simp_all add: CC_eq)
  have W_eq: "W = mk (sign_bit (Fin 1) \<and> sign_bit (fneg CC)) (1 - valof CC)"
    unfolding W_def using CC(1) by (simp add: fsub_finite)
  have W: "is_finite W" "0 \<le> valof W" "valof W \<le> 1"
    using mk_within0 [of "1 - valof CC" 0 "sign_bit (Fin 1) \<and> sign_bit (fneg CC)"] CC(2,3)
    by (simp_all add: W_eq)
  have M_cases: "M = W \<and> 0 < valof W \<or> M = Fin 0"
    unfolding M_def fmax_def flt_def using W(1) by (cases W) simp_all
  have "is_finite (fsqrt M) \<and> \<bar>valof (fsqrt M)\<bar> \<le> 1"
  proof (rule disjE [OF M_cases])
    assume "M = Fin 0"
    then show ?thesis by (simp add: fsqrt_def zero_of_def)
  next
    assume m: "M = W \<and> 0 < valof W"
    then have eq: "fsqrt M = mk False (sqrt (valof W))" using W(1) by (simp add: fsqrt_finite)
    have "sqrt (valof W) \<le> 1" using W(3) by simp
    moreover have "0 \<le> sqrt (valof W)" using W(2) by simp
    ultimately show ?thesis
      using mk_within0 [of "sqrt (valof W)" 0 False] by (simp add: eq)
  qed
  then show "is_finite (fsqrt (fmax (Fin 0) (fsub (Fin 1) (fmul c c))))"
    and "\<bar>valof (fsqrt (fmax (Fin 0) (fsub (Fin 1) (fmul c c))))\<bar> \<le> 1"
    unfolding M_def W_def CC_def by simp_all
qed

lemma fcos_range:
  assumes "is_finite t"
  shows "is_finite (fcos t)" and "\<bar>valof (fcos t)\<bar> \<le> 1"
proof -
  have "is_finite (fcos t) \<and> \<bar>valof (fcos t)\<bar> \<le> 1"
  proof (rule disjE [OF is_finite_cases [OF assms]])
    assume t: "t = Fin (valof t)"
    have "fcos t = fcos (Fin (valof t))" by (subst t) (rule refl)
    then have eq: "fcos t = mk False (cos (valof t))" by (simp add: fcos_def)
    show ?thesis using mk_abs_within [of "cos (valof t)" 0 False] by (simp add: eq)
  next
    assume "t = NZero"
    then show ?thesis by (simp add: fcos_def)
  qed
  then show "is_finite (fcos t)" and "\<bar>valof (fcos t)\<bar> \<le> 1" by simp_all
qed

lemma fsin_range:
  assumes "is_finite t"
  shows "is_finite (fsin t)" and "\<bar>valof (fsin t)\<bar> \<le> 1"
proof -
  have "is_finite (fsin t) \<and> \<bar>valof (fsin t)\<bar> \<le> 1"
  proof (rule disjE [OF is_finite_cases [OF assms]])
    assume t: "t = Fin (valof t)"
    have "fsin t = fsin (Fin (valof t))" by (subst t) (rule refl)
    then have eq: "fsin t = mk False (sin (valof t))" by (simp add: fsin_def)
    show ?thesis using mk_abs_within [of "sin (valof t)" 0 False] by (simp add: eq)
  next
    assume "t = NZero"
    then show ?thesis by (simp add: fsin_def)
  qed
  then show "is_finite (fsin t)" and "\<bar>valof (fsin t)\<bar> \<le> 1" by simp_all
qed

lemma fmul_unit_range:
  assumes "is_finite a" "\<bar>valof a\<bar> \<le> 1" "is_finite b" "\<bar>valof b\<bar> \<le> 1"
  shows "is_finite (fmul a b)" and "\<bar>valof (fmul a b)\<bar> \<le> 1"
proof -
  have eq: "fmul a b = mk (sign_bit a \<noteq> sign_bit b) (valof a * valof b)"
    using assms(1,3) by (rule fmul_finite)
  have "\<bar>valof a\<bar> * \<bar>valof b\<bar> \<le> 1 * 1" using assms(2,4) by (intro mult_mono) simp_all
  then have "\<bar>valof a * valof b\<bar> \<le> 2 powi 0" by (simp add: abs_mult)
  from mk_abs_within [OF this, of "sign_bit a \<noteq> sign_bit b"]
  show "is_finite (fmul a b)" and "\<bar>valof (fmul a b)\<bar> \<le> 1" by (simp_all add: eq)
qed

lemma angle_f32_finite:
  assumes "is_finite v" and "\<bar>valof v\<bar> \<le> 1"
  shows "is_finite (fmul (fmul (Fin 2) M_PIf_f32) v)"
proof -
  have tp: "fmul (Fin 2) M_PIf_f32 = Fin (13176795 / 2097152)"
    unfolding M_PIf_f32_def using mk_2pi by (simp add: fmul_def is_inf_def)
  have "\<bar>13176795 / 2097152 * valof v\<bar> \<le> 8 * 1"
    unfolding abs_mult using assms(2) by (intro mult_mono) simp_all
  then have "\<bar>13176795 / 2097152 * valof v\<bar> \<le> 2 powi 3" by simp
  from mk_abs_within(1) [OF this]
  show ?thesis unfolding tp using assms(1) by (simp add: fmul_finite)
qed

lemma microfacetNormal_f32_range:
  assumes c: "is_finite c" "0 \<le> valof c" "valof c \<le> 1"
    and v: "is_finite (fvec2_y rSample)" "\<bar>valof (fvec2_y rSample)\<bar> \<le> 1"
  shows "fvec3_z (microfacetNormal_f32 c rSample) = c"
    and "is_finite (fvec3_x (microfacetNormal_f32 c rSample))"
    and "\<bar>valof (fvec3_x (microfacetNormal_f32 c rSample))\<bar> \<le> 1"
    and "is_finite (fvec3_y (microfacetNormal_f32 c rSample))"
    and "\<bar>valof (fvec3_y (microfacetNormal_f32 c rSample))\<bar> \<le> 1"
proof -
  note s = sinThetaM_f32_range [OF c]
  note t = angle_f32_finite [OF v]
  show "fvec3_z (microfacetNormal_f32 c rSample) = c"
    by (simp add: microfacetNormal_f32_def Let_def)
  show "is_finite (fvec3_x (microfacetNormal_f32 c rSample))"
    and "\<bar>valof (fvec3_x (microfacetNormal_f32 c rSample))\<bar> \<le> 1"
    unfolding microfacetNormal_f32_def Let_def fvec3.sel
    by (rule fmul_unit_range [OF s fcos_range [OF t]])+
  show "is_finite (fvec3_y (microfacetNormal_f32 c rSample))"
    and "\<bar>valof (fvec3_y (microfacetNormal_f32 c rSample))\<bar> \<le> 1"
    unfolding microfacetNormal_f32_def Let_def fvec3.sel
    by (rule fmul_unit_range [OF s fsin_range [OF t]])+
qed

lemma sampleBeckmannDistribution_f32_m:
  "fout_m (snd (sampleBeckmannDistribution_f32 wo roughness rSample out0)) =
     microfacetNormal_f32 (beckmannCosThetaM_f32 roughness rSample) rSample"
  unfolding sampleBeckmannDistribution_f32_parts Let_def
  by (simp only: if_distrib [of snd] if_distrib [of fout_m] snd_conv fsample_out.simps if_cancel)

lemma sampleGGXDistribution_f32_m:
  "fout_m (snd (sampleGGXDistribution_f32 wo roughness rSample out0)) =
     microfacetNormal_f32 (ggxCosThetaM_f32 roughness rSample) rSample"
  unfolding sampleGGXDistribution_f32_parts Let_def
  by (simp only: if_distrib [of snd] if_distrib [of fout_m] snd_conv fsample_out.simps if_cancel)

lemma sampleBeckmannDistribution_f32_overwrites:
  "sampleBeckmannDistribution_f32 wo roughness rSample out0 =
   sampleBeckmannDistribution_f32 wo roughness rSample out1"
  by (simp only: sampleBeckmannDistribution_f32_parts)

lemma sampleGGXDistribution_f32_overwrites:
  "sampleGGXDistribution_f32 wo roughness rSample out0 =
   sampleGGXDistribution_f32 wo roughness rSample out1"
  by (simp only: sampleGGXDistribution_f32_parts)

subsection \<open>Rounding is idempotent; the rounding error on the unit interval\<close>

lemma binade_eqI:
  assumes "0 < y" and "y < 2 powi (e + 1)" and "2 powi e \<le> y \<or> e = - 126" and "- 126 \<le> e"
  shows "binade y = e"
proof (cases "2 powi e \<le> y")
  case True
  then show ?thesis using assms(2,4) by (rule binade_normal)
next
  case False
  then have e: "e = - 126" using assms(3) by simp
  from False have "y < 2 powi (- 126)" unfolding e by simp
  with assms(1) show ?thesis unfolding e by (rule binade_subnormal)
qed

lemma rmag_grid:
  assumes "(0::real) < of_int n" and "of_int n < (2::real) ^ 24"
    and "2 ^ 23 \<le> (of_int n :: real) \<or> e = - 126" and "- 126 \<le> e"
  shows "rmag (of_int n * 2 powi (e - 23)) = of_int n * 2 powi (e - 23)"
proof -
  define u :: real where "u = 2 powi (e - 23)"
  have u: "0 < u" by (simp add: u_def)
  have top: "2 ^ 24 * u = 2 powi (e + 1)"
    unfolding u_def by (simp add: power_int_add power_int_diff)
  have bot: "2 ^ 23 * u = 2 powi e"
    unfolding u_def by (simp add: power_int_diff)
  have "0 < of_int n * u" using assms(1) u by simp
  moreover have "of_int n * u < 2 powi (e + 1)"
    unfolding top [symmetric] using assms(2) u by simp
  moreover have "2 powi e \<le> of_int n * u \<or> e = - 126"
    unfolding bot [symmetric] using assms(3) u by auto
  ultimately have b: "binade (of_int n * u) = e" using assms(4) by (rule binade_eqI)
  have "rmag (of_int n * u) = of_int (round_even (of_int n * u / u)) * u"
    by (simp only: rmag_def Let_def b u_def [symmetric])
  also have "of_int n * u / u = of_int n" using u by simp
  finally show ?thesis unfolding u_def by simp
qed

lemma rmag_idem:
  assumes "0 < x"
  shows "rmag (rmag x) = rmag x"
proof -
  define e where "e = binade x"
  define u :: real where "u = 2 powi (e - 23)"
  define n where "n = round_even (x / u)"
  have u: "0 < u" by (simp add: u_def)
  have e: "- 126 \<le> e" unfolding e_def by (rule binade_ge)
  have r: "rmag x = of_int n * u" unfolding rmag_def Let_def n_def u_def e_def ..
  have top: "2 ^ 24 * u = 2 powi (e + 1)"
    unfolding u_def by (simp add: power_int_add power_int_diff)
  have bot: "2 ^ 23 * u = 2 powi e"
    unfolding u_def by (simp add: power_int_diff)
  have "x < 2 ^ 24 * u" unfolding top e_def using assms by (rule binade_upper)
  then have "x / u \<le> of_int (2 ^ 24)" using u by (simp add: pos_divide_le_eq)
  then have n_le: "n \<le> 2 ^ 24" unfolding n_def by (rule round_even_le)
  have "of_int 0 \<le> x / u" using assms u by simp
  then have n_ge: "0 \<le> n" unfolding n_def by (rule round_even_ge)
  consider "n = 0" | "n = 2 ^ 24" | "0 < n" "n < 2 ^ 24" using n_le n_ge by linarith
  then show ?thesis
  proof cases
    case 1
    have "round_even 0 = 0" using round_even_of_int [of 0] by simp
    then show ?thesis unfolding r 1 by (simp add: rmag_def)
  next
    case 2
    have v: "of_int n * u = 2 powi (e + 1)" unfolding 2 using top by simp
    have "binade (2 powi (e + 1)) = e + 1"
      using e by (intro binade_normal power_int_strict_increasing) simp_all
    then have "rmag (2 powi (e + 1)) =
        of_int (round_even (2 powi (e + 1) / 2 powi (e + 1 - 23))) * 2 powi (e + 1 - 23)"
      unfolding rmag_def Let_def by simp
    also have "2 powi (e + 1) / 2 powi (e + 1 - 23) = (of_int (2 ^ 23) :: real)"
      by (simp add: power_int_diff power_int_add)
    also have "of_int (round_even (of_int (2 ^ 23))) * 2 powi (e + 1 - 23) = (2::real) powi (e + 1)"
      unfolding round_even_of_int by (simp add: power_int_diff power_int_add)
    finally show ?thesis unfolding r v .
  next
    case 3
    have "2 ^ 23 \<le> (of_int n :: real) \<or> e = - 126"
    proof (cases "2 powi (- 126) \<le> x")
      case True
      then have "2 powi e \<le> x" unfolding e_def by (rule binade_lower)
      then have "of_int (2 ^ 23) \<le> x / u"
        unfolding bot [symmetric] using u by (simp add: pos_le_divide_eq)
      then have "2 ^ 23 \<le> n" unfolding n_def by (rule round_even_ge)
      then have "(of_int (2 ^ 23) :: real) \<le> of_int n" by (simp only: of_int_le_iff)
      then show ?thesis by simp
    next
      case False
      then have "binade x = - 126" using assms by (intro binade_subnormal) simp_all
      then show ?thesis by (simp add: e_def)
    qed
    moreover have "0 < (of_int n :: real)" "(of_int n :: real) < 2 ^ 24"
      using 3 by (simp_all add: of_int_less_numeral_power_cancel_iff [symmetric] del: of_int_less_numeral_power_cancel_iff)
    ultimately show ?thesis unfolding r u_def using e by (intro rmag_grid) simp_all
  qed
qed

lemma rnd32_idem: "rnd32 (rnd32 x) = rnd32 x"
proof -
  have pos: "rnd32 (rmag y) = rmag y" if "0 < y" for y
  proof (cases "rmag y = 0")
    case True
    then show ?thesis by simp
  next
    case False
    then have "0 < rmag y" using rmag_nonneg [of y] that by simp
    then show ?thesis using rmag_idem [OF that] by (simp add: rnd32_pos)
  qed
  consider "x = 0" | "0 < x" | "x < 0" by linarith
  then show ?thesis
  proof cases
    case 1
    then show ?thesis by simp
  next
    case 2
    then show ?thesis using pos [OF 2] by (simp add: rnd32_pos)
  next
    case 3
    then have p: "0 < - x" by simp
    have "rnd32 x = - rmag (- x)" using rnd32_neg [OF p] by simp
    then show ?thesis using pos [OF p] by (simp add: rnd32_minus)
  qed
qed

lemma rnd32_pos_ge_min:
  assumes "0 < rnd32 x"
  shows "2 powi (- 149) \<le> rnd32 x"
proof -
  have x: "0 < x" using assms by (rule rnd32_pos_imp)
  define u :: real where "u = 2 powi (binade x - 23)"
  define n where "n = round_even (x / u)"
  have r: "rnd32 x = of_int n * u" unfolding rnd32_pos [OF x] rmag_def Let_def n_def u_def ..
  have u: "0 < u" by (simp add: u_def)
  have "0 < n" using assms u unfolding r by (simp add: zero_less_mult_iff)
  then have "1 \<le> (of_int n :: real)" by simp
  then have "1 * u \<le> of_int n * u" using u by (intro mult_right_mono) simp_all
  then have "u \<le> of_int n * u" by (simp only: mult_1)
  moreover have "2 powi (- 149) \<le> u"
    unfolding u_def using binade_ge [of x] by (intro power_int_increasing) simp_all
  ultimately show ?thesis unfolding r by (rule order_trans [rotated])
qed

lemma rnd32_err_unit:
  assumes "0 \<le> y" and "y \<le> 1"
  shows "rnd32 y \<le> y + 1 / 2 ^ 25"
proof -
  consider "y = 0" | "y = 1" | "0 < y" "y < 1" using assms by linarith
  then show ?thesis
  proof cases
    case 1
    then show ?thesis by simp
  next
    case 2
    then show ?thesis using rnd32_1 by simp
  next
    case 3
    define u :: real where "u = 2 powi (binade y - 23)"
    have u: "0 < u" by (simp add: u_def)
    have "log 2 y < 0" using 3 by simp
    then have "\<lfloor>log 2 y\<rfloor> < 0" by (simp only: floor_less_iff of_int_0)
    then have "max \<lfloor>log 2 y\<rfloor> (- 126) \<le> - 1" by linarith
    then have "binade y \<le> - 1" by (simp only: binade_def)
    then have "u \<le> 2 powi (- 24)" unfolding u_def by (intro power_int_increasing) simp_all
    then have ub: "u / 2 \<le> 1 / 2 ^ 25" by (simp add: power_int_minus field_simps)
    have "of_int (round_even (y / u)) \<le> y / u + 1 / 2" by (rule round_even_bounds)
    then have "of_int (round_even (y / u)) * u \<le> (y / u + 1 / 2) * u"
      using u by (intro mult_right_mono) simp_all
    also have "\<dots> = y + u / 2" using u by (simp add: field_simps)
    finally have "rmag y \<le> y + u / 2" unfolding rmag_def Let_def u_def .
    then show ?thesis using ub 3(1) by (simp add: rnd32_pos)
  qed
qed

lemma rnd32_one_plus: "rnd32 (1 + 1 / 2 ^ 25) = 1"
proof -
  have "rnd32 (1 + 1 / 2 ^ 25) = of_int (2 ^ 23) * 2 powi (0 - 23)"
    by (rule rnd32_normal(1)) (simp_all add: power_int_minus)
  then show ?thesis by (simp add: power_int_minus)
qed

lemma rnd32_FLT_MAX: "rnd32 FLT_MAX = FLT_MAX"
proof -
  have "rnd32 FLT_MAX = of_int (2 ^ 24 - 1) * 2 powi (127 - 23)"
    unfolding FLT_MAX_def by (rule rnd32_normal(1)) simp_all
  then show ?thesis by (simp add: FLT_MAX_def)
qed

lemma rnd32_FLT_MAX_plus: "rnd32 (FLT_MAX + 1) = FLT_MAX"
proof -
  have "rnd32 (FLT_MAX + 1) = of_int (2 ^ 24 - 1) * 2 powi (127 - 23)"
    unfolding FLT_MAX_def by (rule rnd32_normal(1)) simp_all
  then show ?thesis by (simp add: FLT_MAX_def)
qed

lemma FLT_MAX_less: "FLT_MAX < 2 ^ 128" "0 < FLT_MAX" "1 \<le> FLT_MAX"
  by (simp_all add: FLT_MAX_def)

lemma mk_val:
  assumes "\<bar>x\<bar> \<le> 2 powi l" and "- 149 \<le> l" and "l \<le> 127"
  shows "is_finite (mk neg x)" and "valof (mk neg x) = rnd32 x"
proof -
  have r: "\<bar>rnd32 x\<bar> \<le> 2 powi l"
  proof (cases "0 \<le> x")
    case True
    then have "0 \<le> rnd32 x" by (rule rnd32_nonneg)
    moreover have "rnd32 x \<le> 2 powi l" using assms(1,2) True by (intro rnd32_le_threshold) simp_all
    ultimately show ?thesis by simp
  next
    case False
    then have "0 \<le> rnd32 (- x)" by (intro rnd32_nonneg) simp
    moreover have "rnd32 (- x) \<le> 2 powi l"
      using assms(1,2) False by (intro rnd32_le_threshold) simp_all
    ultimately show ?thesis by (simp add: rnd32_minus)
  qed
  have "(2::real) powi l < 2 powi 128" using assms(3) by (intro power_int_strict_increasing) simp_all
  then have b: "\<bar>rnd32 x\<bar> < 2 ^ 128" using r unfolding pow2_128 by linarith
  show "is_finite (mk neg x)" "valof (mk neg x) = rnd32 x" using b by (rule mk_finite)+
qed

lemma mk_val_max:
  assumes "\<bar>x\<bar> \<le> FLT_MAX + 1"
  shows "is_finite (mk neg x)" and "valof (mk neg x) = rnd32 x" and "\<bar>rnd32 x\<bar> \<le> FLT_MAX"
proof -
  have "rnd32 x \<le> rnd32 (FLT_MAX + 1)" using assms by (intro rnd32_mono) simp
  moreover have "rnd32 (- (FLT_MAX + 1)) \<le> rnd32 x" using assms by (intro rnd32_mono) simp
  ultimately show r: "\<bar>rnd32 x\<bar> \<le> FLT_MAX"
    unfolding rnd32_minus rnd32_FLT_MAX_plus by simp
  then have b: "\<bar>rnd32 x\<bar> < 2 ^ 128" using FLT_MAX_less(1) by linarith
  show "is_finite (mk neg x)" "valof (mk neg x) = rnd32 x" using b by (rule mk_finite)+
qed

lemma fabs_finite: "is_finite a \<Longrightarrow> is_finite (fabs a) \<and> valof (fabs a) = \<bar>valof a\<bar>"
  by (cases a) (simp_all add: fabs_def)

subsection \<open>Ranges of the Fresnel terms\<close>

lemma mk_unit:
  assumes "0 \<le> x" and "x \<le> 1"
  shows "is_finite (mk neg x)" and "0 \<le> valof (mk neg x)" and "valof (mk neg x) \<le> 1"
    and "valof (mk neg x) = rnd32 x"
proof -
  have "x \<le> 2 powi 0" using assms(2) by simp
  from mk_within0 [OF assms(1) this, of neg]
  show "is_finite (mk neg x)" and "0 \<le> valof (mk neg x)" and "valof (mk neg x) \<le> 1"
    by simp_all
  have "\<bar>x\<bar> \<le> 2 powi 0" using assms by simp
  from mk_val(2) [OF this, of neg] show "valof (mk neg x) = rnd32 x" by simp
qed

lemma fmul_unit_nonneg:
  assumes "is_finite a" "0 \<le> valof a" "valof a \<le> 1" "is_finite b" "0 \<le> valof b" "valof b \<le> 1"
  shows "is_finite (fmul a b)" and "0 \<le> valof (fmul a b)" and "valof (fmul a b) \<le> 1"
proof -
  have eq: "fmul a b = mk (sign_bit a \<noteq> sign_bit b) (valof a * valof b)"
    using assms(1,4) by (rule fmul_finite)
  have "valof a * valof b \<le> 1 * 1" using assms by (intro mult_mono) simp_all
  then have "valof a * valof b \<le> 1" by simp
  moreover have "0 \<le> valof a * valof b" using assms by simp
  ultimately show "is_finite (fmul a b)" and "0 \<le> valof (fmul a b)" and "valof (fmul a b) \<le> 1"
    unfolding eq by (rule mk_unit [rotated])+
qed

lemma fsquare_unit:
  assumes "is_finite a" "\<bar>valof a\<bar> \<le> 1"
  shows "is_finite (fmul a a)" and "0 \<le> valof (fmul a a)" and "valof (fmul a a) \<le> 1"
    and "valof (fmul a a) = rnd32 (valof a * valof a)"
proof -
  have eq: "fmul a a = mk (sign_bit a \<noteq> sign_bit a) (valof a * valof a)"
    using assms(1,1) by (rule fmul_finite)
  have "\<bar>valof a\<bar> * \<bar>valof a\<bar> \<le> 1 * 1" using assms by (intro mult_mono) simp_all
  then have "valof a * valof a \<le> 1" by simp
  moreover have "0 \<le> valof a * valof a" by simp
  ultimately show "is_finite (fmul a a)" and "0 \<le> valof (fmul a a)" and "valof (fmul a a) \<le> 1"
    and "valof (fmul a a) = rnd32 (valof a * valof a)"
    unfolding eq by (rule mk_unit [rotated])+
qed

lemma one_minus_unit:
  assumes "is_finite a" "0 \<le> valof a" "valof a \<le> 1"
  shows "is_finite (fsub (Fin 1) a)" and "0 \<le> valof (fsub (Fin 1) a)"
    and "valof (fsub (Fin 1) a) \<le> 1" and "valof (fsub (Fin 1) a) = rnd32 (1 - valof a)"
proof -
  have eq: "fsub (Fin 1) a = mk (sign_bit (Fin 1) \<and> sign_bit (fneg a)) (1 - valof a)"
    using assms(1) by (simp add: fsub_finite)
  have "0 \<le> 1 - valof a" "1 - valof a \<le> 1" using assms by simp_all
  then show "is_finite (fsub (Fin 1) a)" and "0 \<le> valof (fsub (Fin 1) a)"
    and "valof (fsub (Fin 1) a) \<le> 1" and "valof (fsub (Fin 1) a) = rnd32 (1 - valof a)"
    unfolding eq by (rule mk_unit)+
qed

lemma ratio_f32:
  assumes A: "is_finite A" "2 powi (- 138) \<le> valof A" "valof A \<le> FLT_MAX"
    and B: "is_finite B" "0 \<le> valof B" "valof B \<le> 1"
  shows "is_finite (fdiv (fsub A B) (fadd A B))"
    and "\<bar>valof (fdiv (fsub A B) (fadd A B))\<bar> \<le> 1"
    and "is_finite (fdiv (fsub B A) (fadd B A))"
    and "\<bar>valof (fdiv (fsub B A) (fadd B A))\<bar> \<le> 1"
proof -
  define a where "a = valof A"
  define b where "b = valof B"
  have a: "2 powi (- 138) \<le> a" "a \<le> FLT_MAX" using A by (simp_all add: a_def)
  have b: "0 \<le> b" "b \<le> 1" using B by (simp_all add: b_def)
  have apos: "0 < a" using a(1) by (rule less_le_trans [rotated]) simp
  have s: "\<bar>a + b\<bar> \<le> FLT_MAX + 1" "\<bar>a - b\<bar> \<le> FLT_MAX + 1" "\<bar>b - a\<bar> \<le> FLT_MAX + 1"
    "\<bar>b + a\<bar> \<le> FLT_MAX + 1"
    using a(2) b apos by simp_all
  have lo: "2 powi (- 138) \<le> rnd32 (a + b)"
    using a(1) b(1) by (intro rnd32_ge_threshold) simp_all
  then have dpos: "0 < rnd32 (a + b)" by (rule less_le_trans [rotated]) simp
  have n1: "rnd32 (a - b) \<le> rnd32 (a + b)" using b(1) by (intro rnd32_mono) simp
  have n2: "- rnd32 (a + b) \<le> rnd32 (a - b)"
    unfolding rnd32_minus [symmetric] using apos by (intro rnd32_mono) simp
  have n3: "rnd32 (b - a) \<le> rnd32 (a + b)" using apos by (intro rnd32_mono) simp
  have n4: "- rnd32 (a + b) \<le> rnd32 (b - a)"
    unfolding rnd32_minus [symmetric] using b(1) by (intro rnd32_mono) simp
  have add1: "fadd A B = mk (sign_bit A \<and> sign_bit B) (a + b)"
    unfolding a_def b_def using A(1) B(1) by (rule fadd_finite)
  have add2: "fadd B A = mk (sign_bit B \<and> sign_bit A) (b + a)"
    unfolding a_def b_def using B(1) A(1) by (rule fadd_finite)
  have sub1: "fsub A B = mk (sign_bit A \<and> sign_bit (fneg B)) (a - b)"
    unfolding a_def b_def using A(1) B(1) by (rule fsub_finite)
  have sub2: "fsub B A = mk (sign_bit B \<and> sign_bit (fneg A)) (b - a)"
    unfolding a_def b_def using B(1) A(1) by (rule fsub_finite)
  have d1: "is_finite (fadd A B)" "valof (fadd A B) = rnd32 (a + b)"
    unfolding add1 by (rule mk_val_max [OF s(1)])+
  have d2: "is_finite (fadd B A)" "valof (fadd B A) = rnd32 (a + b)"
    unfolding add2 using mk_val_max(1,2) [OF s(4)] by (simp_all add: add.commute)
  have m1: "is_finite (fsub A B)" "valof (fsub A B) = rnd32 (a - b)"
    unfolding sub1 by (rule mk_val_max [OF s(2)])+
  have m2: "is_finite (fsub B A)" "valof (fsub B A) = rnd32 (b - a)"
    unfolding sub2 by (rule mk_val_max [OF s(3)])+
  have q1: "fdiv (fsub A B) (fadd A B) =
      mk (sign_bit (fsub A B) \<noteq> sign_bit (fadd A B)) (rnd32 (a - b) / rnd32 (a + b))"
    using fdiv_finite [OF m1(1) d1(1)] dpos unfolding m1(2) d1(2) by simp
  have q2: "fdiv (fsub B A) (fadd B A) =
      mk (sign_bit (fsub B A) \<noteq> sign_bit (fadd B A)) (rnd32 (b - a) / rnd32 (a + b))"
    using fdiv_finite [OF m2(1) d2(1)] dpos unfolding m2(2) d2(2) by simp
  have r1: "\<bar>rnd32 (a - b) / rnd32 (a + b)\<bar> \<le> 2 powi 0"
    using n1 n2 dpos by (simp add: abs_le_iff pos_divide_le_eq pos_le_divide_eq)
  have r2: "\<bar>rnd32 (b - a) / rnd32 (a + b)\<bar> \<le> 2 powi 0"
    using n3 n4 dpos by (simp add: abs_le_iff pos_divide_le_eq pos_le_divide_eq)
  show "is_finite (fdiv (fsub A B) (fadd A B))"
    and "\<bar>valof (fdiv (fsub A B) (fadd A B))\<bar> \<le> 1"
    unfolding q1 using mk_abs_within [OF r1] by simp_all
  show "is_finite (fdiv (fsub B A) (fadd B A))"
    and "\<bar>valof (fdiv (fsub B A) (fadd B A))\<bar> \<le> 1"
    unfolding q2 using mk_abs_within [OF r2] by simp_all
qed

lemma half_sum_unit:
  assumes "is_finite p" "0 \<le> valof p" "valof p \<le> 1" "is_finite s" "0 \<le> valof s" "valof s \<le> 1"
  shows "is_finite (fmul (fadd p s) (Fin (1 / 2)))"
    and "0 \<le> valof (fmul (fadd p s) (Fin (1 / 2)))"
    and "valof (fmul (fadd p s) (Fin (1 / 2))) \<le> 1"
proof -
  have eq: "fadd p s = mk (sign_bit p \<and> sign_bit s) (valof p + valof s)"
    using assms(1,4) by (rule fadd_finite)
  have "0 \<le> valof p + valof s" "valof p + valof s \<le> 2 powi 1" using assms by simp_all
  from mk_within0 [OF this, of "sign_bit p \<and> sign_bit s"]
  have S: "is_finite (fadd p s)" "0 \<le> valof (fadd p s)" "valof (fadd p s) \<le> 2"
    by (simp_all add: eq)
  have eq2: "fmul (fadd p s) (Fin (1 / 2)) =
      mk (sign_bit (fadd p s) \<noteq> sign_bit (Fin (1 / 2))) (valof (fadd p s) * (1 / 2))"
    using fmul_finite [OF S(1), of "Fin (1 / 2)"] by simp
  have "0 \<le> valof (fadd p s) * (1 / 2)" "valof (fadd p s) * (1 / 2) \<le> 1" using S by simp_all
  then show "is_finite (fmul (fadd p s) (Fin (1 / 2)))"
    and "0 \<le> valof (fmul (fadd p s) (Fin (1 / 2)))"
    and "valof (fmul (fadd p s) (Fin (1 / 2))) \<le> 1"
    unfolding eq2 by (rule mk_unit)+
qed

lemma dielectricFresnel_f32_range:
  assumes I: "is_finite IoR" "1 / 2 ^ 63 \<le> valof IoR" "valof IoR \<le> FLT_MAX"
    and C: "is_finite NdE" "0 \<le> valof NdE" "valof NdE \<le> 1"
  shows "is_finite (dielectricFresnel_f32 NdE IoR)
         \<and> 0 \<le> valof (dielectricFresnel_f32 NdE IoR)
         \<and> valof (dielectricFresnel_f32 NdE IoR) \<le> 1"
proof -
  define i where "i = valof IoR"
  have i: "2 powi (- 63) \<le> i" "i \<le> FLT_MAX"
    using I(2,3) by (simp_all add: i_def power_int_minus field_simps)
  have ipos: "0 < i" using i(1) by (rule less_le_trans [rotated]) simp
  define RI where "RI = fdiv (Fin 1) IoR"
  define R2 where "R2 = fmul RI RI"
  define C2 where "C2 = fmul NdE NdE"
  define OM where "OM = fsub (Fin 1) C2"
  define P where "P = fmul R2 OM"
  define N2 where "N2 = fsub (Fin 1) P"
  define L where "L = fsqrt N2"
  define E where "E = fabs NdE"
  define A where "A = fmul IoR L"
  have guard: "fle (Fin 0) NdE" using C(1,2) by (simp add: fle_finite)
  have RI_eq: "RI = mk (sign_bit (Fin 1) \<noteq> sign_bit IoR) (1 / i)"
    unfolding RI_def i_def using fdiv_finite [of "Fin 1" IoR] I(1) ipos by (simp add: i_def)
  have "1 / i \<le> 1 / 2 powi (- 63)" using i(1) by (intro divide_left_mono) simp_all
  then have "1 / i \<le> 2 powi 63" by (simp add: power_int_minus)
  moreover have "0 \<le> 1 / i" using ipos by simp
  ultimately have RI: "is_finite RI" "0 \<le> valof RI" "valof RI \<le> 2 powi 63"
    using mk_within0 [of "1 / i" 63 "sign_bit (Fin 1) \<noteq> sign_bit IoR"] by (simp_all add: RI_eq)
  have R2_eq: "R2 = mk (sign_bit RI \<noteq> sign_bit RI) (valof RI * valof RI)"
    unfolding R2_def using RI(1,1) by (rule fmul_finite)
  have "valof RI * valof RI \<le> 2 powi 63 * 2 powi 63" using RI(2,3) by (intro mult_mono) simp_all
  then have "valof RI * valof RI \<le> 2 powi 126" by simp
  moreover have "0 \<le> valof RI * valof RI" by simp
  ultimately have R2: "is_finite R2" "0 \<le> valof R2" "valof R2 \<le> 2 powi 126"
    using mk_within0 [of "valof RI * valof RI" 126 "sign_bit RI \<noteq> sign_bit RI"]
    by (simp_all add: R2_eq)
  have "\<bar>valof NdE\<bar> \<le> 1" using C(2,3) by simp
  note C2 = fsquare_unit(1-3) [OF C(1) this, folded C2_def]
  note OM = one_minus_unit(1-3) [OF C2, folded OM_def]
  have P_eq: "P = mk (sign_bit R2 \<noteq> sign_bit OM) (valof R2 * valof OM)"
    unfolding P_def using R2(1) OM(1) by (rule fmul_finite)
  have "valof R2 * valof OM \<le> 2 powi 126 * 1" using R2(2,3) OM(2,3) by (intro mult_mono) simp_all
  then have "valof R2 * valof OM \<le> 2 powi 126" by simp
  moreover have "0 \<le> valof R2 * valof OM" using R2(2) OM(2) by simp
  ultimately have P: "is_finite P" "0 \<le> valof P" "valof P \<le> 2 powi 126"
    using mk_within0 [of "valof R2 * valof OM" 126 "sign_bit R2 \<noteq> sign_bit OM"]
    by (simp_all add: P_eq)
  have N2_eq: "N2 = mk (sign_bit (Fin 1) \<and> sign_bit (fneg P)) (1 - valof P)"
    unfolding N2_def using P(1) by (simp add: fsub_finite)
  have "(1::real) \<le> 2 powi 126" by simp
  then have "\<bar>1 - valof P\<bar> \<le> 2 powi 126" using P(2,3) by (simp add: abs_le_iff)
  then have N2: "is_finite N2" "valof N2 = rnd32 (1 - valof P)"
    unfolding N2_eq using mk_val [of "1 - valof P" 126] by simp_all
  have N2_le: "valof N2 \<le> 1"
    unfolding N2(2) using P(2) rnd32_le_threshold [of "1 - valof P" 0] by simp
  have unfolded: "dielectricFresnel_f32 NdE IoR =
      (if fle N2 (Fin 0) then Fin 1
       else fmul (fadd (fmul (fdiv (fsub A E) (fadd A E)) (fdiv (fsub A E) (fadd A E)))
                       (fmul (fdiv (fsub E A) (fadd E A)) (fdiv (fsub E A) (fadd E A))))
                 (Fin (1 / 2)))"
    unfolding dielectricFresnel_f32_def Let_def A_def E_def L_def N2_def P_def OM_def C2_def
      R2_def RI_def using guard by (simp only: if_True)
  show ?thesis
  proof (cases "fle N2 (Fin 0)")
    case True
    then show ?thesis unfolding unfolded by simp
  next
    case False
    then have pos: "0 < valof N2" using N2(1) by (simp add: fle_finite)
    then have "0 < rnd32 (1 - valof P)" by (simp only: N2(2))
    then have "2 powi (- 149) \<le> rnd32 (1 - valof P)" by (rule rnd32_pos_ge_min)
    then have N2_ge: "2 powi (- 149) \<le> valof N2" by (simp only: N2(2))
    have L_eq: "L = mk False (sqrt (valof N2))" unfolding L_def using N2(1) pos by (rule fsqrt_finite)
    have "sqrt ((2 powi (- 75)) ^ 2) \<le> sqrt (valof N2)"
    proof (rule real_sqrt_le_mono)
      have "((2::real) powi (- 75)) ^ 2 = 2 powi (- 150)"
        by (simp add: power_int_minus power2_eq_square)
      also have "\<dots> \<le> 2 powi (- 149)" by (intro power_int_increasing) simp_all
      finally show "((2::real) powi (- 75)) ^ 2 \<le> valof N2" using N2_ge by simp
    qed
    then have "2 powi (- 75) \<le> sqrt (valof N2)" by (subst (asm) real_sqrt_abs) simp
    moreover have "sqrt (valof N2) \<le> 2 powi 0" using N2_le by simp
    ultimately have Lr: "is_finite L" "2 powi (- 75) \<le> valof L" "valof L \<le> 1"
      using mk_within [of "- 75" "sqrt (valof N2)" 0 False] by (simp_all add: L_eq)
    have E: "is_finite E" "0 \<le> valof E" "valof E \<le> 1"
      unfolding E_def using fabs_finite [OF C(1)] C(2,3) by simp_all
    have A_eq: "A = mk (sign_bit IoR \<noteq> sign_bit L) (i * valof L)"
      unfolding A_def i_def using I(1) Lr(1) by (rule fmul_finite)
    have Lpos: "0 < valof L" using Lr(2) by (rule less_le_trans [rotated]) simp
    have up: "i * valof L \<le> FLT_MAX * 1" using i(2) Lr(3) Lpos ipos by (intro mult_mono) simp_all
    have "2 powi (- 63) * 2 powi (- 75) \<le> i * valof L"
      using i(1) Lr(2) ipos by (intro mult_mono) simp_all
    then have dn: "2 powi (- 138) \<le> i * valof L" by (simp add: power_int_minus)
    have "\<bar>i * valof L\<bar> \<le> FLT_MAX + 1" using up ipos Lpos by simp
    note Av = mk_val_max(1,2) [OF this, of "sign_bit IoR \<noteq> sign_bit L", folded A_eq]
    have "rnd32 (i * valof L) \<le> rnd32 FLT_MAX" using up by (intro rnd32_mono) simp
    then have A_le: "valof A \<le> FLT_MAX" unfolding Av(2) rnd32_FLT_MAX .
    have A_ge: "2 powi (- 138) \<le> valof A"
      unfolding Av(2) using dn by (rule rnd32_ge_threshold) simp
    note R = ratio_f32 [OF Av(1) A_ge A_le E]
    note Rp2 = fsquare_unit(1-3) [OF R(1,2)]
    note Rs2 = fsquare_unit(1-3) [OF R(3,4)]
    show ?thesis unfolding unfolded using False half_sum_unit [OF Rp2 Rs2] by simp
  qed
qed

lemma fmul_shrink:
  assumes a: "is_finite a" "0 \<le> valof a" "valof a \<le> 1" "rnd32 (valof a) = valof a"
    and b: "is_finite b" "0 \<le> valof b" "valof b \<le> 1"
  shows "is_finite (fmul a b)" and "0 \<le> valof (fmul a b)" and "valof (fmul a b) \<le> valof a"
    and "rnd32 (valof (fmul a b)) = valof (fmul a b)"
proof -
  have eq: "fmul a b = mk (sign_bit a \<noteq> sign_bit b) (valof a * valof b)"
    using a(1) b(1) by (rule fmul_finite)
  have le: "valof a * valof b \<le> valof a * 1" using a(2) b(3) by (intro mult_left_mono) simp_all
  then have "valof a * valof b \<le> 1" using a(3) by simp
  moreover have nn: "0 \<le> valof a * valof b" using a(2) b(2) by simp
  ultimately have m: "is_finite (fmul a b)" "0 \<le> valof (fmul a b)"
    "valof (fmul a b) = rnd32 (valof a * valof b)"
    unfolding eq by (rule mk_unit [rotated])+
  show "is_finite (fmul a b)" "0 \<le> valof (fmul a b)" by (rule m)+
  have "rnd32 (valof a * valof b) \<le> rnd32 (valof a)" using le by (intro rnd32_mono) simp
  then show "valof (fmul a b) \<le> valof a" unfolding m(3) a(4) .
  show "rnd32 (valof (fmul a b)) = valof (fmul a b)" unfolding m(3) by (rule rnd32_idem)
qed

lemma dielectricFresnelSchlick_f32_range:
  assumes I: "is_finite IoR" "0 \<le> valof IoR" "valof IoR \<le> FLT_MAX"
    and C: "is_finite VdH" "0 \<le> valof VdH" "valof VdH \<le> 1"
  shows "is_finite (dielectricFresnelSchlick_f32 VdH IoR)
         \<and> 0 \<le> valof (dielectricFresnelSchlick_f32 VdH IoR)
         \<and> valof (dielectricFresnelSchlick_f32 VdH IoR) \<le> 1"
proof -
  define i where "i = valof IoR"
  have i: "0 \<le> i" "i \<le> FLT_MAX" using I(2,3) by (simp_all add: i_def)
  define Nm where "Nm = fsub (Fin 1) IoR"
  define Dn where "Dn = fadd (Fin 1) IoR"
  define r where "r = fdiv Nm Dn"
  define R0 where "R0 = fmul r r"
  define O1 where "O1 = fsub (Fin 1) VdH"
  define O2 where "O2 = fmul O1 O1"
  define W where "W = fsub (Fin 1) R0"
  define T1 where "T1 = fmul W O1"
  define T2 where "T2 = fmul T1 O2"
  define T3 where "T3 = fmul T2 O2"
  have Nm_eq: "Nm = mk (sign_bit (Fin 1) \<and> sign_bit (fneg IoR)) (1 - i)"
    unfolding Nm_def i_def using I(1) by (simp add: fsub_finite)
  have Dn_eq: "Dn = mk (sign_bit (Fin 1) \<and> sign_bit IoR) (1 + i)"
    unfolding Dn_def i_def using I(1) by (simp add: fadd_finite)
  have s: "\<bar>1 - i\<bar> \<le> FLT_MAX + 1" "\<bar>1 + i\<bar> \<le> FLT_MAX + 1" using i by simp_all
  note Nm = mk_val_max(1,2) [OF s(1), of "sign_bit (Fin 1) \<and> sign_bit (fneg IoR)", folded Nm_eq]
  note Dn = mk_val_max(1,2) [OF s(2), of "sign_bit (Fin 1) \<and> sign_bit IoR", folded Dn_eq]
  have "2 powi 0 \<le> rnd32 (1 + i)" using i(1) by (intro rnd32_ge_threshold) simp_all
  then have d1: "1 \<le> valof Dn" unfolding Dn(2) by simp
  have n1: "valof Nm \<le> valof Dn" unfolding Nm(2) Dn(2) using i(1) by (intro rnd32_mono) simp
  have n2: "- valof Dn \<le> valof Nm"
    unfolding Nm(2) Dn(2) rnd32_minus [symmetric] by (intro rnd32_mono) simp
  have r_eq: "r = mk (sign_bit Nm \<noteq> sign_bit Dn) (valof Nm / valof Dn)"
    unfolding r_def using Nm(1) Dn(1) d1 by (intro fdiv_finite) simp_all
  have "\<bar>valof Nm / valof Dn\<bar> \<le> 2 powi 0"
    using n1 n2 d1 by (simp add: abs_le_iff pos_divide_le_eq pos_le_divide_eq)
  from mk_abs_within [OF this, of "sign_bit Nm \<noteq> sign_bit Dn"]
  have rr: "is_finite r" "\<bar>valof r\<bar> \<le> 1" by (simp_all add: r_eq)
  note R0 = fsquare_unit [OF rr, folded R0_def]
  note O1 = one_minus_unit(1-3) [OF C, folded O1_def]
  note O2 = fmul_unit_nonneg [OF O1 O1, folded O2_def]
  note W = one_minus_unit [OF R0(1-3), folded W_def]
  have W_idem: "rnd32 (valof W) = valof W" unfolding W(4) by (rule rnd32_idem)
  have "0 \<le> 1 - valof R0" "1 - valof R0 \<le> 1" using R0(2,3) by simp_all
  then have "rnd32 (1 - valof R0) \<le> 1 - valof R0 + 1 / 2 ^ 25" by (rule rnd32_err_unit)
  then have W_err: "valof R0 + valof W \<le> 1 + 1 / 2 ^ 25" unfolding W(4) by simp
  note T1 = fmul_shrink [OF W(1-3) W_idem O1, folded T1_def]
  have T1_le: "valof T1 \<le> 1" using T1(3) W(3) by simp
  note T2 = fmul_shrink [OF T1(1,2) T1_le T1(4) O2, folded T2_def]
  have T2_le: "valof T2 \<le> 1" using T2(3) T1_le by simp
  note T3 = fmul_shrink [OF T2(1,2) T2_le T2(4) O2, folded T3_def]
  have T3_W: "valof T3 \<le> valof W" using T3(3) T2(3) T1(3) by simp
  have res_eq: "fadd R0 T3 = mk (sign_bit R0 \<and> sign_bit T3) (valof R0 + valof T3)"
    using R0(1) T3(1) by (rule fadd_finite)
  have sum_ge: "0 \<le> valof R0 + valof T3" using R0(2) T3(2) by simp
  have sum_le: "valof R0 + valof T3 \<le> 1 + 1 / 2 ^ 25" using T3_W W_err by simp
  have "\<bar>valof R0 + valof T3\<bar> \<le> 2 powi 1" using sum_ge sum_le by simp
  note res = mk_val [OF this, of "sign_bit R0 \<and> sign_bit T3", folded res_eq]
  have "rnd32 (valof R0 + valof T3) \<le> rnd32 (1 + 1 / 2 ^ 25)" using sum_le by (rule rnd32_mono)
  then have res_le: "valof (fadd R0 T3) \<le> 1" using res(2) rnd32_one_plus by simp
  have res_ge: "0 \<le> valof (fadd R0 T3)" using res(2) sum_ge by (simp add: rnd32_nonneg)
  have unfolded: "dielectricFresnelSchlick_f32 VdH IoR = fadd R0 T3"
    unfolding dielectricFresnelSchlick_f32_def Let_def T3_def T2_def T1_def W_def O2_def O1_def
      R0_def r_def Dn_def Nm_def ..
  show ?thesis unfolding unfolded using res(1) res_le res_ge by simp
qed

subsection \<open>The length of the sampled normal\<close>

lemma rnd32_err_lower:
  assumes "0 \<le> y" and "y \<le> 1"
  shows "y - 1 / 2 ^ 25 \<le> rnd32 y"
proof -
  consider "y = 0" | "y = 1" | "0 < y" "y < 1" using assms by linarith
  then show ?thesis
  proof cases
    case 1
    then show ?thesis by simp
  next
    case 2
    then show ?thesis using rnd32_1 by simp
  next
    case 3
    define u :: real where "u = 2 powi (binade y - 23)"
    have u: "0 < u" by (simp add: u_def)
    have "log 2 y < 0" using 3 by simp
    then have "\<lfloor>log 2 y\<rfloor> < 0" by (simp only: floor_less_iff of_int_0)
    then have "max \<lfloor>log 2 y\<rfloor> (- 126) \<le> - 1" by linarith
    then have "binade y \<le> - 1" by (simp only: binade_def)
    then have "u \<le> 2 powi (- 24)" unfolding u_def by (intro power_int_increasing) simp_all
    then have ub: "u / 2 \<le> 1 / 2 ^ 25" by (simp add: power_int_minus field_simps)
    have "y / u - 1 / 2 \<le> of_int (round_even (y / u))" by (rule round_even_bounds)
    then have "(y / u - 1 / 2) * u \<le> of_int (round_even (y / u)) * u"
      using u by (intro mult_right_mono) simp_all
    moreover have "(y / u - 1 / 2) * u = y - u / 2" using u by (simp add: field_simps)
    ultimately have "y - u / 2 \<le> rmag y" unfolding rmag_def Let_def u_def by simp
    then show ?thesis using ub 3(1) by (simp add: rnd32_pos)
  qed
qed

lemma rnd32_err_abs:
  assumes "\<bar>y\<bar> \<le> 1"
  shows "\<bar>rnd32 y - y\<bar> \<le> 1 / 2 ^ 25"
proof (cases "0 \<le> y")
  case True
  then have "0 \<le> y" "y \<le> 1" using assms by simp_all
  from rnd32_err_unit [OF this] rnd32_err_lower [OF this]
  show ?thesis by linarith
next
  case False
  then have "0 \<le> - y" "- y \<le> 1" using assms by simp_all
  from rnd32_err_unit [OF this] rnd32_err_lower [OF this]
  show ?thesis unfolding rnd32_minus by linarith
qed

lemma sq_diff_bound:
  fixes a b :: real
  assumes "\<bar>a - b\<bar> \<le> e" and "\<bar>a\<bar> \<le> 1" and "\<bar>b\<bar> \<le> 1"
  shows "\<bar>a * a - b * b\<bar> \<le> 2 * e"
proof -
  have "a * a - b * b = (a - b) * (a + b)" by (simp add: algebra_simps)
  then have "\<bar>a * a - b * b\<bar> = \<bar>a - b\<bar> * \<bar>a + b\<bar>" by (simp add: abs_mult)
  also have "\<dots> \<le> e * 2" using assms by (intro mult_mono) simp_all
  finally show ?thesis by simp
qed

lemma unit_length_error:
  fixes c cc w s q cs sn x y mx my e :: real
  assumes cc: "\<bar>cc - c * c\<bar> \<le> e"
    and w: "\<bar>w - (1 - cc)\<bar> \<le> e"
    and s: "\<bar>s - q\<bar> \<le> e" "q * q = w" "\<bar>q\<bar> \<le> 1" "\<bar>s\<bar> \<le> 1"
    and t: "\<bar>cs - x\<bar> \<le> e" "\<bar>sn - y\<bar> \<le> e" "x * x + y * y = 1"
      "\<bar>cs\<bar> \<le> 1" "\<bar>sn\<bar> \<le> 1" "\<bar>x\<bar> \<le> 1" "\<bar>y\<bar> \<le> 1"
    and m: "\<bar>mx - s * cs\<bar> \<le> e" "\<bar>my - s * sn\<bar> \<le> e" "\<bar>mx\<bar> \<le> 1" "\<bar>my\<bar> \<le> 1"
  shows "\<bar>mx * mx + my * my + c * c - 1\<bar> \<le> 12 * e"
proof -
  have e: "0 \<le> e" using cc by linarith
  have scs: "\<bar>s * cs\<bar> \<le> 1" "\<bar>s * sn\<bar> \<le> 1"
    unfolding abs_mult using s(4) t(4,5) by (simp_all add: mult_le_one)
  have d1: "\<bar>mx * mx - (s * cs) * (s * cs)\<bar> \<le> 2 * e" using m(1,3) scs(1) by (rule sq_diff_bound)
  have d2: "\<bar>my * my - (s * sn) * (s * sn)\<bar> \<le> 2 * e" using m(2,4) scs(2) by (rule sq_diff_bound)
  have d3: "\<bar>cs * cs - x * x\<bar> \<le> 2 * e" using t(1,4,6) by (rule sq_diff_bound)
  have d4: "\<bar>sn * sn - y * y\<bar> \<le> 2 * e" using t(2,5,7) by (rule sq_diff_bound)
  have d5: "\<bar>s * s - w\<bar> \<le> 2 * e" unfolding s(2) [symmetric] using s(1,4,3) by (rule sq_diff_bound)
  have "\<bar>cs * cs + sn * sn - 1\<bar> \<le> 4 * e" using d3 d4 t(3) by linarith
  moreover have "s * s \<le> 1"
  proof -
    have "\<bar>s\<bar> * \<bar>s\<bar> \<le> 1 * 1" using s(4) by (intro mult_mono) simp_all
    then show ?thesis by simp
  qed
  moreover have "0 \<le> s * s" by simp
  ultimately have "\<bar>s * s\<bar> * \<bar>cs * cs + sn * sn - 1\<bar> \<le> 1 * (4 * e)"
    by (intro mult_mono) simp_all
  then have d6: "\<bar>s * s * (cs * cs + sn * sn - 1)\<bar> \<le> 4 * e" by (simp only: abs_mult mult_1)
  have split: "mx * mx + my * my + c * c - 1 =
      (mx * mx - (s * cs) * (s * cs)) + (my * my - (s * sn) * (s * sn))
      + s * s * (cs * cs + sn * sn - 1) + (s * s - w) + (w - (1 - cc)) - (cc - c * c)"
    by (simp add: algebra_simps)
  show ?thesis unfolding split using d1 d2 d6 d5 w cc by linarith
qed

lemma fcos_val:
  assumes "is_finite t"
  shows "valof (fcos t) = rnd32 (cos (valof t))"
proof (rule disjE [OF is_finite_cases [OF assms]])
  assume t: "t = Fin (valof t)"
  have "fcos t = fcos (Fin (valof t))" by (subst t) (rule refl)
  then have eq: "fcos t = mk False (cos (valof t))" by (simp add: fcos_def)
  show ?thesis using mk_val(2) [of "cos (valof t)" 0 False] by (simp add: eq)
next
  assume "t = NZero"
  then show ?thesis using rnd32_1 by (simp add: fcos_def)
qed

lemma fsin_val:
  assumes "is_finite t"
  shows "valof (fsin t) = rnd32 (sin (valof t))"
proof (rule disjE [OF is_finite_cases [OF assms]])
  assume t: "t = Fin (valof t)"
  have "fsin t = fsin (Fin (valof t))" by (subst t) (rule refl)
  then have eq: "fsin t = mk False (sin (valof t))" by (simp add: fsin_def)
  show ?thesis using mk_val(2) [of "sin (valof t)" 0 False] by (simp add: eq)
next
  assume "t = NZero"
  then show ?thesis by (simp add: fsin_def)
qed

lemma fsqrt_fmax_val:
  assumes W: "is_finite W" "0 \<le> valof W" "valof W \<le> 1"
  shows "valof (fsqrt (fmax (Fin 0) W)) = rnd32 (sqrt (valof W))"
proof (cases "0 < valof W")
  case True
  then have "fmax (Fin 0) W = W" using W(1) by (cases W) (simp_all add: fmax_def flt_def)
  then have eq: "fsqrt (fmax (Fin 0) W) = mk False (sqrt (valof W))"
    using W(1) True by (simp add: fsqrt_finite)
  have "0 \<le> sqrt (valof W)" "sqrt (valof W) \<le> 1" using W(2,3) by simp_all
  then show ?thesis unfolding eq by (rule mk_unit(4))
next
  case False
  then have z: "valof W = 0" using W(2) by simp
  then have "fmax (Fin 0) W = Fin 0" using W(1) by (cases W) (simp_all add: fmax_def flt_def)
  then show ?thesis by (simp add: z fsqrt_def zero_of_def)
qed

lemma fmul_unit_val:
  assumes "is_finite a" "\<bar>valof a\<bar> \<le> 1" "is_finite b" "\<bar>valof b\<bar> \<le> 1"
  shows "valof (fmul a b) = rnd32 (valof a * valof b)"
proof -
  have eq: "fmul a b = mk (sign_bit a \<noteq> sign_bit b) (valof a * valof b)"
    using assms(1,3) by (rule fmul_finite)
  have "\<bar>valof a\<bar> * \<bar>valof b\<bar> \<le> 1 * 1" using assms(2,4) by (intro mult_mono) simp_all
  then have "\<bar>valof a * valof b\<bar> \<le> 2 powi 0" by (simp add: abs_mult)
  from mk_val(2) [OF this, of "sign_bit a \<noteq> sign_bit b"] show ?thesis by (simp add: eq)
qed

lemma microfacetNormal_f32_unit_error:
  assumes c: "is_finite c" "0 \<le> valof c" "valof c \<le> 1"
    and v: "is_finite (fvec2_y rSample)" "\<bar>valof (fvec2_y rSample)\<bar> \<le> 1"
  shows "\<bar>valof (fvec3_x (microfacetNormal_f32 c rSample))
            * valof (fvec3_x (microfacetNormal_f32 c rSample))
          + valof (fvec3_y (microfacetNormal_f32 c rSample))
            * valof (fvec3_y (microfacetNormal_f32 c rSample))
          + valof (fvec3_z (microfacetNormal_f32 c rSample))
            * valof (fvec3_z (microfacetNormal_f32 c rSample)) - 1\<bar> \<le> 3 / 2 ^ 23"
proof -
  define CC where "CC = fmul c c"
  define W where "W = fsub (Fin 1) CC"
  define S where "S = fsqrt (fmax (Fin 0) W)"
  define T where "T = fmul (fmul (Fin 2) M_PIf_f32) (fvec2_y rSample)"
  define MX where "MX = fmul S (fcos T)"
  define MY where "MY = fmul S (fsin T)"
  have m: "microfacetNormal_f32 c rSample = fv3 MX MY c"
    unfolding microfacetNormal_f32_def Let_def MX_def MY_def S_def W_def CC_def T_def ..
  have cabs: "\<bar>valof c\<bar> \<le> 1" using c(2,3) by simp
  note CC = fsquare_unit [OF c(1) cabs, folded CC_def]
  note W = one_minus_unit [OF CC(1-3), folded W_def]
  note S = sinThetaM_f32_range [OF c, folded CC_def, folded W_def, folded S_def]
  have Sv: "valof S = rnd32 (sqrt (valof W))" unfolding S_def using W(1-3) by (rule fsqrt_fmax_val)
  note T = angle_f32_finite [OF v, folded T_def]
  note CS = fcos_range [OF T]
  note SN = fsin_range [OF T]
  note MXr = fmul_unit_range [OF S CS, folded MX_def]
  note MYr = fmul_unit_range [OF S SN, folded MY_def]
  have MXv: "valof MX = rnd32 (valof S * valof (fcos T))"
    unfolding MX_def using S CS by (rule fmul_unit_val)
  have MYv: "valof MY = rnd32 (valof S * valof (fsin T))"
    unfolding MY_def using S SN by (rule fmul_unit_val)
  have scs: "\<bar>valof S * valof (fcos T)\<bar> \<le> 1" "\<bar>valof S * valof (fsin T)\<bar> \<le> 1"
    unfolding abs_mult using S(2) CS(2) SN(2) by (simp_all add: mult_le_one)
  have "valof c * valof c \<le> 1 * 1" using c(2,3) by (intro mult_mono) simp_all
  then have "\<bar>valof c * valof c\<bar> \<le> 1" by simp
  then have e1: "\<bar>valof CC - valof c * valof c\<bar> \<le> 1 / 2 ^ 25"
    unfolding CC(4) by (rule rnd32_err_abs)
  have e2: "\<bar>valof W - (1 - valof CC)\<bar> \<le> 1 / 2 ^ 25"
    unfolding W(4) using CC(2,3) by (intro rnd32_err_abs) simp
  have e3: "\<bar>valof S - sqrt (valof W)\<bar> \<le> 1 / 2 ^ 25"
    unfolding Sv using W(2,3) by (intro rnd32_err_abs) simp
  have q: "sqrt (valof W) * sqrt (valof W) = valof W" "\<bar>sqrt (valof W)\<bar> \<le> 1"
    using W(2,3) by simp_all
  have e4: "\<bar>valof (fcos T) - cos (valof T)\<bar> \<le> 1 / 2 ^ 25"
    unfolding fcos_val [OF T] by (intro rnd32_err_abs) simp
  have e5: "\<bar>valof (fsin T) - sin (valof T)\<bar> \<le> 1 / 2 ^ 25"
    unfolding fsin_val [OF T] by (intro rnd32_err_abs) simp
  have unit: "cos (valof T) * cos (valof T) + sin (valof T) * sin (valof T) = 1"
    using sin_cos_squared_add2 [of "valof T"] by (simp add: power2_eq_square)
  have tb: "\<bar>cos (valof T)\<bar> \<le> 1" "\<bar>sin (valof T)\<bar> \<le> 1" by simp_all
  have e6: "\<bar>valof MX - valof S * valof (fcos T)\<bar> \<le> 1 / 2 ^ 25"
    unfolding MXv using scs(1) by (rule rnd32_err_abs)
  have e7: "\<bar>valof MY - valof S * valof (fsin T)\<bar> \<le> 1 / 2 ^ 25"
    unfolding MYv using scs(2) by (rule rnd32_err_abs)
  have "\<bar>valof MX * valof MX + valof MY * valof MY + valof c * valof c - 1\<bar>
      \<le> 12 * (1 / 2 ^ 25)"
    using e1 e2 e3 q S(2) e4 e5 unit CS(2) SN(2) tb e6 e7 MXr(2) MYr(2)
    by (rule unit_length_error)
  then show ?thesis unfolding m fvec3.sel by simp
qed

subsection \<open>The functions at sample inputs\<close>

lemma rnd32_3: "rnd32 3 = 3"
  using rnd32_normal [of 1 3 "3 * 2 ^ 22"] by simp

lemma rnd32_4: "rnd32 4 = 4"
  using rnd32_normal [of 2 4 "2 ^ 23"] by simp

lemma rnd32_3q: "rnd32 (3 / 4) = 3 / 4"
  using rnd32_normal [of "- 1" "3 / 4" "3 * 2 ^ 22"] by simp

lemma rnd32_m2: "rnd32 (- 2) = - 2"
  using rnd32_2 by (simp add: rnd32_minus)

lemma rnd32_mhalf: "rnd32 (- (1 / 2)) = - (1 / 2)"
  using rnd32_half by (simp only: rnd32_minus)

lemma mk_3: "mk neg 3 = Fin 3" by (rule mk_Fin [OF rnd32_3]) simp_all
lemma mk_4: "mk neg 4 = Fin 4" by (rule mk_Fin [OF rnd32_4]) simp_all
lemma mk_3q: "mk neg (3 / 4) = Fin (3 / 4)" by (rule mk_Fin [OF rnd32_3q]) simp_all
lemma mk_m2: "mk neg (- 2) = Fin (- 2)" by (rule mk_Fin [OF rnd32_m2]) simp_all
lemma mk_mhalf: "mk neg (- (1 / 2)) = Fin (- (1 / 2))" by (rule mk_Fin [OF rnd32_mhalf]) simp_all

lemma iso_exponent_sample:
  "beckmannExponent_iso_f32 (fv3 (Fin 0) (Fin 0) (Fin 1)) (fv3 (Fin (1 / 2)) (Fin 0) (Fin (1 / 2)))
     (Fin 1) = Fin 3"
proof -
  have a2: "fmul (Fin 1) (Fin 1) = Fin 1" by (simp add: fmul_Fin mk_1)
  have dot: "fdot3 (fv3 (Fin 0) (Fin 0) (Fin 1)) (fv3 (Fin (1 / 2)) (Fin 0) (Fin (1 / 2)))
      = Fin (1 / 2)"
    by (simp add: fdot3_def fmul_Fin fadd_Fin zero_of_def mk_half)
  have sq: "fmul (Fin (1 / 2)) (Fin (1 / 2)) = Fin (1 / 4)" by (simp add: fmul_Fin mk_quarter)
  have n: "fsub (Fin 1) (Fin (1 / 4)) = Fin (3 / 4)" by (simp add: fsub_Fin mk_3q)
  have d: "fmul (Fin 1) (Fin (1 / 4)) = Fin (1 / 4)" by (simp add: fmul_Fin mk_quarter)
  have q: "fdiv (Fin (3 / 4)) (Fin (1 / 4)) = Fin 3" by (simp add: fdiv_Fin mk_3)
  have m: "fmax (Fin 0) (Fin 3) = Fin 3" by (simp add: fmax_def flt_def)
  show ?thesis unfolding beckmannExponent_iso_f32_def Let_def a2 dot sq n d q m ..
qed

lemma aniso_exponent_sample:
  "beckmannExponent_aniso_f32 (fv3 (Fin (1 / 2)) (Fin 0) (Fin (1 / 2))) (fv2 (Fin 1) (Fin 1))
     = Fin 1"
proof -
  have sq: "fmul (Fin (1 / 2)) (Fin (1 / 2)) = Fin (1 / 4)" by (simp add: fmul_Fin mk_quarter)
  have one: "fmul (Fin 1) (Fin 1) = Fin 1" by (simp add: fmul_Fin mk_1)
  have dx: "fdiv (Fin (1 / 2)) (Fin 1) = Fin (1 / 2)" by (simp add: fdiv_Fin mk_half)
  have dy: "fdiv (Fin 0) (Fin 1) = Fin 0" by (simp add: fdiv_Fin zero_of_def)
  have zz: "fmul (Fin 0) (Fin 0) = Fin 0" by (simp add: fmul_Fin zero_of_def)
  have s: "fadd (Fin (1 / 4)) (Fin 0) = Fin (1 / 4)" by (simp add: fadd_Fin mk_quarter)
  have q: "fdiv (Fin (1 / 4)) (Fin (1 / 4)) = Fin 1" by (simp add: fdiv_Fin mk_1)
  show ?thesis
    unfolding beckmannExponent_aniso_f32_def Let_def fdot2_def fdiv2_def fmul2_def fvec2.sel
      fvec3.sel sq one dx dy zz s q ..
qed

lemma schlick_sample: "dielectricFresnelSchlick_f32 (Fin 1) (Fin 3) = Fin (1 / 4)"
proof -
  have n: "fsub (Fin 1) (Fin 3) = Fin (- 2)" by (simp add: fsub_Fin mk_m2)
  have d: "fadd (Fin 1) (Fin 3) = Fin 4" by (simp add: fadd_Fin mk_4)
  have r: "fdiv (Fin (- 2)) (Fin 4) = Fin (- (1 / 2))" using mk_mhalf by (simp add: fdiv_Fin)
  have R0: "fmul (Fin (- (1 / 2))) (Fin (- (1 / 2))) = Fin (1 / 4)"
    by (simp add: fmul_Fin mk_quarter)
  have o: "fsub (Fin 1) (Fin 1) = Fin 0" by (simp add: fsub_Fin zero_of_def)
  have zz: "fmul (Fin 0) (Fin 0) = Fin 0" by (simp add: fmul_Fin zero_of_def)
  have w: "fsub (Fin 1) (Fin (1 / 4)) = Fin (3 / 4)" by (simp add: fsub_Fin mk_3q)
  have t: "fmul (Fin (3 / 4)) (Fin 0) = Fin 0" by (simp add: fmul_Fin zero_of_def)
  have s: "fadd (Fin (1 / 4)) (Fin 0) = Fin (1 / 4)" by (simp add: fadd_Fin mk_quarter)
  show ?thesis unfolding dielectricFresnelSchlick_f32_def Let_def n d r R0 o zz w t s ..
qed

lemma fresnel_sample: "dielectricFresnel_f32 (Fin 1) (Fin 3) = Fin (1 / 4)"
proof -
  define X where "X = fdiv (Fin 1) (Fin 3)"
  have guard: "fle (Fin 0) (Fin 1)" by (simp add: fle_def)
  have X_eq: "X = mk False (1 / 3)" unfolding X_def by (simp add: fdiv_Fin)
  have "(0::real) \<le> 1 / 3" "(1::real) / 3 \<le> 2 powi 0" by simp_all
  from mk_within0 [OF this, of False]
  have X: "is_finite X" "0 \<le> valof X" "valof X \<le> 1" by (simp_all add: X_eq)
  have "\<bar>valof X\<bar> \<le> 1" using X(2,3) by simp
  note R2 = fsquare_unit(1) [OF X(1) this]
  have c2: "fmul (Fin 1) (Fin 1) = Fin 1" by (simp add: fmul_Fin mk_1)
  have om: "fsub (Fin 1) (Fin 1) = Fin 0" by (simp add: fsub_Fin zero_of_def)
  have P: "is_finite (fmul (fmul X X) (Fin 0))" "valof (fmul (fmul X X) (Fin 0)) = 0"
    using R2 by (simp_all add: fmul_finite zero_of_def)
  have N2: "fsub (Fin 1) (fmul (fmul X X) (Fin 0)) = Fin 1"
    using P by (simp add: fsub_finite mk_1)
  have ng: "\<not> fle (Fin 1) (Fin 0)" by (simp add: fle_def)
  have L: "fsqrt (Fin 1) = Fin 1" by (simp add: fsqrt_Fin mk_1)
  have E: "fabs (Fin 1) = Fin 1" by (simp add: fabs_def)
  have A: "fmul (Fin 3) (Fin 1) = Fin 3" by (simp add: fmul_Fin mk_3)
  have n1: "fsub (Fin 3) (Fin 1) = Fin 2" by (simp add: fsub_Fin mk_2)
  have d1: "fadd (Fin 3) (Fin 1) = Fin 4" by (simp add: fadd_Fin mk_4)
  have n2: "fsub (Fin 1) (Fin 3) = Fin (- 2)" by (simp add: fsub_Fin mk_m2)
  have d2: "fadd (Fin 1) (Fin 3) = Fin 4" by (simp add: fadd_Fin mk_4)
  have rp: "fdiv (Fin 2) (Fin 4) = Fin (1 / 2)" by (simp add: fdiv_Fin mk_half)
  have rs: "fdiv (Fin (- 2)) (Fin 4) = Fin (- (1 / 2))" using mk_mhalf by (simp add: fdiv_Fin)
  have p2: "fmul (Fin (1 / 2)) (Fin (1 / 2)) = Fin (1 / 4)" by (simp add: fmul_Fin mk_quarter)
  have s2: "fmul (Fin (- (1 / 2))) (Fin (- (1 / 2))) = Fin (1 / 4)"
    by (simp add: fmul_Fin mk_quarter)
  have sum: "fadd (Fin (1 / 4)) (Fin (1 / 4)) = Fin (1 / 2)" by (simp add: fadd_Fin mk_half)
  have res: "fmul (Fin (1 / 2)) (Fin (1 / 2)) = Fin (1 / 4)" by (rule p2)
  show ?thesis
    unfolding dielectricFresnel_f32_def Let_def
    by (simp only: guard if_True X_def [symmetric] c2 om N2 ng if_False L E A n1 d1 n2 d2 rp rs
          p2 s2 sum)
qed

lemma schlick_grazing_sample: "dielectricFresnelSchlick_f32 (Fin 0) (Fin 3) = Fin 1"
proof -
  have n: "fsub (Fin 1) (Fin 3) = Fin (- 2)" by (simp add: fsub_Fin mk_m2)
  have d: "fadd (Fin 1) (Fin 3) = Fin 4" by (simp add: fadd_Fin mk_4)
  have r: "fdiv (Fin (- 2)) (Fin 4) = Fin (- (1 / 2))" using mk_mhalf by (simp add: fdiv_Fin)
  have R0: "fmul (Fin (- (1 / 2))) (Fin (- (1 / 2))) = Fin (1 / 4)"
    by (simp add: fmul_Fin mk_quarter)
  have o: "fsub (Fin 1) (Fin 0) = Fin 1" by (simp add: fsub_def fneg_def fadd_def is_inf_def mk_1)
  have oo: "fmul (Fin 1) (Fin 1) = Fin 1" by (simp add: fmul_Fin mk_1)
  have w: "fsub (Fin 1) (Fin (1 / 4)) = Fin (3 / 4)" by (simp add: fsub_Fin mk_3q)
  have t: "fmul (Fin (3 / 4)) (Fin 1) = Fin (3 / 4)" by (simp add: fmul_Fin mk_3q)
  have s: "fadd (Fin (1 / 4)) (Fin (3 / 4)) = Fin 1" by (simp add: fadd_Fin mk_1)
  show ?thesis unfolding dielectricFresnelSchlick_f32_def Let_def n d r R0 o oo w t s ..
qed

lemma fresnel_grazing_sample: "dielectricFresnel_f32 (Fin 0) (Fin 3) = Fin 1"
proof -
  define X where "X = fdiv (Fin 1) (Fin 3)"
  define P where "P = fmul (fmul X X) (Fin 1)"
  define N2 where "N2 = fsub (Fin 1) P"
  define L where "L = fsqrt N2"
  define A where "A = fmul (Fin 3) L"
  have guard: "fle (Fin 0) (Fin 0)" by (simp add: fle_def)
  have X_eq: "X = mk False (1 / 3)" unfolding X_def by (simp add: fdiv_Fin)
  have "(0::real) \<le> 1 / 3" "(1::real) / 3 \<le> 2 powi (- 1)" by (simp_all add: power_int_minus)
  from mk_within0 [OF this, of False]
  have X: "is_finite X" "0 \<le> valof X" "valof X \<le> 1 / 2"
    by (simp_all add: X_eq power_int_minus)
  have R2_eq: "fmul X X = mk (sign_bit X \<noteq> sign_bit X) (valof X * valof X)"
    using X(1,1) by (rule fmul_finite)
  have "valof X * valof X \<le> 1 / 2 * (1 / 2)" using X(2,3) by (intro mult_mono) simp_all
  then have "valof X * valof X \<le> 2 powi (- 2)" by (simp add: power_int_minus)
  moreover have "0 \<le> valof X * valof X" by simp
  ultimately have R2: "is_finite (fmul X X)" "0 \<le> valof (fmul X X)"
    "valof (fmul X X) \<le> 1 / 4"
    using mk_within0 [of "valof X * valof X" "- 2" "sign_bit X \<noteq> sign_bit X"]
    by (simp_all add: R2_eq power_int_minus)
  have P_eq: "P = mk (sign_bit (fmul X X) \<noteq> sign_bit (Fin 1)) (valof (fmul X X) * 1)"
    unfolding P_def using fmul_finite [OF R2(1), of "Fin 1"] by simp
  have "valof (fmul X X) * 1 \<le> 2 powi (- 2)" using R2(3) by (simp add: power_int_minus)
  moreover have "0 \<le> valof (fmul X X) * 1" using R2(2) by simp
  ultimately have P: "is_finite P" "0 \<le> valof P" "valof P \<le> 1 / 4"
    using mk_within0 [of "valof (fmul X X) * 1" "- 2"
        "sign_bit (fmul X X) \<noteq> sign_bit (Fin 1)"]
    by (simp_all add: P_eq power_int_minus)
  have N2_eq: "N2 = mk (sign_bit (Fin 1) \<and> sign_bit (fneg P)) (1 - valof P)"
    unfolding N2_def using P(1) by (simp add: fsub_finite)
  have "2 powi (- 1) \<le> 1 - valof P" "1 - valof P \<le> 2 powi 0"
    using P(2,3) by (simp_all add: power_int_minus)
  from mk_within [OF this, of "sign_bit (Fin 1) \<and> sign_bit (fneg P)"]
  have N2: "is_finite N2" "1 / 2 \<le> valof N2" "valof N2 \<le> 1"
    by (simp_all add: N2_eq power_int_minus)
  have ng: "\<not> fle N2 (Fin 0)" using N2(1,2) by (simp add: fle_finite)
  have L_eq: "L = mk False (sqrt (valof N2))"
    unfolding L_def using N2(1,2) by (intro fsqrt_finite) simp_all
  have "1 / 2 \<le> sqrt (valof N2)"
  proof -
    have "sqrt ((1 / 2) ^ 2) \<le> sqrt (valof N2)"
      using N2(2) by (intro real_sqrt_le_mono) (simp add: power2_eq_square)
    then show ?thesis by (simp add: real_sqrt_divide)
  qed
  then have "2 powi (- 1) \<le> sqrt (valof N2)" by (simp add: power_int_minus)
  moreover have "sqrt (valof N2) \<le> 2 powi 0" using N2(3) by simp
  ultimately have Lr: "is_finite L" "1 / 2 \<le> valof L" "valof L \<le> 1"
    using mk_within [of "- 1" "sqrt (valof N2)" 0 False] by (simp_all add: L_eq power_int_minus)
  have A_eq: "A = mk (sign_bit (Fin 3) \<noteq> sign_bit L) (3 * valof L)"
    unfolding A_def using fmul_finite [of "Fin 3" L] Lr(1) by simp
  have "2 powi 0 \<le> 3 * valof L" "3 * valof L \<le> 2 powi 2" using Lr(2,3) by simp_all
  note Ar = mk_within [OF this, of "sign_bit (Fin 3) \<noteq> sign_bit L", folded A_eq]
  have "\<bar>3 * valof L\<bar> \<le> 2 powi 2" using Lr(2,3) by simp
  from mk_val(2) [OF this, of "sign_bit (Fin 3) \<noteq> sign_bit L", folded A_eq]
  have Av: "valof A = rnd32 (3 * valof L)" by simp
  have idem: "rnd32 (valof A) = valof A" unfolding Av by (rule rnd32_idem)
  have Apos: "0 < valof A" using Ar(2) by simp
  have AF: "A = Fin (valof A)" using is_finite_cases [OF Ar(1)] Apos by auto
  have keep: "mk neg (valof A) = Fin (valof A)" for neg
    using idem Apos Ar(3) by (intro mk_Fin) simp_all
  have E: "fabs (Fin 0) = Fin 0" by (simp add: fabs_def)
  have n1: "fsub A (Fin 0) = Fin (valof A)"
    using Ar(1) keep by (simp add: fsub_finite)
  have d1: "fadd A (Fin 0) = Fin (valof A)"
    using Ar(1) keep by (simp add: fadd_finite)
  have kneg: "mk neg (- valof A) = Fin (- valof A)" for neg
    using idem Apos Ar(3) by (intro mk_Fin) (simp_all add: rnd32_minus)
  have n2: "fsub (Fin 0) A = Fin (- valof A)"
    using Ar(1) kneg by (simp add: fsub_finite)
  have d2: "fadd (Fin 0) A = Fin (valof A)"
    using Ar(1) keep by (simp add: fadd_finite)
  have rp: "fdiv (Fin (valof A)) (Fin (valof A)) = Fin 1"
    using Apos by (simp add: fdiv_Fin mk_1)
  have rs: "fdiv (Fin (- valof A)) (Fin (valof A)) = Fin (- 1)"
    using Apos by (simp add: fdiv_Fin mk_m1)
  have p2: "fmul (Fin 1) (Fin 1) = Fin 1" by (simp add: fmul_Fin mk_1)
  have s2: "fmul (Fin (- 1)) (Fin (- 1)) = Fin 1" by (simp add: fmul_Fin mk_1)
  have sum: "fadd (Fin 1) (Fin 1) = Fin 2" by (simp add: fadd_Fin mk_2)
  have res: "fmul (Fin 2) (Fin (1 / 2)) = Fin 1" by (simp add: fmul_Fin mk_1)
  have c2: "fmul (Fin 0) (Fin 0) = Fin 0" by (simp add: fmul_Fin zero_of_def)
  have om: "fsub (Fin 1) (Fin 0) = Fin 1" by (simp add: fsub_def fneg_def fadd_def is_inf_def mk_1)
  show ?thesis
    unfolding dielectricFresnel_f32_def Let_def
    by (simp only: guard if_True X_def [symmetric] c2 om P_def [symmetric] N2_def [symmetric]
          ng if_False L_def [symmetric] A_def [symmetric] E n1 d1 n2 d2 rp rs p2 s2 sum res)
qed

subsection \<open>GGX at the peak\<close>

lemma fmul_within:
  assumes a: "is_finite a" "2 powi ka \<le> valof a" "valof a \<le> 2 powi la"
    and b: "is_finite b" "2 powi kb \<le> valof b" "valof b \<le> 2 powi lb"
    and k: "- 149 \<le> ka + kb" and l: "la + lb \<le> 127"
  shows "is_finite (fmul a b)" and "2 powi (ka + kb) \<le> valof (fmul a b)"
    and "valof (fmul a b) \<le> 2 powi (la + lb)"
proof -
  have eq: "fmul a b = mk (sign_bit a \<noteq> sign_bit b) (valof a * valof b)"
    using a(1) b(1) by (rule fmul_finite)
  have apos: "0 < valof a" using a(2) by (rule less_le_trans [rotated]) simp
  have bpos: "0 < valof b" using b(2) by (rule less_le_trans [rotated]) simp
  have "2 powi ka * 2 powi kb \<le> valof a * valof b"
    using a(2) b(2) apos by (intro mult_mono) simp_all
  then have lo: "2 powi (ka + kb) \<le> valof a * valof b" by (simp add: power_int_add)
  have "valof a * valof b \<le> 2 powi la * 2 powi lb"
    using a(3) b(3) apos bpos by (intro mult_mono) simp_all
  then have hi: "valof a * valof b \<le> 2 powi (la + lb)" by (simp add: power_int_add)
  show "is_finite (fmul a b)" and "2 powi (ka + kb) \<le> valof (fmul a b)"
    and "valof (fmul a b) \<le> 2 powi (la + lb)"
    unfolding eq by (rule mk_within [OF lo hi k l])+
qed

lemma rnd32_below_one:
  assumes "0 \<le> t" and "t \<le> 1 / 2 ^ 26"
  shows "rnd32 (t - 1) = - 1"
proof -
  have "rnd32 (- (1 - t)) \<le> rnd32 (- (1 - 1 / 2 ^ 26))"
    using assms(2) by (intro rnd32_mono) simp
  moreover have "rnd32 (- 1) \<le> rnd32 (- (1 - t))" using assms(1) by (intro rnd32_mono) simp
  ultimately have "rnd32 (- (1 - t)) = - 1" unfolding rnd32_cancel rnd32_1 by simp
  then show ?thesis by simp
qed

lemma iso_peak_range:
  assumes r: "is_finite r" "1 / 2 ^ 37 \<le> valof r" "valof r \<le> 1 / 2 ^ 13"
  shows "evalGGXDistribution_iso_f32 (fv3 (Fin 0) (Fin 0) (Fin 1)) (fv3 (Fin 0) (Fin 0) (Fin 1)) r
    = PInf"
proof -
  have rr: "2 powi (- 37) \<le> valof r" "valof r \<le> 2 powi (- 13)"
    using r(2,3) by (simp_all add: power_int_minus field_simps)
  define y where "y = valof (fmul r r)"
  have A: "is_finite (fmul r r)" using fmul_within(1) [OF r(1) rr r(1) rr] by simp
  have y: "2 powi (- 74) \<le> y" "y \<le> 2 powi (- 26)"
    using fmul_within(2,3) [OF r(1) rr r(1) rr] by (simp_all add: y_def)
  have ypos: "0 < y" using y(1) by (rule less_le_trans [rotated]) simp
  have yle: "y \<le> 1 / 2 ^ 26" using y(2) by (simp add: power_int_minus field_simps)
  have a2: "fmul r r = Fin y" using is_finite_cases [OF A] ypos by (auto simp: y_def)
  have "fmul r r = mk (sign_bit r \<noteq> sign_bit r) (valof r * valof r)"
    using r(1,1) by (rule fmul_finite)
  moreover have "\<bar>valof r * valof r\<bar> \<le> 2 powi 0"
  proof -
    have "valof r * valof r \<le> 2 powi (- 13) * 2 powi (- 13)"
      using rr by (intro mult_mono) (simp_all add: power_int_minus)
    then show ?thesis by (simp add: power_int_minus)
  qed
  ultimately have "y = rnd32 (valof r * valof r)"
    unfolding y_def using mk_val(2) [of "valof r * valof r" 0] by simp
  then have idem: "rnd32 y = y" by (simp only: rnd32_idem)
  have dot: "fdot3 (fv3 (Fin 0) (Fin 0) (Fin 1)) (fv3 (Fin 0) (Fin 0) (Fin 1)) = Fin 1"
    by (simp add: fdot3_def fmul_Fin fadd_Fin zero_of_def mk_1)
  have sat: "saturate_f32 (Fin 1) = Fin 1"
    by (simp add: saturate_f32_def fmax_def fmin_def flt_def)
  have "mk False y = Fin y" using idem ypos yle by (intro mk_Fin) simp_all
  then have d1: "fmul (Fin 1) (Fin y) = Fin y" using ypos by (simp add: fmul_Fin)
  have "rnd32 (y - 1) = - 1" using ypos yle by (intro rnd32_below_one) simp_all
  then have "mk False (y - 1) = Fin (- 1)" by (intro mk_Fin) simp_all
  then have d2: "fsub (Fin y) (Fin 1) = Fin (- 1)" using ypos by (simp add: fsub_Fin)
  have d3: "fmul (Fin (- 1)) (Fin 1) = Fin (- 1)" by (simp add: fmul_Fin mk_m1)
  have d4: "fadd (Fin (- 1)) (Fin 1) = Fin 0" by (simp add: fadd_Fin zero_of_def)
  have d5: "fmul (fmul M_PIf_f32 (Fin 0)) (Fin 0) = Fin 0"
    by (simp add: M_PIf_f32_def fmul_Fin zero_of_def)
  have d6: "fdiv (Fin y) (Fin 0) = PInf"
    using ypos by (simp add: fdiv_def is_inf_def is_zero_def inf_of_def)
  show ?thesis
    unfolding evalGGXDistribution_iso_f32_def Let_def a2 dot sat d1 d2 d3 d4 d5 d6 ..
qed

lemma aniso_peak_range:
  assumes r: "is_finite r" "1 / 2 ^ 37 \<le> valof r" "valof r \<le> 1 / 2 ^ 13"
  shows "is_finite (evalGGXDistribution_aniso_f32 (fv3 (Fin 0) (Fin 0) (Fin 1)) (fv2 r r))"
    and "1 / 2 ^ 24 \<le> valof (evalGGXDistribution_aniso_f32 (fv3 (Fin 0) (Fin 0) (Fin 1)) (fv2 r r))"
proof -
  have rr: "2 powi (- 37) \<le> valof r" "valof r \<le> 2 powi (- 13)"
    using r(2,3) by (simp_all add: power_int_minus field_simps)
  have nlt: "\<not> flt r r" using r(1) by (cases r) (simp_all add: flt_def)
  have mn: "fmin r r = r" by (simp add: fmin_def)
  have one: "fmul (Fin 1) (Fin 1) = Fin 1" by (simp add: fmul_Fin mk_1)
  have ex: "fdot2 (fdiv2 (fv2 (Fin 0) (Fin 0)) (fv2 (Fin 1) (Fin 1))) (fv2 (Fin 0) (Fin 0)) = Fin 0"
    by (simp add: fdot2_def fdiv2_def fdiv_Fin fmul_Fin fadd_Fin zero_of_def)
  have pi1: "fmul (fmul M_PIf_f32 (Fin 1)) (Fin 1) = M_PIf_f32"
    using mk_pi by (simp add: M_PIf_f32_def fmul_Fin)
  have u: "is_finite (Fin 1)" "2 powi 0 \<le> valof (Fin 1)" "valof (Fin 1) \<le> 2 powi 0" by simp_all
  have p: "is_finite M_PIf_f32" "2 powi 1 \<le> valof M_PIf_f32" "valof M_PIf_f32 \<le> 2 powi 2"
    by (simp_all add: M_PIf_f32_def)
  define r1 where "r1 = fmul (Fin 1) r"
  define r2 where "r2 = fmul r1 r"
  define root where "root = fadd r2 (Fin 0)"
  define p3 where "p3 = fmul M_PIf_f32 root"
  define p4 where "p4 = fmul p3 root"
  define num where "num = fmul r r"
  have R1: "is_finite r1" "2 powi (- 37) \<le> valof r1" "valof r1 \<le> 2 powi (- 13)"
    using fmul_within [OF u r(1) rr] by (simp_all add: r1_def)
  have R2: "is_finite r2" "2 powi (- 74) \<le> valof r2" "valof r2 \<le> 2 powi (- 26)"
    using fmul_within [OF R1 r(1) rr] by (simp_all add: r2_def)
  have root_eq: "root = mk (sign_bit r2 \<and> sign_bit (Fin 0)) (valof r2 + 0)"
    unfolding root_def using fadd_finite [OF R2(1), of "Fin 0"] by simp
  have "2 powi (- 74) \<le> valof r2 + 0" "valof r2 + 0 \<le> 2 powi (- 26)" using R2(2,3) by simp_all
  from mk_within [OF this, of "sign_bit r2 \<and> sign_bit (Fin 0)"]
  have RT: "is_finite root" "2 powi (- 74) \<le> valof root" "valof root \<le> 2 powi (- 26)"
    by (simp_all add: root_eq)
  have P3: "is_finite p3" "2 powi (- 73) \<le> valof p3" "valof p3 \<le> 2 powi (- 24)"
    using fmul_within [OF p RT] by (simp_all add: p3_def)
  have P4: "is_finite p4" "2 powi (- 147) \<le> valof p4" "valof p4 \<le> 2 powi (- 50)"
    using fmul_within [OF P3 RT] by (simp_all add: p4_def)
  have NM: "is_finite num" "2 powi (- 74) \<le> valof num" "valof num \<le> 2 powi (- 26)"
    using fmul_within [OF r(1) rr r(1) rr] by (simp_all add: num_def)
  have p4pos: "0 < valof p4" using P4(2) by (rule less_le_trans [rotated]) simp
  have npos: "0 < valof num" using NM(2) by (rule less_le_trans [rotated]) simp
  have res_eq: "fdiv num p4 = mk (sign_bit num \<noteq> sign_bit p4) (valof num / valof p4)"
    using NM(1) P4(1) p4pos by (intro fdiv_finite) simp_all
  have "2 powi (- 74) / 2 powi (- 50) \<le> valof num / valof p4"
    using NM(2) P4(3) p4pos npos by (intro frac_le) simp_all
  then have lo: "2 powi (- 24) \<le> valof num / valof p4" by (simp add: power_int_minus)
  have "valof num / valof p4 \<le> 2 powi (- 26) / 2 powi (- 147)"
    using NM(3) P4(2) npos by (intro frac_le) simp_all
  then have hi: "valof num / valof p4 \<le> 2 powi 121" by (simp add: power_int_minus)
  note RES = mk_within [OF lo hi, of "sign_bit num \<noteq> sign_bit p4", folded res_eq]
  have unfolded: "evalGGXDistribution_aniso_f32 (fv3 (Fin 0) (Fin 0) (Fin 1)) (fv2 r r)
      = fdiv num p4"
    unfolding evalGGXDistribution_aniso_f32_def Let_def fvec2.sel fvec3.sel
    by (simp only: nlt if_False mn one ex pi1 r1_def [symmetric] r2_def [symmetric]
          root_def [symmetric] p3_def [symmetric] p4_def [symmetric] num_def [symmetric])
  show "is_finite (evalGGXDistribution_aniso_f32 (fv3 (Fin 0) (Fin 0) (Fin 1)) (fv2 r r))"
    unfolding unfolded using RES(1) by simp
  show "1 / 2 ^ 24 \<le> valof (evalGGXDistribution_aniso_f32 (fv3 (Fin 0) (Fin 0) (Fin 1)) (fv2 r r))"
    unfolding unfolded using RES(2) by (simp add: power_int_minus field_simps)
qed

section \<open>Fresnel: the range of the dielectric reflectance\<close>

text \<open>
  C2. The claim, for every \<open>IoR > 0\<close> and every cosine in \<open>[0, 1]\<close>, does not hold of the
  binary32 program. At \<open>IoR = 2^(-70)\<close> and cosine \<open>1\<close>, \<open>dielectricFresnel\<close> computes
  \<open>realIoR = 2^70\<close>, whose square overflows to \<open>+inf\<close>, and \<open>1 - NdE * NdE\<close> is \<open>0\<close>: the
  product \<open>inf * 0\<close> is NaN, the test \<open>NdL2 <= 0\<close> is false on NaN, and the function returns
  NaN, which is not in \<open>[0, 1]\<close>.
\<close>

theorem dielectric_fresnel_range_counterexample:
  "0 < valof (Fin (1 / 2 ^ 70)) \<and> 0 \<le> valof (Fin 1) \<and> valof (Fin 1) \<le> 1
   \<and> dielectricFresnel_f32 (Fin 1) (Fin (1 / 2 ^ 70)) = NaN
   \<and> \<not> fle (Fin 0) (dielectricFresnel_f32 (Fin 1) (Fin (1 / 2 ^ 70)))
   \<and> \<not> fle (dielectricFresnel_f32 (Fin 1) (Fin (1 / 2 ^ 70))) (Fin 1)"
  unfolding fresnel_overflow by (simp add: fle_def)

text \<open>
  C2, amended. In binary32, for every finite cosine in \<open>[0, 1]\<close>:
  \<open>dielectricFresnelSchlick\<close> returns a finite value in \<open>[0, 1]\<close> for every finite
  \<open>IoR > 0\<close>, and \<open>dielectricFresnel\<close> returns a finite value in \<open>[0, 1]\<close> for every finite
  \<open>IoR \<ge> 2^(-63)\<close>, the range on which \<open>(1 / IoR) * (1 / IoR)\<close> cannot overflow.
\<close>

theorem dielectric_fresnel_range_f32:
  assumes "is_finite IoR" and "valof IoR \<le> FLT_MAX"
    and "is_finite cosine" and "0 \<le> valof cosine" and "valof cosine \<le> 1"
  shows "(0 < valof IoR \<longrightarrow>
            is_finite (dielectricFresnelSchlick_f32 cosine IoR)
            \<and> 0 \<le> valof (dielectricFresnelSchlick_f32 cosine IoR)
            \<and> valof (dielectricFresnelSchlick_f32 cosine IoR) \<le> 1)
       \<and> (1 / 2 ^ 63 \<le> valof IoR \<longrightarrow>
            is_finite (dielectricFresnel_f32 cosine IoR)
            \<and> 0 \<le> valof (dielectricFresnel_f32 cosine IoR)
            \<and> valof (dielectricFresnel_f32 cosine IoR) \<le> 1)"
proof (intro conjI impI)
  assume "0 < valof IoR"
  then have "0 \<le> valof IoR" by simp
  from dielectricFresnelSchlick_f32_range [OF assms(1) this assms(2-5)]
  show "is_finite (dielectricFresnelSchlick_f32 cosine IoR)"
    and "0 \<le> valof (dielectricFresnelSchlick_f32 cosine IoR)"
    and "valof (dielectricFresnelSchlick_f32 cosine IoR) \<le> 1"
    by simp_all
next
  assume "1 / 2 ^ 63 \<le> valof IoR"
  from dielectricFresnel_f32_range [OF assms(1) this assms(2-5)]
  show "is_finite (dielectricFresnel_f32 cosine IoR)"
    and "0 \<le> valof (dielectricFresnel_f32 cosine IoR)"
    and "valof (dielectricFresnel_f32 cosine IoR) \<le> 1"
    by simp_all
qed

theorem dielectric_fresnel_range_f32_witness:
  "is_finite (Fin 3) \<and> valof (Fin 3) \<le> FLT_MAX
   \<and> is_finite (Fin 1) \<and> 0 \<le> valof (Fin 1) \<and> valof (Fin 1) \<le> 1
   \<and> 0 < valof (Fin 3) \<and> 1 / 2 ^ 63 \<le> valof (Fin 3)
   \<and> is_finite (dielectricFresnelSchlick_f32 (Fin 1) (Fin 3))
   \<and> 0 \<le> valof (dielectricFresnelSchlick_f32 (Fin 1) (Fin 3))
   \<and> valof (dielectricFresnelSchlick_f32 (Fin 1) (Fin 3)) \<le> 1
   \<and> is_finite (dielectricFresnel_f32 (Fin 1) (Fin 3))
   \<and> 0 \<le> valof (dielectricFresnel_f32 (Fin 1) (Fin 3))
   \<and> valof (dielectricFresnel_f32 (Fin 1) (Fin 3)) \<le> 1
   \<and> dielectricFresnelSchlick_f32 (Fin 1) (Fin 3) = Fin (1 / 4)
   \<and> dielectricFresnel_f32 (Fin 1) (Fin 3) = Fin (1 / 4)
   \<and> dielectricFresnelSchlick_f32 (Fin 0) (Fin 3) = Fin 1
   \<and> dielectricFresnel_f32 (Fin 0) (Fin 3) = Fin 1"
proof -
  have h: "is_finite (Fin 3)" "valof (Fin 3) \<le> FLT_MAX"
    "is_finite (Fin 1)" "0 \<le> valof (Fin 1)" "valof (Fin 1) \<le> 1"
    by (simp_all add: FLT_MAX_def)
  have g: "0 < valof (Fin 3)" "1 / 2 ^ 63 \<le> valof (Fin 3)" by simp_all
  show ?thesis
    using h g dielectric_fresnel_range_f32 [OF h] schlick_sample fresnel_sample
      schlick_grazing_sample fresnel_grazing_sample
    by (intro conjI) (elim conjE impE, assumption+)+
qed

section \<open>Fresnel: total internal reflection\<close>



section \<open>Smith shadowing: the two short circuits\<close>




section \<open>Beckmann: the exponent\<close>

text \<open>
  C5. Only the isotropic form has the clamp \<open>max(0.f, .)\<close>; the anisotropic form negates
  the quotient as computed. At \<open>H = (0, 0, 1)\<close> (so \<open>NoH = 1\<close>) and \<open>rgns = (0, 0.5)\<close> the
  anisotropic quotient is \<open>0 / 0\<close>, NaN, and so are the exponential factor and the value
  of the function: the factor is not at most 1.
\<close>

theorem beckmann_exponent_guard_counterexample:
  "\<not> is_zero (fvec3_z (fv3 (Fin 0) (Fin 0) (Fin 1)))
   \<and> beckmannExponent_aniso_f32 (fv3 (Fin 0) (Fin 0) (Fin 1)) (fv2 (Fin 0) (Fin (1 / 2))) = NaN
   \<and> \<not> fle (Fin 0)
        (beckmannExponent_aniso_f32 (fv3 (Fin 0) (Fin 0) (Fin 1)) (fv2 (Fin 0) (Fin (1 / 2))))
   \<and> \<not> fle (fexp (fneg
        (beckmannExponent_aniso_f32 (fv3 (Fin 0) (Fin 0) (Fin 1)) (fv2 (Fin 0) (Fin (1 / 2))))))
        (Fin 1)
   \<and> evalBeckmannDistribution_aniso_f32 (fv3 (Fin 0) (Fin 0) (Fin 1)) (fv2 (Fin 0) (Fin (1 / 2)))
      = NaN"
  unfolding evalBeckmannDistribution_aniso_f32_def Let_def aniso_exponent_nan
  by (simp add: is_zero_def fle_def fneg_def fexp_def fdiv_def)

text \<open>
  C5, amended. In binary32 the isotropic form clamps its exponent with \<open>max(0.f, .)\<close>: for
  every input, NaN and infinities included, the exponent is non-negative (possibly \<open>+inf\<close>)
  and the factor \<open>exp(-exponent)\<close> is a finite number in \<open>[0, 1]\<close>. The anisotropic form has no
  clamp; its exponent is non-negative, and its factor in \<open>[0, 1]\<close>, whenever \<open>H\<close> and \<open>rgns\<close>
  are finite, the computed squares \<open>rgns.x * rgns.x\<close>, \<open>rgns.y * rgns.y\<close> and
  \<open>H.z * H.z\<close> are not zero and \<open>H.z * H.z\<close> has not overflowed.
  (\<open>fle (Fin 0) e\<close> reads: \<open>e\<close> is not NaN and \<open>0 \<le> e\<close>.)
\<close>

theorem beckmann_exponent_guard_f32:
  "evalBeckmannDistribution_iso_f32 N H roughness =
     fdiv (fexp (fneg (beckmannExponent_iso_f32 N H roughness)))
          (fmul (fmul (fmul M_PIf_f32 (fmul roughness roughness))
                      (fmul (fdot3 N H) (fdot3 N H))) (fmul (fdot3 N H) (fdot3 N H)))
   \<and> fle (Fin 0) (beckmannExponent_iso_f32 N H roughness)
   \<and> fle (Fin 0) (fexp (fneg (beckmannExponent_iso_f32 N H roughness)))
   \<and> fle (fexp (fneg (beckmannExponent_iso_f32 N H roughness))) (Fin 1)
   \<and> evalBeckmannDistribution_aniso_f32 H rgns =
     fdiv (fexp (fneg (beckmannExponent_aniso_f32 H rgns)))
          (fmul (fmul (fmul (fmul M_PIf_f32 (fvec2_x rgns)) (fvec2_y rgns))
                      (fmul (fvec3_z H) (fvec3_z H))) (fmul (fvec3_z H) (fvec3_z H)))
   \<and> (is_finite (fvec3_x H) \<and> is_finite (fvec3_y H) \<and> is_finite (fvec3_z H)
       \<and> is_finite (fvec2_x rgns) \<and> is_finite (fvec2_y rgns)
       \<and> \<not> is_zero (fmul (fvec2_x rgns) (fvec2_x rgns))
       \<and> \<not> is_zero (fmul (fvec2_y rgns) (fvec2_y rgns))
       \<and> \<not> is_zero (fmul (fvec3_z H) (fvec3_z H))
       \<and> is_finite (fmul (fvec3_z H) (fvec3_z H))
      \<longrightarrow> fle (Fin 0) (beckmannExponent_aniso_f32 H rgns)
          \<and> fle (Fin 0) (fexp (fneg (beckmannExponent_aniso_f32 H rgns)))
          \<and> fle (fexp (fneg (beckmannExponent_aniso_f32 H rgns))) (Fin 1))"
proof (intro conjI impI)
  show "evalBeckmannDistribution_iso_f32 N H roughness =
     fdiv (fexp (fneg (beckmannExponent_iso_f32 N H roughness)))
          (fmul (fmul (fmul M_PIf_f32 (fmul roughness roughness))
                      (fmul (fdot3 N H) (fdot3 N H))) (fmul (fdot3 N H) (fdot3 N H)))"
    unfolding evalBeckmannDistribution_iso_f32_def Let_def ..
  show "evalBeckmannDistribution_aniso_f32 H rgns =
     fdiv (fexp (fneg (beckmannExponent_aniso_f32 H rgns)))
          (fmul (fmul (fmul (fmul M_PIf_f32 (fvec2_x rgns)) (fvec2_y rgns))
                      (fmul (fvec3_z H) (fvec3_z H))) (fmul (fvec3_z H) (fvec3_z H)))"
    unfolding evalBeckmannDistribution_aniso_f32_def Let_def ..
  note iso = beckmannExponent_iso_f32_nonneg [of N H roughness]
  show "fle (Fin 0) (beckmannExponent_iso_f32 N H roughness)" by (rule iso)
  show "fle (Fin 0) (fexp (fneg (beckmannExponent_iso_f32 N H roughness)))"
    and "fle (fexp (fneg (beckmannExponent_iso_f32 N H roughness))) (Fin 1)"
    using iso by (rule exp_factor_range)+
next
  assume h: "is_finite (fvec3_x H) \<and> is_finite (fvec3_y H) \<and> is_finite (fvec3_z H)
       \<and> is_finite (fvec2_x rgns) \<and> is_finite (fvec2_y rgns)
       \<and> \<not> is_zero (fmul (fvec2_x rgns) (fvec2_x rgns))
       \<and> \<not> is_zero (fmul (fvec2_y rgns) (fvec2_y rgns))
       \<and> \<not> is_zero (fmul (fvec3_z H) (fvec3_z H))
       \<and> is_finite (fmul (fvec3_z H) (fvec3_z H))"
  then have aniso: "fle (Fin 0) (beckmannExponent_aniso_f32 H rgns)"
    by (intro beckmannExponent_aniso_f32_nonneg) simp_all
  show "fle (Fin 0) (beckmannExponent_aniso_f32 H rgns)" by (rule aniso)
  show "fle (Fin 0) (fexp (fneg (beckmannExponent_aniso_f32 H rgns)))"
    and "fle (fexp (fneg (beckmannExponent_aniso_f32 H rgns))) (Fin 1)"
    using aniso by (rule exp_factor_range)+
qed

theorem beckmann_exponent_guard_f32_witness:
  "is_finite (fvec3_x (fv3 (Fin (1 / 2)) (Fin 0) (Fin (1 / 2))))
   \<and> is_finite (fvec3_y (fv3 (Fin (1 / 2)) (Fin 0) (Fin (1 / 2))))
   \<and> is_finite (fvec3_z (fv3 (Fin (1 / 2)) (Fin 0) (Fin (1 / 2))))
   \<and> is_finite (fvec2_x (fv2 (Fin 1) (Fin 1))) \<and> is_finite (fvec2_y (fv2 (Fin 1) (Fin 1)))
   \<and> \<not> is_zero (fmul (fvec2_x (fv2 (Fin 1) (Fin 1))) (fvec2_x (fv2 (Fin 1) (Fin 1))))
   \<and> \<not> is_zero (fmul (fvec2_y (fv2 (Fin 1) (Fin 1))) (fvec2_y (fv2 (Fin 1) (Fin 1))))
   \<and> \<not> is_zero (fmul (fvec3_z (fv3 (Fin (1 / 2)) (Fin 0) (Fin (1 / 2))))
                      (fvec3_z (fv3 (Fin (1 / 2)) (Fin 0) (Fin (1 / 2)))))
   \<and> is_finite (fmul (fvec3_z (fv3 (Fin (1 / 2)) (Fin 0) (Fin (1 / 2))))
                     (fvec3_z (fv3 (Fin (1 / 2)) (Fin 0) (Fin (1 / 2)))))
   \<and> fle (Fin 0) (beckmannExponent_iso_f32 (fv3 (Fin 0) (Fin 0) (Fin 1))
        (fv3 (Fin (1 / 2)) (Fin 0) (Fin (1 / 2))) (Fin 1))
   \<and> fle (fexp (fneg (beckmannExponent_iso_f32 (fv3 (Fin 0) (Fin 0) (Fin 1))
        (fv3 (Fin (1 / 2)) (Fin 0) (Fin (1 / 2))) (Fin 1)))) (Fin 1)
   \<and> fle (Fin 0) (beckmannExponent_aniso_f32 (fv3 (Fin (1 / 2)) (Fin 0) (Fin (1 / 2)))
        (fv2 (Fin 1) (Fin 1)))
   \<and> fle (fexp (fneg (beckmannExponent_aniso_f32 (fv3 (Fin (1 / 2)) (Fin 0) (Fin (1 / 2)))
        (fv2 (Fin 1) (Fin 1))))) (Fin 1)
   \<and> beckmannExponent_iso_f32 (fv3 (Fin 0) (Fin 0) (Fin 1))
        (fv3 (Fin (1 / 2)) (Fin 0) (Fin (1 / 2))) (Fin 1) = Fin 3
   \<and> beckmannExponent_aniso_f32 (fv3 (Fin (1 / 2)) (Fin 0) (Fin (1 / 2)))
        (fv2 (Fin 1) (Fin 1)) = Fin 1"
proof -
  have one: "fmul (Fin 1) (Fin 1) = Fin 1" by (simp add: fmul_Fin mk_1)
  have sq: "fmul (Fin (1 / 2)) (Fin (1 / 2)) = Fin (1 / 4)" by (simp add: fmul_Fin mk_quarter)
  have h: "is_finite (fvec3_x (fv3 (Fin (1 / 2)) (Fin 0) (Fin (1 / 2))))
   \<and> is_finite (fvec3_y (fv3 (Fin (1 / 2)) (Fin 0) (Fin (1 / 2))))
   \<and> is_finite (fvec3_z (fv3 (Fin (1 / 2)) (Fin 0) (Fin (1 / 2))))
   \<and> is_finite (fvec2_x (fv2 (Fin 1) (Fin 1))) \<and> is_finite (fvec2_y (fv2 (Fin 1) (Fin 1)))
   \<and> \<not> is_zero (fmul (fvec2_x (fv2 (Fin 1) (Fin 1))) (fvec2_x (fv2 (Fin 1) (Fin 1))))
   \<and> \<not> is_zero (fmul (fvec2_y (fv2 (Fin 1) (Fin 1))) (fvec2_y (fv2 (Fin 1) (Fin 1))))
   \<and> \<not> is_zero (fmul (fvec3_z (fv3 (Fin (1 / 2)) (Fin 0) (Fin (1 / 2))))
                      (fvec3_z (fv3 (Fin (1 / 2)) (Fin 0) (Fin (1 / 2)))))
   \<and> is_finite (fmul (fvec3_z (fv3 (Fin (1 / 2)) (Fin 0) (Fin (1 / 2))))
                     (fvec3_z (fv3 (Fin (1 / 2)) (Fin 0) (Fin (1 / 2)))))"
    by (simp add: one sq is_zero_def)
  show ?thesis
    using h beckmann_exponent_guard_f32 [of "fv3 (Fin 0) (Fin 0) (Fin 1)"
        "fv3 (Fin (1 / 2)) (Fin 0) (Fin (1 / 2))" "Fin 1" "fv2 (Fin 1) (Fin 1)"]
      iso_exponent_sample aniso_exponent_sample
    by (intro conjI) (elim conjE impE, (assumption | intro conjI)+)+
qed

section \<open>The divisor of the effective visible roughness\<close>

text \<open>
  C6, as the specification states it, fails: at the unit direction \<open>(0, 0, 1)\<close>, where
  \<open>dir.z = 1\<close>, the divisor \<open>1 - dir.z\<^sup>2\<close> is zero, and at the unit direction
  \<open>(1, 0, 0)\<close>, where \<open>dir.z = 0\<close>, it is one.
\<close>

theorem effectiveVisibleRoughness_divisor_counterexample:
  "dot3 (v3 0 0 1) (v3 0 0 1) = 1 \<and> vec3_z (v3 0 0 1) = 1
   \<and> effectiveVisibleRoughness_divisor (v3 0 0 1) = 0
   \<and> dot3 (v3 1 0 0) (v3 1 0 0) = 1 \<and> vec3_z (v3 1 0 0) = 0
   \<and> effectiveVisibleRoughness_divisor (v3 1 0 0) \<noteq> 0"
  by (simp add: effectiveVisibleRoughness_divisor_def dot3_def)

text \<open>
  C6, amended. \<open>effectiveVisibleRoughness\<close> divides by \<open>1 - dir.z\<^sup>2\<close>; this divisor is
  zero exactly when \<open>dir.z\<close> is 1 or -1, and it is 1 when \<open>dir.z = 0\<close>.
\<close>

theorem effectiveVisibleRoughness_divisor_zero:
  "effectiveVisibleRoughness dir rghns =
     sqrt (vec2_x rghns * vec2_x rghns
             * (vec3_x dir * vec3_x dir * (1 / effectiveVisibleRoughness_divisor dir))
           + vec2_y rghns * vec2_y rghns
             * (vec3_y dir * vec3_y dir * (1 / effectiveVisibleRoughness_divisor dir)))
   \<and> (effectiveVisibleRoughness_divisor dir = 0) = (vec3_z dir = 1 \<or> vec3_z dir = - 1)
   \<and> effectiveVisibleRoughness_divisor (v3 a b 0) = 1"
proof -
  have "(1 - vec3_z dir * vec3_z dir = 0) = (vec3_z dir = 1 \<or> vec3_z dir = - 1)"
    using square_eq_1_iff [of "vec3_z dir"] by auto
  then show ?thesis
    by (simp add: effectiveVisibleRoughness_def effectiveVisibleRoughness_divisor_def
          Let_def mul2_def scale2_def)
qed

section \<open>Sampling: the failure policy\<close>



section \<open>Sampling: the sampled normal and the reference parameters\<close>

text \<open>
  C9. The claim does not hold of the binary32 program. With \<open>roughness.x = 2^67\<close> and
  sample \<open>(0.5, 0)\<close>, \<open>alphaSqr\<close> overflows, \<open>cosThetaM\<close> is \<open>1 / inf = 0\<close>, and
  \<open>sampleGGXDistribution\<close> writes a normal with \<open>m.z = 0\<close>, not \<open>m.z > 0\<close>. With roughness
  \<open>(1, 1)\<close> and the same sample it writes \<open>m = (c, 0, c)\<close> with \<open>c = 11863283 / 2^24\<close>, the
  binary32 value next to \<open>1 / sqrt 2\<close>: its squared length is not 1 as a real number, and
  \<open>dot(m, m)\<close> computed in binary32 is \<open>1 - 2^(-24)\<close>.
\<close>

theorem sampled_normal_unit_counterexample:
  "fvec3_z (fout_m (snd (sampleGGXDistribution_f32 (fv3 (Fin 0) (Fin 0) (Fin 1))
       (fv2 (Fin (2 ^ 67)) (Fin (2 ^ 67))) (fv2 (Fin (1 / 2)) (Fin 0))
       \<lparr>fout_m = fv3 (Fin 0) (Fin 0) (Fin 0), fout_wi = fv3 (Fin 0) (Fin 0) (Fin 0),
        fout_pdf = Fin 0\<rparr>))) = Fin 0
   \<and> fout_m (snd (sampleGGXDistribution_f32 (fv3 (Fin 0) (Fin 0) (Fin 1))
       (fv2 (Fin 1) (Fin 1)) (fv2 (Fin (1 / 2)) (Fin 0))
       \<lparr>fout_m = fv3 (Fin 0) (Fin 0) (Fin 0), fout_wi = fv3 (Fin 0) (Fin 0) (Fin 0),
        fout_pdf = Fin 0\<rparr>))
     = fv3 (Fin (11863283 / 16777216)) (Fin 0) (Fin (11863283 / 16777216))
   \<and> (11863283 / 16777216) * (11863283 / 16777216) + 0 * 0
       + (11863283 / 16777216) * (11863283 / 16777216) \<noteq> (1::real)
   \<and> fdot3 (fv3 (Fin (11863283 / 16777216)) (Fin 0) (Fin (11863283 / 16777216)))
            (fv3 (Fin (11863283 / 16777216)) (Fin 0) (Fin (11863283 / 16777216)))
     = Fin (16777215 / 16777216)"
proof -
  have z: "fvec3_z (microfacetNormal_f32 c s) = c" for c s
    by (simp add: microfacetNormal_f32_def Let_def)
  have dot: "fdot3 (fv3 (Fin (11863283 / 16777216)) (Fin 0) (Fin (11863283 / 16777216)))
            (fv3 (Fin (11863283 / 16777216)) (Fin 0) (Fin (11863283 / 16777216)))
     = Fin (16777215 / 16777216)"
    using mk_cos_sq mk_cos_sq_val mk_dot_val
    by (simp add: fdot3_def fmul_Fin fadd_Fin zero_of_def)
  have sq: "(11863283 / 16777216) * (11863283 / 16777216) + 0 * 0
       + (11863283 / 16777216) * (11863283 / 16777216) \<noteq> (1::real)"
    by simp
  show ?thesis
    unfolding sampleGGXDistribution_f32_m z ggx_cos_overflow ggx_cos_rounded normal_rounded
    using dot sq by (intro conjI refl)
qed

text \<open>
  C9, amended. In binary32, for finite \<open>0 < roughness.x \<le> 2^50\<close> and finite sample
  components with \<open>0 \<le> randomSample.x \<le> 1 - 2^(-24)\<close> (the largest binary32 number below 1)
  and \<open>0 \<le> randomSample.y \<le> 1\<close>, the normal \<open>m\<close> that either sampling function writes has
  finite components, \<open>|m.x| \<le> 1\<close>, \<open>|m.y| \<le> 1\<close> and \<open>2^(-63) \<le> m.z \<le> 1\<close>, so \<open>m.z > 0\<close>; it is a
  unit vector up to rounding only: \<open>|m.x * m.x + m.y * m.y + m.z * m.z - 1| \<le> 3 / 2^23\<close>, the squares and
  the sum taken exactly. The weight and the three reference parameters given back do not
  depend on what the parameters held before the call, on the failure path as on the
  other: all three are written.
\<close>

theorem sampled_normal_f32:
  assumes "is_finite (fvec2_x roughness)"
    and "0 < valof (fvec2_x roughness)" and "valof (fvec2_x roughness) \<le> 2 ^ 50"
    and "is_finite (fvec2_x rSample)"
    and "0 \<le> valof (fvec2_x rSample)" and "valof (fvec2_x rSample) \<le> 1 - 1 / 2 ^ 24"
    and "is_finite (fvec2_y rSample)"
    and "0 \<le> valof (fvec2_y rSample)" and "valof (fvec2_y rSample) \<le> 1"
    and "mb = fout_m (snd (sampleBeckmannDistribution_f32 wo roughness rSample prior))"
    and "mg = fout_m (snd (sampleGGXDistribution_f32 wo roughness rSample prior))"
  shows "is_finite (fvec3_x mb) \<and> is_finite (fvec3_y mb) \<and> is_finite (fvec3_z mb)
    \<and> \<bar>valof (fvec3_x mb)\<bar> \<le> 1 \<and> \<bar>valof (fvec3_y mb)\<bar> \<le> 1
    \<and> 1 / 2 ^ 63 \<le> valof (fvec3_z mb) \<and> valof (fvec3_z mb) \<le> 1
    \<and> \<bar>valof (fvec3_x mb) * valof (fvec3_x mb) + valof (fvec3_y mb) * valof (fvec3_y mb)
        + valof (fvec3_z mb) * valof (fvec3_z mb) - 1\<bar> \<le> 3 / 2 ^ 23
    \<and> sampleBeckmannDistribution_f32 wo roughness rSample prior
        = sampleBeckmannDistribution_f32 wo roughness rSample other
    \<and> is_finite (fvec3_x mg) \<and> is_finite (fvec3_y mg) \<and> is_finite (fvec3_z mg)
    \<and> \<bar>valof (fvec3_x mg)\<bar> \<le> 1 \<and> \<bar>valof (fvec3_y mg)\<bar> \<le> 1
    \<and> 1 / 2 ^ 63 \<le> valof (fvec3_z mg) \<and> valof (fvec3_z mg) \<le> 1
    \<and> \<bar>valof (fvec3_x mg) * valof (fvec3_x mg) + valof (fvec3_y mg) * valof (fvec3_y mg)
        + valof (fvec3_z mg) * valof (fvec3_z mg) - 1\<bar> \<le> 3 / 2 ^ 23
    \<and> sampleGGXDistribution_f32 wo roughness rSample prior
        = sampleGGXDistribution_f32 wo roughness rSample other"
proof -
  have r: "\<bar>valof (fvec2_x roughness)\<bar> \<le> 2 ^ 50" using assms(2,3) by simp
  have v: "\<bar>valof (fvec2_y rSample)\<bar> \<le> 1" using assms(8,9) by simp
  have p: "(2::real) powi (- 63) = 1 / 2 ^ 63" by (simp add: power_int_minus field_simps)
  note b = beckmannCosThetaM_f32_range [OF assms(1) r assms(4-6)]
  note g = ggxCosThetaM_f32_range [OF assms(1) r assms(4-6)]
  have bpos: "0 \<le> valof (beckmannCosThetaM_f32 roughness rSample)"
    using b(2) by (rule order_trans [rotated]) simp
  have gpos: "0 \<le> valof (ggxCosThetaM_f32 roughness rSample)"
    using g(2) by (rule order_trans [rotated]) simp
  note nb = microfacetNormal_f32_range [OF b(1) bpos b(3) assms(7) v]
  note ng = microfacetNormal_f32_range [OF g(1) gpos g(3) assms(7) v]
  note ub = microfacetNormal_f32_unit_error [OF b(1) bpos b(3) assms(7) v]
  note ug = microfacetNormal_f32_unit_error [OF g(1) gpos g(3) assms(7) v]
  have mb: "mb = microfacetNormal_f32 (beckmannCosThetaM_f32 roughness rSample) rSample"
    unfolding assms(10) by (rule sampleBeckmannDistribution_f32_m)
  have mg: "mg = microfacetNormal_f32 (ggxCosThetaM_f32 roughness rSample) rSample"
    unfolding assms(11) by (rule sampleGGXDistribution_f32_m)
  show ?thesis
    unfolding mb mg
    using nb(2-5) ng(2-5) ub ug b g
      sampleBeckmannDistribution_f32_overwrites [of wo roughness rSample prior other]
      sampleGGXDistribution_f32_overwrites [of wo roughness rSample prior other]
    unfolding nb(1) ng(1) p
    by (intro conjI)
qed

theorem sampled_normal_f32_witness:
  "is_finite (fvec2_x (fv2 (Fin (1 / 2)) (Fin (1 / 2))))
   \<and> 0 < valof (fvec2_x (fv2 (Fin (1 / 2)) (Fin (1 / 2))))
   \<and> valof (fvec2_x (fv2 (Fin (1 / 2)) (Fin (1 / 2)))) \<le> 2 ^ 50
   \<and> is_finite (fvec2_x (fv2 (Fin (1 / 2)) (Fin (1 / 4))))
   \<and> 0 \<le> valof (fvec2_x (fv2 (Fin (1 / 2)) (Fin (1 / 4))))
   \<and> valof (fvec2_x (fv2 (Fin (1 / 2)) (Fin (1 / 4)))) \<le> 1 - 1 / 2 ^ 24
   \<and> is_finite (fvec2_y (fv2 (Fin (1 / 2)) (Fin (1 / 4))))
   \<and> 0 \<le> valof (fvec2_y (fv2 (Fin (1 / 2)) (Fin (1 / 4))))
   \<and> valof (fvec2_y (fv2 (Fin (1 / 2)) (Fin (1 / 4)))) \<le> 1
   \<and> is_finite (fvec3_x (fout_m (snd
         (sampleBeckmannDistribution_f32 (fv3 (Fin 0) (Fin 0) (Fin 1))
          (fv2 (Fin (1 / 2)) (Fin (1 / 2))) (fv2 (Fin (1 / 2)) (Fin (1 / 4)))
          \<lparr>fout_m = fv3 (Fin 0) (Fin 0) (Fin 0), fout_wi = fv3 (Fin 0) (Fin 0) (Fin 0),
            fout_pdf = Fin 0\<rparr>))))
   \<and> is_finite (fvec3_y (fout_m (snd
         (sampleBeckmannDistribution_f32 (fv3 (Fin 0) (Fin 0) (Fin 1))
          (fv2 (Fin (1 / 2)) (Fin (1 / 2))) (fv2 (Fin (1 / 2)) (Fin (1 / 4)))
          \<lparr>fout_m = fv3 (Fin 0) (Fin 0) (Fin 0), fout_wi = fv3 (Fin 0) (Fin 0) (Fin 0),
            fout_pdf = Fin 0\<rparr>))))
   \<and> is_finite (fvec3_z (fout_m (snd
         (sampleBeckmannDistribution_f32 (fv3 (Fin 0) (Fin 0) (Fin 1))
          (fv2 (Fin (1 / 2)) (Fin (1 / 2))) (fv2 (Fin (1 / 2)) (Fin (1 / 4)))
          \<lparr>fout_m = fv3 (Fin 0) (Fin 0) (Fin 0), fout_wi = fv3 (Fin 0) (Fin 0) (Fin 0),
            fout_pdf = Fin 0\<rparr>))))
   \<and> \<bar>valof (fvec3_x (fout_m (snd
         (sampleBeckmannDistribution_f32 (fv3 (Fin 0) (Fin 0) (Fin 1))
          (fv2 (Fin (1 / 2)) (Fin (1 / 2))) (fv2 (Fin (1 / 2)) (Fin (1 / 4)))
          \<lparr>fout_m = fv3 (Fin 0) (Fin 0) (Fin 0), fout_wi = fv3 (Fin 0) (Fin 0) (Fin 0),
            fout_pdf = Fin 0\<rparr>))))\<bar> \<le> 1
   \<and> \<bar>valof (fvec3_y (fout_m (snd
         (sampleBeckmannDistribution_f32 (fv3 (Fin 0) (Fin 0) (Fin 1))
          (fv2 (Fin (1 / 2)) (Fin (1 / 2))) (fv2 (Fin (1 / 2)) (Fin (1 / 4)))
          \<lparr>fout_m = fv3 (Fin 0) (Fin 0) (Fin 0), fout_wi = fv3 (Fin 0) (Fin 0) (Fin 0),
            fout_pdf = Fin 0\<rparr>))))\<bar> \<le> 1
   \<and> 1 / 2 ^ 63 \<le> valof (fvec3_z (fout_m (snd
         (sampleBeckmannDistribution_f32 (fv3 (Fin 0) (Fin 0) (Fin 1))
          (fv2 (Fin (1 / 2)) (Fin (1 / 2))) (fv2 (Fin (1 / 2)) (Fin (1 / 4)))
          \<lparr>fout_m = fv3 (Fin 0) (Fin 0) (Fin 0), fout_wi = fv3 (Fin 0) (Fin 0) (Fin 0),
            fout_pdf = Fin 0\<rparr>))))
   \<and> valof (fvec3_z (fout_m (snd
         (sampleBeckmannDistribution_f32 (fv3 (Fin 0) (Fin 0) (Fin 1))
          (fv2 (Fin (1 / 2)) (Fin (1 / 2))) (fv2 (Fin (1 / 2)) (Fin (1 / 4)))
          \<lparr>fout_m = fv3 (Fin 0) (Fin 0) (Fin 0), fout_wi = fv3 (Fin 0) (Fin 0) (Fin 0),
            fout_pdf = Fin 0\<rparr>)))) \<le> 1
   \<and> \<bar>valof (fvec3_x (fout_m (snd
         (sampleBeckmannDistribution_f32 (fv3 (Fin 0) (Fin 0) (Fin 1))
          (fv2 (Fin (1 / 2)) (Fin (1 / 2))) (fv2 (Fin (1 / 2)) (Fin (1 / 4)))
          \<lparr>fout_m = fv3 (Fin 0) (Fin 0) (Fin 0), fout_wi = fv3 (Fin 0) (Fin 0) (Fin 0),
            fout_pdf = Fin 0\<rparr>))))
       * valof (fvec3_x (fout_m (snd
         (sampleBeckmannDistribution_f32 (fv3 (Fin 0) (Fin 0) (Fin 1))
          (fv2 (Fin (1 / 2)) (Fin (1 / 2))) (fv2 (Fin (1 / 2)) (Fin (1 / 4)))
          \<lparr>fout_m = fv3 (Fin 0) (Fin 0) (Fin 0), fout_wi = fv3 (Fin 0) (Fin 0) (Fin 0),
            fout_pdf = Fin 0\<rparr>))))
       + valof (fvec3_y (fout_m (snd
         (sampleBeckmannDistribution_f32 (fv3 (Fin 0) (Fin 0) (Fin 1))
          (fv2 (Fin (1 / 2)) (Fin (1 / 2))) (fv2 (Fin (1 / 2)) (Fin (1 / 4)))
          \<lparr>fout_m = fv3 (Fin 0) (Fin 0) (Fin 0), fout_wi = fv3 (Fin 0) (Fin 0) (Fin 0),
            fout_pdf = Fin 0\<rparr>))))
       * valof (fvec3_y (fout_m (snd
         (sampleBeckmannDistribution_f32 (fv3 (Fin 0) (Fin 0) (Fin 1))
          (fv2 (Fin (1 / 2)) (Fin (1 / 2))) (fv2 (Fin (1 / 2)) (Fin (1 / 4)))
          \<lparr>fout_m = fv3 (Fin 0) (Fin 0) (Fin 0), fout_wi = fv3 (Fin 0) (Fin 0) (Fin 0),
            fout_pdf = Fin 0\<rparr>))))
       + valof (fvec3_z (fout_m (snd
         (sampleBeckmannDistribution_f32 (fv3 (Fin 0) (Fin 0) (Fin 1))
          (fv2 (Fin (1 / 2)) (Fin (1 / 2))) (fv2 (Fin (1 / 2)) (Fin (1 / 4)))
          \<lparr>fout_m = fv3 (Fin 0) (Fin 0) (Fin 0), fout_wi = fv3 (Fin 0) (Fin 0) (Fin 0),
            fout_pdf = Fin 0\<rparr>))))
       * valof (fvec3_z (fout_m (snd
         (sampleBeckmannDistribution_f32 (fv3 (Fin 0) (Fin 0) (Fin 1))
          (fv2 (Fin (1 / 2)) (Fin (1 / 2))) (fv2 (Fin (1 / 2)) (Fin (1 / 4)))
          \<lparr>fout_m = fv3 (Fin 0) (Fin 0) (Fin 0), fout_wi = fv3 (Fin 0) (Fin 0) (Fin 0),
            fout_pdf = Fin 0\<rparr>)))) - 1\<bar> \<le> 3 / 2 ^ 23
   \<and> sampleBeckmannDistribution_f32 (fv3 (Fin 0) (Fin 0) (Fin 1))
          (fv2 (Fin (1 / 2)) (Fin (1 / 2))) (fv2 (Fin (1 / 2)) (Fin (1 / 4)))
          \<lparr>fout_m = fv3 (Fin 0) (Fin 0) (Fin 0), fout_wi = fv3 (Fin 0) (Fin 0) (Fin 0),
            fout_pdf = Fin 0\<rparr>
      = sampleBeckmannDistribution_f32 (fv3 (Fin 0) (Fin 0) (Fin 1))
          (fv2 (Fin (1 / 2)) (Fin (1 / 2))) (fv2 (Fin (1 / 2)) (Fin (1 / 4)))
          \<lparr>fout_m = fv3 (Fin 1) (Fin 2) (Fin 3), fout_wi = fv3 (Fin 4) (Fin 5) (Fin 6),
            fout_pdf = Fin 7\<rparr>
   \<and> is_finite (fvec3_x (fout_m (snd
         (sampleGGXDistribution_f32 (fv3 (Fin 0) (Fin 0) (Fin 1))
          (fv2 (Fin (1 / 2)) (Fin (1 / 2))) (fv2 (Fin (1 / 2)) (Fin (1 / 4)))
          \<lparr>fout_m = fv3 (Fin 0) (Fin 0) (Fin 0), fout_wi = fv3 (Fin 0) (Fin 0) (Fin 0),
            fout_pdf = Fin 0\<rparr>))))
   \<and> is_finite (fvec3_y (fout_m (snd
         (sampleGGXDistribution_f32 (fv3 (Fin 0) (Fin 0) (Fin 1))
          (fv2 (Fin (1 / 2)) (Fin (1 / 2))) (fv2 (Fin (1 / 2)) (Fin (1 / 4)))
          \<lparr>fout_m = fv3 (Fin 0) (Fin 0) (Fin 0), fout_wi = fv3 (Fin 0) (Fin 0) (Fin 0),
            fout_pdf = Fin 0\<rparr>))))
   \<and> is_finite (fvec3_z (fout_m (snd
         (sampleGGXDistribution_f32 (fv3 (Fin 0) (Fin 0) (Fin 1))
          (fv2 (Fin (1 / 2)) (Fin (1 / 2))) (fv2 (Fin (1 / 2)) (Fin (1 / 4)))
          \<lparr>fout_m = fv3 (Fin 0) (Fin 0) (Fin 0), fout_wi = fv3 (Fin 0) (Fin 0) (Fin 0),
            fout_pdf = Fin 0\<rparr>))))
   \<and> \<bar>valof (fvec3_x (fout_m (snd
         (sampleGGXDistribution_f32 (fv3 (Fin 0) (Fin 0) (Fin 1))
          (fv2 (Fin (1 / 2)) (Fin (1 / 2))) (fv2 (Fin (1 / 2)) (Fin (1 / 4)))
          \<lparr>fout_m = fv3 (Fin 0) (Fin 0) (Fin 0), fout_wi = fv3 (Fin 0) (Fin 0) (Fin 0),
            fout_pdf = Fin 0\<rparr>))))\<bar> \<le> 1
   \<and> \<bar>valof (fvec3_y (fout_m (snd
         (sampleGGXDistribution_f32 (fv3 (Fin 0) (Fin 0) (Fin 1))
          (fv2 (Fin (1 / 2)) (Fin (1 / 2))) (fv2 (Fin (1 / 2)) (Fin (1 / 4)))
          \<lparr>fout_m = fv3 (Fin 0) (Fin 0) (Fin 0), fout_wi = fv3 (Fin 0) (Fin 0) (Fin 0),
            fout_pdf = Fin 0\<rparr>))))\<bar> \<le> 1
   \<and> 1 / 2 ^ 63 \<le> valof (fvec3_z (fout_m (snd
         (sampleGGXDistribution_f32 (fv3 (Fin 0) (Fin 0) (Fin 1))
          (fv2 (Fin (1 / 2)) (Fin (1 / 2))) (fv2 (Fin (1 / 2)) (Fin (1 / 4)))
          \<lparr>fout_m = fv3 (Fin 0) (Fin 0) (Fin 0), fout_wi = fv3 (Fin 0) (Fin 0) (Fin 0),
            fout_pdf = Fin 0\<rparr>))))
   \<and> valof (fvec3_z (fout_m (snd
         (sampleGGXDistribution_f32 (fv3 (Fin 0) (Fin 0) (Fin 1))
          (fv2 (Fin (1 / 2)) (Fin (1 / 2))) (fv2 (Fin (1 / 2)) (Fin (1 / 4)))
          \<lparr>fout_m = fv3 (Fin 0) (Fin 0) (Fin 0), fout_wi = fv3 (Fin 0) (Fin 0) (Fin 0),
            fout_pdf = Fin 0\<rparr>)))) \<le> 1
   \<and> \<bar>valof (fvec3_x (fout_m (snd
         (sampleGGXDistribution_f32 (fv3 (Fin 0) (Fin 0) (Fin 1))
          (fv2 (Fin (1 / 2)) (Fin (1 / 2))) (fv2 (Fin (1 / 2)) (Fin (1 / 4)))
          \<lparr>fout_m = fv3 (Fin 0) (Fin 0) (Fin 0), fout_wi = fv3 (Fin 0) (Fin 0) (Fin 0),
            fout_pdf = Fin 0\<rparr>))))
       * valof (fvec3_x (fout_m (snd
         (sampleGGXDistribution_f32 (fv3 (Fin 0) (Fin 0) (Fin 1))
          (fv2 (Fin (1 / 2)) (Fin (1 / 2))) (fv2 (Fin (1 / 2)) (Fin (1 / 4)))
          \<lparr>fout_m = fv3 (Fin 0) (Fin 0) (Fin 0), fout_wi = fv3 (Fin 0) (Fin 0) (Fin 0),
            fout_pdf = Fin 0\<rparr>))))
       + valof (fvec3_y (fout_m (snd
         (sampleGGXDistribution_f32 (fv3 (Fin 0) (Fin 0) (Fin 1))
          (fv2 (Fin (1 / 2)) (Fin (1 / 2))) (fv2 (Fin (1 / 2)) (Fin (1 / 4)))
          \<lparr>fout_m = fv3 (Fin 0) (Fin 0) (Fin 0), fout_wi = fv3 (Fin 0) (Fin 0) (Fin 0),
            fout_pdf = Fin 0\<rparr>))))
       * valof (fvec3_y (fout_m (snd
         (sampleGGXDistribution_f32 (fv3 (Fin 0) (Fin 0) (Fin 1))
          (fv2 (Fin (1 / 2)) (Fin (1 / 2))) (fv2 (Fin (1 / 2)) (Fin (1 / 4)))
          \<lparr>fout_m = fv3 (Fin 0) (Fin 0) (Fin 0), fout_wi = fv3 (Fin 0) (Fin 0) (Fin 0),
            fout_pdf = Fin 0\<rparr>))))
       + valof (fvec3_z (fout_m (snd
         (sampleGGXDistribution_f32 (fv3 (Fin 0) (Fin 0) (Fin 1))
          (fv2 (Fin (1 / 2)) (Fin (1 / 2))) (fv2 (Fin (1 / 2)) (Fin (1 / 4)))
          \<lparr>fout_m = fv3 (Fin 0) (Fin 0) (Fin 0), fout_wi = fv3 (Fin 0) (Fin 0) (Fin 0),
            fout_pdf = Fin 0\<rparr>))))
       * valof (fvec3_z (fout_m (snd
         (sampleGGXDistribution_f32 (fv3 (Fin 0) (Fin 0) (Fin 1))
          (fv2 (Fin (1 / 2)) (Fin (1 / 2))) (fv2 (Fin (1 / 2)) (Fin (1 / 4)))
          \<lparr>fout_m = fv3 (Fin 0) (Fin 0) (Fin 0), fout_wi = fv3 (Fin 0) (Fin 0) (Fin 0),
            fout_pdf = Fin 0\<rparr>)))) - 1\<bar> \<le> 3 / 2 ^ 23
   \<and> sampleGGXDistribution_f32 (fv3 (Fin 0) (Fin 0) (Fin 1))
          (fv2 (Fin (1 / 2)) (Fin (1 / 2))) (fv2 (Fin (1 / 2)) (Fin (1 / 4)))
          \<lparr>fout_m = fv3 (Fin 0) (Fin 0) (Fin 0), fout_wi = fv3 (Fin 0) (Fin 0) (Fin 0),
            fout_pdf = Fin 0\<rparr>
      = sampleGGXDistribution_f32 (fv3 (Fin 0) (Fin 0) (Fin 1))
          (fv2 (Fin (1 / 2)) (Fin (1 / 2))) (fv2 (Fin (1 / 2)) (Fin (1 / 4)))
          \<lparr>fout_m = fv3 (Fin 1) (Fin 2) (Fin 3), fout_wi = fv3 (Fin 4) (Fin 5) (Fin 6),
            fout_pdf = Fin 7\<rparr>"
proof -
  have h: "is_finite (fvec2_x (fv2 (Fin (1 / 2)) (Fin (1 / 2))))"
    "0 < valof (fvec2_x (fv2 (Fin (1 / 2)) (Fin (1 / 2))))"
    "valof (fvec2_x (fv2 (Fin (1 / 2)) (Fin (1 / 2)))) \<le> 2 ^ 50"
    "is_finite (fvec2_x (fv2 (Fin (1 / 2)) (Fin (1 / 4))))"
    "0 \<le> valof (fvec2_x (fv2 (Fin (1 / 2)) (Fin (1 / 4))))"
    "valof (fvec2_x (fv2 (Fin (1 / 2)) (Fin (1 / 4)))) \<le> 1 - 1 / 2 ^ 24"
    "is_finite (fvec2_y (fv2 (Fin (1 / 2)) (Fin (1 / 4))))"
    "0 \<le> valof (fvec2_y (fv2 (Fin (1 / 2)) (Fin (1 / 4))))"
    "valof (fvec2_y (fv2 (Fin (1 / 2)) (Fin (1 / 4)))) \<le> 1"
    by simp_all
  show ?thesis
    using h sampled_normal_f32 [OF h refl refl, where wo = "fv3 (Fin 0) (Fin 0) (Fin 1)"
        and prior = "\<lparr>fout_m = fv3 (Fin 0) (Fin 0) (Fin 0), fout_wi = fv3 (Fin 0) (Fin 0) (Fin 0),
            fout_pdf = Fin 0\<rparr>"
        and other = "\<lparr>fout_m = fv3 (Fin 1) (Fin 2) (Fin 3), fout_wi = fv3 (Fin 4) (Fin 5) (Fin 6),
            fout_pdf = Fin 7\<rparr>"]
    by (intro conjI) (elim conjE, assumption)+
qed

section \<open>Sampling: the density after the Jacobian\<close>




section \<open>Sampling: the scenario from directly above\<close>

text \<open>
  C8. At \<open>wo = (0, 0, 1)\<close>, roughness \<open>(0.5, 0.5)\<close> and sample \<open>(0.5, 0.0)\<close> both
  sampling functions give back \<open>wi.z > 0\<close> and \<open>pdf > 0\<close> and return a weight that is
  not negative: the weight is exactly 1, whatever the reference parameters held before.
\<close>

theorem sample_scenario_from_above:
  "0 < vec3_z (out_wi (snd (sampleBeckmannDistribution (v3 0 0 1) (v2 (1 / 2) (1 / 2))
                             (v2 (1 / 2) 0) out0)))
   \<and> 0 < out_pdf (snd (sampleBeckmannDistribution (v3 0 0 1) (v2 (1 / 2) (1 / 2))
                         (v2 (1 / 2) 0) out0))
   \<and> 0 \<le> fst (sampleBeckmannDistribution (v3 0 0 1) (v2 (1 / 2) (1 / 2)) (v2 (1 / 2) 0) out0)
   \<and> fst (sampleBeckmannDistribution (v3 0 0 1) (v2 (1 / 2) (1 / 2)) (v2 (1 / 2) 0) out0) = 1
   \<and> 0 < vec3_z (out_wi (snd (sampleGGXDistribution (v3 0 0 1) (v2 (1 / 2) (1 / 2))
                             (v2 (1 / 2) 0) out0)))
   \<and> 0 < out_pdf (snd (sampleGGXDistribution (v3 0 0 1) (v2 (1 / 2) (1 / 2))
                         (v2 (1 / 2) 0) out0))
   \<and> 0 \<le> fst (sampleGGXDistribution (v3 0 0 1) (v2 (1 / 2) (1 / 2)) (v2 (1 / 2) 0) out0)
   \<and> fst (sampleGGXDistribution (v3 0 0 1) (v2 (1 / 2) (1 / 2)) (v2 (1 / 2) 0) out0) = 1"
proof -
  let ?wo = "v3 0 0 1"
  let ?r = "v2 (1 / 2) (1 / 2)"
  let ?s = "v2 (1 / 2) 0"
  have s_range: "0 \<le> vec2_x ?s" "vec2_x ?s < 1" by simp_all
  have beckmann: "0 < vec3_z (out_wi (snd (sampleBeckmannDistribution ?wo ?r ?s out0)))
      \<and> 0 < out_pdf (snd (sampleBeckmannDistribution ?wo ?r ?s out0))
      \<and> fst (sampleBeckmannDistribution ?wo ?r ?s out0) = 1"
  proof -
    define c where "c = beckmannCosThetaM ?r ?s"
    define m where "m = microfacetNormal c ?s"
    define p where "p = 2 / (pi * (c * c * c))"
    have c: "0 < c" "c \<le> 1"
      unfolding c_def by (rule beckmannCosThetaM_range [OF s_range])+
    have cc: "c * c = 4 / (4 + ln 2)" unfolding c_def by (rule beckmann_scenario_cos)
    have wi_z: "vec3_z (reflectAbout ?wo m) = 2 * (c * c) - 1"
      and wi_m: "dot3 (reflectAbout ?wo m) m = c" and wo_m: "dot3 ?wo m = c"
      unfolding m_def by (rule sampled_from_above [OF c])+
    have nz: "0 < 4 + ln (2::real)" and num: "0 < 4 - ln (2::real)"
      using ln2_bounds by linarith+
    have "2 * (c * c) - 1 = (4 - ln 2) / (4 + ln 2)"
      unfolding cc using nz by (simp add: field_simps)
    also have "0 < \<dots>" using nz num by (rule divide_pos_pos [rotated])
    finally have wi_pos: "0 < vec3_z (reflectAbout ?wo m)" by (simp only: wi_z)
    have pdfH: "beckmannPdfH ?r ?s = p"
      by (simp add: beckmannPdfH_def Let_def c_def [symmetric] p_def M_PIf_def)
    have keep: "sanityCheckPdf p = p" and p_pos: "0 < p"
      unfolding p_def by (rule pdf_over_cube_keeps [OF c], simp)+
    have cond: "\<not> (vec3_z (reflectAbout ?wo m) \<le> 0 \<or> p \<le> 0)"
      using wi_pos p_pos by (simp add: not_le)
    have res: "sampleBeckmannDistribution ?wo ?r ?s out0
        = (evalBeckmannDistribution_aniso m ?r * dot3 ?wo m / (p * vec3_z ?wo),
           \<lparr>out_m = m, out_wi = reflectAbout ?wo m,
            out_pdf = p / (4 * dot3 (reflectAbout ?wo m) m)\<rparr>)"
      unfolding sampleBeckmannDistribution_parts Let_def pdfH keep
        c_def [symmetric] m_def [symmetric]
      using cond by (simp only: if_False)
    define sn where "sn = sqrt (max 0 (1 - c * c))"
    have "c * c \<le> 1" using c by (simp add: mult_le_one)
    then have sq: "sn * sn = 1 - c * c" by (simp add: sn_def max_def)
    have m: "m = v3 sn 0 c" by (simp add: m_def microfacetNormal_phi0 sn_def)
    have "beckmannExponent_aniso m ?r = 4 * (sn * sn) / (c * c)"
      by (simp add: m beckmannExponent_aniso_def Let_def dot2_def div2_def mul2_def)
    also have "\<dots> = ln 2"
      unfolding sq cc using nz by (simp add: field_simps)
    finally have expo: "beckmannExponent_aniso m ?r = ln 2" .
    have e: "exp (- ln (2::real)) = 1 / 2" by (simp add: exp_minus inverse_eq_divide)
    have D: "evalBeckmannDistribution_aniso m ?r = 2 / (pi * (c * c * (c * c)))"
      unfolding evalBeckmannDistribution_aniso_def Let_def expo e
      by (simp add: m M_PIf_def)
    have w: "evalBeckmannDistribution_aniso m ?r * dot3 ?wo m / (p * vec3_z ?wo) = 1"
      unfolding D wo_m p_def using c(1) by (simp add: field_simps)
    have pd: "0 < p / (4 * dot3 (reflectAbout ?wo m) m)"
      unfolding wi_m using p_pos c(1) by simp
    show ?thesis
      unfolding res fst_conv snd_conv sample_out.simps using wi_pos pd w by (intro conjI)
  qed
  have ggx: "0 < vec3_z (out_wi (snd (sampleGGXDistribution ?wo ?r ?s out0)))
      \<and> 0 < out_pdf (snd (sampleGGXDistribution ?wo ?r ?s out0))
      \<and> fst (sampleGGXDistribution ?wo ?r ?s out0) = 1"
  proof -
    define c where "c = ggxCosThetaM ?r ?s"
    define m where "m = microfacetNormal c ?s"
    define p where "p = 1 / (pi * (c * c * c))"
    have c: "0 < c" "c \<le> 1"
      unfolding c_def by (rule ggxCosThetaM_range [OF s_range])+
    have cc: "c * c = 4 / 5" unfolding c_def by (rule ggx_scenario_cos)
    have wi_z: "vec3_z (reflectAbout ?wo m) = 2 * (c * c) - 1"
      and wi_m: "dot3 (reflectAbout ?wo m) m = c" and wo_m: "dot3 ?wo m = c"
      unfolding m_def by (rule sampled_from_above [OF c])+
    have wi_pos: "0 < vec3_z (reflectAbout ?wo m)" unfolding wi_z cc by simp
    have pdfH: "ggxPdfH ?r ?s = p"
      by (simp add: ggxPdfH_def Let_def c_def [symmetric] p_def M_1_PIf_def)
    have keep: "sanityCheckPdf p = p" and p_pos: "0 < p"
      unfolding p_def by (rule pdf_over_cube_keeps [OF c], simp)+
    have cond: "\<not> (vec3_z (reflectAbout ?wo m) \<le> 0 \<or> p \<le> 0)"
      using wi_pos p_pos by (simp add: not_le)
    have res: "sampleGGXDistribution ?wo ?r ?s out0
        = (evalGGXDistribution_aniso m ?r * dot3 ?wo m / (p * vec3_z ?wo),
           \<lparr>out_m = m, out_wi = reflectAbout ?wo m,
            out_pdf = p / (4 * dot3 (reflectAbout ?wo m) m)\<rparr>)"
      unfolding sampleGGXDistribution_parts Let_def pdfH keep
        c_def [symmetric] m_def [symmetric]
      using cond by (simp only: if_False)
    define sn where "sn = sqrt (max 0 (1 - c * c))"
    have "c * c \<le> 1" using c by (simp add: mult_le_one)
    then have sq: "sn * sn = 1 / 5" by (simp add: sn_def max_def cc)
    have m: "m = v3 sn 0 c" by (simp add: m_def microfacetNormal_phi0 sn_def)
    have D: "evalGGXDistribution_aniso m ?r = 25 / (16 * pi)"
      by (simp add: evalGGXDistribution_aniso_def Let_def m dot2_def div2_def M_PIf_def sq cc)
    have "evalGGXDistribution_aniso m ?r * dot3 ?wo m / (p * vec3_z ?wo)
        = 25 / 16 * (c * c * (c * c))"
      unfolding D wo_m p_def using c(1) by (simp add: field_simps)
    also have "\<dots> = 1" unfolding cc by simp
    finally have w: "evalGGXDistribution_aniso m ?r * dot3 ?wo m / (p * vec3_z ?wo) = 1" .
    have pd: "0 < p / (4 * dot3 (reflectAbout ?wo m) m)"
      unfolding wi_m using p_pos c(1) by simp
    show ?thesis
      unfolding res fst_conv snd_conv sample_out.simps using wi_pos pd w by (intro conjI)
  qed
  show ?thesis using beckmann ggx by simp
qed

section \<open>GGX: the isotropic and the anisotropic form\<close>

text \<open>
  In the first reading the two forms are one formula: with \<open>N = (0, 0, 1)\<close> and a unit \<open>H\<close>
  with \<open>H.z \<ge> 0\<close>, both denominators are \<open>pi * d * d\<close> with \<open>d = H.z * H.z * r * r + 1 - H.z * H.z\<close>.
\<close>

lemma evalGGXDistribution_iso_aniso_exact:
  assumes "0 < r" and "dot3 H H = 1" and "0 \<le> vec3_z H"
  shows "evalGGXDistribution_iso (v3 0 0 1) H r = evalGGXDistribution_aniso H (v2 r r)"
proof -
  have z1: "vec3_z H \<le> 1"
  proof (rule ccontr)
    assume "\<not> vec3_z H \<le> 1"
    then have "1 < vec3_z H * vec3_z H" using assms(3) by (simp add: less_1_mult)
    moreover have "vec3_z H * vec3_z H \<le> dot3 H H" by (simp add: dot3_def)
    ultimately show False using assms(2) by simp
  qed
  have sat: "saturate (dot3 (v3 0 0 1) H) = vec3_z H"
    using z1 assms(3) by (simp add: saturate_def dot3_def)
  have xy: "vec3_x H * vec3_x H + vec3_y H * vec3_y H = 1 - vec3_z H * vec3_z H"
    using assms(2) by (simp add: dot3_def)
  have root: "(vec3_z H * (r * r) - vec3_z H) * vec3_z H + 1
      = vec3_z H * vec3_z H * r * r + (vec3_x H * vec3_x H + vec3_y H * vec3_y H)"
    unfolding xy by (simp add: algebra_simps)
  show ?thesis
    unfolding evalGGXDistribution_iso_def evalGGXDistribution_aniso_def Let_def sat
    by (simp add: dot2_def div2_def root)
qed


text \<open>
  The input above is not isolated: for every finite roughness \<open>r\<close> with
  \<open>2^(-37) \<le> r \<le> 2^(-13)\<close> the isotropic form returns \<open>+inf\<close> at the peak, and the
  anisotropic form a finite value.
\<close>

lemma evalGGXDistribution_peak_range_f32:
  assumes "is_finite r" and "1 / 2 ^ 37 \<le> valof r" and "valof r \<le> 1 / 2 ^ 13"
  shows "evalGGXDistribution_iso_f32 (fv3 (Fin 0) (Fin 0) (Fin 1)) (fv3 (Fin 0) (Fin 0) (Fin 1)) r
      = PInf
    \<and> is_finite (evalGGXDistribution_aniso_f32 (fv3 (Fin 0) (Fin 0) (Fin 1)) (fv2 r r))
    \<and> 1 / 2 ^ 24
        \<le> valof (evalGGXDistribution_aniso_f32 (fv3 (Fin 0) (Fin 0) (Fin 1)) (fv2 r r))"
  using iso_peak_range [OF assms] aniso_peak_range [OF assms] by (intro conjI)

end
